(* ===== verification/Prelude.thy ===== *)
theory Prelude
  imports Main "HOL-Library.Word"
begin

unbundle bit_operations_syntax

text \<open>
  Shared vocabulary of the development: the machine types of the C code, its error
  numbers, little-endian byte sequences, the error-and-state computations that every
  operation with an effect is written in, and a small Hoare calculus for them.
\<close>

section \<open>Machine types\<close>

type_synonym u8 = "8 word"
type_synonym u16 = "16 word"
type_synonym u32 = "32 word"
type_synonym u64 = "64 word"

text \<open>A C \<open>int\<close> (and \<open>pid_t\<close>) is kept at its width and read with \<open>sint\<close>.\<close>

type_synonym c_int = "32 word"
type_synonym pid_t = c_int

text \<open>A NUL-terminated string that the caller owns is the list of its bytes before the NUL.\<close>

type_synonym cstr = "u8 list"

section \<open>Error numbers\<close>

text \<open>
  The values of \<open>errno\<close> the sources name, every other number a system call may set
  (\<open>ERRNO n\<close>), \<open>E_STALE\<close> for a failure return that leaves \<open>errno\<close> as an earlier call
  left it, and \<open>UNDEFINED\<close> for a point where the C program has no defined behaviour
  (a read past the end of an object).
\<close>

datatype errno =
    EINVAL | ENOENT | ENOSPC | EIO | EOVERFLOW | ERANGE | EEXIST | EFAULT | EBUSY | ESRCH
  | ERRNO int | E_STALE | UNDEFINED

section \<open>Computations that may fail and that change a state\<close>

text \<open>
  \<open>if (f(...) < 0) return -1;\<close> is \<open>bindE\<close>; a call whose result is cast to \<open>void\<close> is
  \<open>ignoreE\<close>; and the recurring \<open>saved_errno = errno; cleanup; errno = saved_errno;
  return -1;\<close> is \<open>on_fail\<close>. The state changes made before a failure are kept.
\<close>

type_synonym ('s, 'a) est = "'s \<Rightarrow> (errno + 'a) \<times> 's"

definition retE :: "'a \<Rightarrow> ('s, 'a) est" where
  "retE x = (\<lambda>s. (Inr x, s))"

definition raiseE :: "errno \<Rightarrow> ('s, 'a) est" where
  "raiseE e = (\<lambda>s. (Inl e, s))"

definition bindE :: "('s, 'a) est \<Rightarrow> ('a \<Rightarrow> ('s, 'b) est) \<Rightarrow> ('s, 'b) est" where
  "bindE m f = (\<lambda>s. case m s of (Inl e, t) \<Rightarrow> (Inl e, t) | (Inr x, t) \<Rightarrow> f x t)"

definition ignoreE :: "('s, 'a) est \<Rightarrow> ('s, unit) est" where
  "ignoreE m = (\<lambda>s. (Inr (), snd (m s)))"

definition on_fail :: "('s, 'a) est \<Rightarrow> ('s, 'b) est \<Rightarrow> ('s, 'a) est" where
  "on_fail m h = (\<lambda>s. case m s of (Inl e, t) \<Rightarrow> (Inl e, snd (h t)) | (Inr x, t) \<Rightarrow> (Inr x, t))"

definition liftE :: "errno + 'a \<Rightarrow> ('s, 'a) est" where
  "liftE r = (\<lambda>s. (r, s))"

text \<open>The same sequencing for functions without effects.\<close>

definition bindR :: "errno + 'a \<Rightarrow> ('a \<Rightarrow> errno + 'b) \<Rightarrow> errno + 'b" where
  "bindR r f = (case r of Inl e \<Rightarrow> Inl e | Inr x \<Rightarrow> f x)"

lemma bindR_simps [simp]:
  "bindR (Inl e) f = Inl e"
  "bindR (Inr x) f = f x"
  "bindR (if c then Inl e else r) f = (if c then Inl e else bindR r f)"
  by (simp_all add: bindR_def)

lemma bindR_Inr_iff: "bindR r f = Inr y \<longleftrightarrow> (\<exists>x. r = Inr x \<and> f x = Inr y)"
  by (cases r) simp_all

lemmas est_defs = retE_def raiseE_def bindE_def ignoreE_def on_fail_def liftE_def

text \<open>
  \<open>keeps f m\<close>: whether it fails or not, \<open>m\<close> leaves the part \<open>f\<close> of the state as it was. The
  rules follow the shape of a computation.
\<close>

named_theorems keeps \<open>computations that leave a part of the state alone\<close>

definition keeps :: "('s \<Rightarrow> 'b) \<Rightarrow> ('s, 'a) est \<Rightarrow> bool" where
  "keeps f m \<longleftrightarrow> (\<forall>s. f (snd (m s)) = f s)"

lemma keepsI: "(\<And>s r t. m s = (r, t) \<Longrightarrow> f t = f s) \<Longrightarrow> keeps f m"
  by (metis keeps_def prod.collapse)

lemma keepsD: "keeps f m \<Longrightarrow> m s = (r, t) \<Longrightarrow> f t = f s"
  by (metis keeps_def snd_conv)

lemma keeps_snd: "keeps f m \<Longrightarrow> f (snd (m s)) = f s"
  by (simp add: keeps_def)

lemma keeps_basic [keeps]:
  "keeps f (retE x)" "keeps f (raiseE e)" "keeps f (liftE r)"
  by (simp_all add: keeps_def est_defs)

lemma keeps_bindE [keeps]: "keeps f m \<Longrightarrow> (\<And>x. keeps f (g x)) \<Longrightarrow> keeps f (bindE m g)"
  by (auto simp: keeps_def bindE_def split: prod.split sum.split) (metis snd_conv)+

lemma keeps_ignoreE [keeps]: "keeps f m \<Longrightarrow> keeps f (ignoreE m)"
  by (simp add: keeps_def ignoreE_def)

lemma keeps_on_fail [keeps]: "keeps f m \<Longrightarrow> keeps f h \<Longrightarrow> keeps f (on_fail m h)"
  by (auto simp: keeps_def on_fail_def split: prod.split sum.split) (metis snd_conv)+

lemma keeps_cases [keeps]:
  "keeps f m \<Longrightarrow> keeps f n \<Longrightarrow> keeps f (if c then m else n)"
  "(\<And>a b. keeps f (g a b)) \<Longrightarrow> keeps f (case p of (a, b) \<Rightarrow> g a b)"
  "keeps f m \<Longrightarrow> (\<And>x. keeps f (h x)) \<Longrightarrow> keeps f (case q of None \<Rightarrow> m | Some x \<Rightarrow> h x)"
  "(\<And>x. keeps f (k x)) \<Longrightarrow> keeps f (Let y k)"
  by (auto split: prod.split option.split)

lemma keeps_pair: "keeps f m \<Longrightarrow> keeps g m \<Longrightarrow> keeps (\<lambda>s. (f s, g s)) m"
  by (simp add: keeps_def)

text \<open>
  \<open>triple P m Q E\<close>: from a state with \<open>P\<close>, \<open>m\<close> either returns a value with \<open>Q\<close> or fails with an
  error number and a state that satisfy \<open>E\<close>.
\<close>

definition triple ::
    "('s \<Rightarrow> bool) \<Rightarrow> ('s, 'a) est \<Rightarrow> ('a \<Rightarrow> 's \<Rightarrow> bool) \<Rightarrow> (errno \<Rightarrow> 's \<Rightarrow> bool) \<Rightarrow> bool" where
  "triple P m Q E \<longleftrightarrow>
     (\<forall>s. P s \<longrightarrow> (case m s of (Inl e, t) \<Rightarrow> E e t | (Inr x, t) \<Rightarrow> Q x t))"

lemma tripleI:
  "(\<And>s x t. P s \<Longrightarrow> m s = (Inr x, t) \<Longrightarrow> Q x t) \<Longrightarrow> (\<And>s e t. P s \<Longrightarrow> m s = (Inl e, t) \<Longrightarrow> E e t) \<Longrightarrow>
   triple P m Q E"
  by (auto simp: triple_def split: prod.split sum.split)

lemma triple_ok: "triple P m Q E \<Longrightarrow> P s \<Longrightarrow> m s = (Inr x, t) \<Longrightarrow> Q x t"
  by (fastforce simp: triple_def)

lemma triple_err: "triple P m Q E \<Longrightarrow> P s \<Longrightarrow> m s = (Inl e, t) \<Longrightarrow> E e t"
  by (fastforce simp: triple_def)

lemma triple_conseq:
  assumes "triple P m Q E" and "\<And>s. P' s \<Longrightarrow> P s" and "\<And>x s. Q x s \<Longrightarrow> Q' x s"
    and "\<And>e s. E e s \<Longrightarrow> E' e s"
  shows "triple P' m Q' E'"
  using assms(2-) by (intro tripleI) (blast dest: triple_ok[OF assms(1)] triple_err[OF assms(1)])+

lemma bindE_eq:
  "bindE m g s = (Inr y, t) \<longleftrightarrow> (\<exists>x s'. m s = (Inr x, s') \<and> g x s' = (Inr y, t))"
  "bindE m g s = (Inl e, t) \<longleftrightarrow>
     m s = (Inl e, t) \<or> (\<exists>x s'. m s = (Inr x, s') \<and> g x s' = (Inl e, t))"
  by (auto simp: bindE_def split: prod.split sum.split)

lemma on_fail_eq:
  "on_fail m h s = (Inr x, t) \<longleftrightarrow> m s = (Inr x, t)"
  "on_fail m h s = (Inl e, t) \<longleftrightarrow> (\<exists>s'. m s = (Inl e, s') \<and> t = snd (h s'))"
  by (auto simp: on_fail_def split: prod.split sum.split)

lemma triple_retE: "(\<And>s. P s \<Longrightarrow> Q x s) \<Longrightarrow> triple P (retE x) Q E"
  by (simp add: triple_def retE_def)

lemma triple_raiseE: "(\<And>s. P s \<Longrightarrow> E e s) \<Longrightarrow> triple P (raiseE e) Q E"
  by (simp add: triple_def raiseE_def)

lemma triple_bindE:
  assumes "triple P m R E" and "\<And>x. triple (R x) (g x) Q E"
  shows "triple P (bindE m g) Q E"
  by (rule tripleI)
     (auto simp: bindE_eq dest: triple_ok[OF assms(1)] triple_err[OF assms(1)]
        triple_ok[OF assms(2)] triple_err[OF assms(2)])

lemma triple_if:
  "triple (\<lambda>s. P s \<and> c) m Q E \<Longrightarrow> triple (\<lambda>s. P s \<and> \<not> c) n Q E \<Longrightarrow> triple P (if c then m else n) Q E"
  by (auto simp: triple_def)

lemma triple_snd:
  "triple P m (\<lambda>_. R) (\<lambda>_. R) \<Longrightarrow> P s \<Longrightarrow> R (snd (m s))"
  by (cases "m s"; cases "fst (m s)") (auto dest: triple_ok triple_err)

lemma triple_on_fail:
  assumes "triple P m Q R" and "\<And>e. triple (R e) h (\<lambda>_. E e) (\<lambda>_. E e)"
  shows "triple P (on_fail m h) Q E"
  by (rule tripleI)
     (auto simp: on_fail_eq dest: triple_ok[OF assms(1)] triple_err[OF assms(1)]
        intro: triple_snd[OF assms(2)])

lemma triple_ignoreE:
  "triple P m (\<lambda>_. Q ()) (\<lambda>_. Q ()) \<Longrightarrow> triple P (ignoreE m) Q E"
  by (rule tripleI) (auto simp: ignoreE_def intro: triple_snd)

text \<open>\<open>preserves P m\<close>: whether \<open>m\<close> fails or not, an invariant \<open>P\<close> of the state still holds.\<close>

named_theorems preserves \<open>computations that preserve an invariant\<close>

definition preserves :: "('s \<Rightarrow> bool) \<Rightarrow> ('s, 'a) est \<Rightarrow> bool" where
  "preserves P m \<longleftrightarrow> (\<forall>s. P s \<longrightarrow> P (snd (m s)))"

lemma preservesI: "(\<And>s r t. P s \<Longrightarrow> m s = (r, t) \<Longrightarrow> P t) \<Longrightarrow> preserves P m"
  by (metis preserves_def prod.collapse)

lemma preservesD: "preserves P m \<Longrightarrow> P s \<Longrightarrow> m s = (r, t) \<Longrightarrow> P t"
  by (metis preserves_def snd_conv)

lemma keeps_preserves: "keeps f m \<Longrightarrow> preserves (\<lambda>s. P (f s)) m"
  by (simp add: keeps_def preserves_def)

lemma preserves_triple: "preserves P m \<Longrightarrow> triple P m (\<lambda>_. P) (\<lambda>_. P)"
  by (intro tripleI) (auto dest: preservesD)

lemma triple_preserves: "triple P m (\<lambda>_. P) (\<lambda>_. P) \<Longrightarrow> preserves P m"
  by (auto simp: preserves_def intro: triple_snd)

lemma preserves_basic [preserves]:
  "preserves P (retE x)" "preserves P (raiseE e)" "preserves P (liftE r)"
  by (simp_all add: preserves_def est_defs)

lemma preserves_bindE [preserves]:
  "preserves P m \<Longrightarrow> (\<And>x. preserves P (g x)) \<Longrightarrow> preserves P (bindE m g)"
  by (auto simp: preserves_def bindE_def split: prod.split sum.split)

lemma preserves_ignoreE [preserves]: "preserves P m \<Longrightarrow> preserves P (ignoreE m)"
  by (simp add: preserves_def ignoreE_def)

lemma preserves_on_fail [preserves]:
  "preserves P m \<Longrightarrow> preserves P h \<Longrightarrow> preserves P (on_fail m h)"
  by (auto simp: preserves_def on_fail_def split: prod.split sum.split)

lemma preserves_cases [preserves]:
  "preserves P m \<Longrightarrow> preserves P n \<Longrightarrow> preserves P (if c then m else n)"
  "(\<And>a b. preserves P (g a b)) \<Longrightarrow> preserves P (case p of (a, b) \<Rightarrow> g a b)"
  "preserves P m \<Longrightarrow> (\<And>x. preserves P (h x)) \<Longrightarrow> preserves P (case q of None \<Rightarrow> m | Some x \<Rightarrow> h x)"
  "(\<And>x. preserves P (k x)) \<Longrightarrow> preserves P (Let y k)"
  by (auto split: prod.split option.split)

lemma triple_false: "triple (\<lambda>_. False) m Q E"
  by (simp add: triple_def)

section \<open>Little-endian bytes\<close>

definition le_bytes :: "nat \<Rightarrow> 'a::len word \<Rightarrow> u8 list" where
  "le_bytes n w = map (\<lambda>i. ucast (drop_bit (8 * i) w)) [0..<n]"

fun le_word :: "u8 list \<Rightarrow> 'a::len word" where
  "le_word [] = 0"
| "le_word (b # bs) = ucast b OR push_bit 8 (le_word bs)"

definition le32 :: "u32 \<Rightarrow> u8 list" where
  "le32 w = le_bytes 4 w"

definition le64 :: "u64 \<Rightarrow> u8 list" where
  "le64 w = le_bytes 8 w"

lemma length_le_bytes [simp]: "length (le_bytes n w) = n"
  by (simp add: le_bytes_def)

lemma length_le32 [simp]: "length (le32 w) = 4"
  by (simp add: le32_def)

lemma length_le64 [simp]: "length (le64 w) = 8"
  by (simp add: le64_def)

lemma bit_le_word:
  "bit (le_word bs :: 'a::len word) k \<longleftrightarrow>
     k < LENGTH('a) \<and> k div 8 < length bs \<and> bit (bs ! (k div 8)) (k mod 8)"
proof (induction bs arbitrary: k)
  case Nil
  then show ?case by simp
next
  case (Cons b bs)
  show ?case
  proof (cases "k < 8")
    case True
    then show ?thesis
      by (auto simp: bit_or_iff bit_ucast_iff bit_push_bit_iff)
  next
    case False
    moreover have "\<not> bit b k" using False by (auto dest: bit_imp_le_length)
    moreover have "k div 8 = Suc ((k - 8) div 8)" and "(k - 8) mod 8 = k mod 8"
      using False by (simp_all add: le_div_geq le_mod_geq)
    ultimately show ?thesis
      by (auto simp: bit_or_iff bit_ucast_iff bit_push_bit_iff Cons.IH)
  qed
qed

lemma bit_le_bytes_nth:
  "i < n \<Longrightarrow> bit (le_bytes n (w :: 'a::len word) ! i) k \<longleftrightarrow> k < 8 \<and> bit w (8 * i + k)"
  by (auto simp: le_bytes_def bit_ucast_iff bit_drop_bit_eq dest: bit_imp_le_length)

lemma le_word_le_bytes:
  "LENGTH('a::len) \<le> 8 * n \<Longrightarrow> le_word (le_bytes n (w :: 'a word)) = w"
  by (rule bit_word_eqI) (auto simp: bit_le_word bit_le_bytes_nth)

lemma le_bytes_le_word:
  assumes "length bs = n" and "8 * n \<le> LENGTH('a::len)"
  shows "le_bytes n (le_word bs :: 'a word) = bs"
proof (rule nth_equalityI)
  show "length (le_bytes n (le_word bs :: 'a word)) = length bs" using assms by simp
  fix i assume "i < length (le_bytes n (le_word bs :: 'a word))"
  then have i: "i < n" by simp
  show "le_bytes n (le_word bs :: 'a word) ! i = bs ! i"
    using i assms by (intro bit_word_eqI) (auto simp: bit_le_bytes_nth bit_le_word)
qed

lemma le_word_le32 [simp]: "le_word (le32 w) = w"
  by (simp add: le32_def le_word_le_bytes)

lemma le_word_le64 [simp]: "le_word (le64 w) = w"
  by (simp add: le64_def le_word_le_bytes)

section \<open>Structures laid out in memory\<close>

text \<open>
  The interface of a C structure that is copied as raw bytes: \<open>enc\<close> is its image in
  memory, \<open>dec\<close> reads it back, \<open>wf\<close> says that the arrays in it have their declared
  lengths and \<open>width\<close> is its \<open>sizeof\<close>. What a client needs of an array of such structures
  follows once for all of them.
\<close>

locale byte_codec =
  fixes enc :: "'a \<Rightarrow> u8 list"
    and dec :: "u8 list \<Rightarrow> 'a"
    and wf :: "'a \<Rightarrow> bool"
    and width :: nat
  assumes length_enc: "wf x \<Longrightarrow> length (enc x) = width"
    and dec_enc: "wf x \<Longrightarrow> dec (enc x) = x"
begin

lemma length_concat_enc:
  "\<forall>x \<in> set xs. wf x \<Longrightarrow> length (concat (map enc xs)) = length xs * width"
  by (induction xs) (auto simp: length_enc)

lemma slice_concat_enc:
  assumes "\<forall>x \<in> set xs. wf x" and "i < length xs"
  shows "take width (drop (i * width) (concat (map enc xs))) = enc (xs ! i)"
  using assms
proof (induction xs arbitrary: i)
  case (Cons x xs)
  then show ?case
    by (cases i) (auto simp: length_enc)
qed simp

lemma dec_slice_concat_enc:
  assumes "\<forall>x \<in> set xs. wf x" and "i < length xs"
  shows "dec (take width (drop (i * width) (concat (map enc xs)))) = xs ! i"
  using assms by (simp add: slice_concat_enc dec_enc)

lemma dec_array:
  assumes "\<forall>x \<in> set xs. wf x" and "n = length xs"
  shows "map (\<lambda>i. dec (take width (drop (i * width) (concat (map enc xs))))) [0..<n] = xs"
  using assms by (intro nth_equalityI) (auto simp: dec_slice_concat_enc)

lemma enc_inject: "wf x \<Longrightarrow> wf y \<Longrightarrow> enc x = enc y \<longleftrightarrow> x = y"
  by (metis dec_enc)

end

text \<open>Little-endian words are such structures.\<close>

interpretation codec32: byte_codec le32 le_word "\<lambda>_. True" 4
  by unfold_locales simp_all

interpretation codec64: byte_codec le64 le_word "\<lambda>_. True" 8
  by unfold_locales simp_all

section \<open>Byte ranges of the address space\<close>

text \<open>The addresses \<open>a, a + 1, \<dots>, a + n - 1\<close>, as the 64-bit address space wraps.\<close>

definition range64 :: "u64 \<Rightarrow> nat \<Rightarrow> u64 set" where
  "range64 a n = (\<lambda>i. a + of_nat i) ` {..<n}"

lemma unat_of_nat64: "i < 2 ^ 64 \<Longrightarrow> unat (of_nat i :: u64) = i"
  by (simp add: unsigned_of_nat take_bit_nat_eq_self)

lemma of_nat64_inject:
  "i < 2 ^ 64 \<Longrightarrow> j < 2 ^ 64 \<Longrightarrow> (of_nat i :: u64) = of_nat j \<longleftrightarrow> i = j"
  by (metis unat_of_nat64)

lemma range64_empty [simp]: "range64 a 0 = {}"
  by (simp add: range64_def)

lemma in_range64: "n \<le> 2 ^ 64 \<Longrightarrow> x \<in> range64 a n \<longleftrightarrow> unat (x - a) < n"
proof
  assume n: "n \<le> 2 ^ 64" and "x \<in> range64 a n"
  then obtain i where "i < n" "x = a + of_nat i" by (auto simp: range64_def)
  with n show "unat (x - a) < n" by (simp add: unat_of_nat64)
next
  assume "unat (x - a) < n"
  then show "x \<in> range64 a n"
    by (auto simp: range64_def image_iff intro!: bexI[of _ "unat (x - a)"])
qed

lemma range64_offsets_disjoint:
  assumes "o1 + n1 \<le> o2" and "o2 + n2 \<le> 2 ^ 64"
  shows "range64 (base + of_nat o1) n1 \<inter> range64 (base + of_nat o2) n2 = {}"
proof -
  have "(of_nat (o1 + i) :: u64) \<noteq> of_nat (o2 + j)" if "i < n1" "j < n2" for i j
    using assms that by (subst of_nat64_inject) auto
  then show ?thesis
    by (fastforce simp: range64_def add.assoc of_nat_add[symmetric] simp del: of_nat_add)
qed

lemma range64_sub:
  assumes "off + n \<le> m"
  shows "range64 (base + of_nat off) n \<subseteq> range64 base m"
proof
  fix x assume "x \<in> range64 (base + of_nat off) n"
  then obtain i where "i < n" "x = base + of_nat (off + i)" by (auto simp: range64_def add.assoc)
  with assms show "x \<in> range64 base m"
    unfolding range64_def by (intro image_eqI[of _ _ "off + i"]) auto
qed

end
