(* ===== verification/Runtime.thy ===== *)
theory Runtime
  imports Prelude
begin

text \<open>
  The data that a probe consists of (\<^verbatim>\<open>include/probe_types.h\<close>, \<^verbatim>\<open>include/event.h\<close>,
  \<^verbatim>\<open>include/runtime.h\<close>) and \<^verbatim>\<open>runtime/\<close>: the block of remote memory that a probe owns,
  its layout and the initial contents of its data areas. Fields keep the C names behind
  a prefix for their structure (\<open>d_\<close> descriptor, \<open>ev_\<close> event, \<open>cfg_\<close> configuration,
  \<open>l_\<close> layout), because several structures use the same ones.
\<close>

section \<open>Constants\<close>

definition LP_MAX_PROBES :: nat where "LP_MAX_PROBES = 16"
definition LP_MAX_NAME :: nat where "LP_MAX_NAME = 128"
definition LP_MAX_ORIGINAL_CODE :: nat where "LP_MAX_ORIGINAL_CODE = 32"
definition LP_EVENT_BUFFER_CAPACITY :: nat where "LP_EVENT_BUFFER_CAPACITY = 4096"
definition LP_SHADOW_STACK_DEPTH :: nat where "LP_SHADOW_STACK_DEPTH = 64"
definition LP_SHADOW_STACK_THREADS :: nat where "LP_SHADOW_STACK_THREADS = 256"
definition LP_REMOTE_STUB_SIZE :: nat where "LP_REMOTE_STUB_SIZE = 4096"
definition LP_TRAMPOLINE_SIZE :: nat where "LP_TRAMPOLINE_SIZE = 128"
definition LP_REMOTE_RUNTIME_ALIGN :: u64 where "LP_REMOTE_RUNTIME_ALIGN = 16"

lemmas lp_sizes = LP_MAX_PROBES_def LP_MAX_NAME_def LP_MAX_ORIGINAL_CODE_def
  LP_EVENT_BUFFER_CAPACITY_def LP_SHADOW_STACK_DEPTH_def LP_SHADOW_STACK_THREADS_def
  LP_REMOTE_STUB_SIZE_def LP_TRAMPOLINE_SIZE_def LP_REMOTE_RUNTIME_ALIGN_def

definition PROBE_EVENT_ENTRY :: u32 where "PROBE_EVENT_ENTRY = 1"
definition PROBE_EVENT_RETURN :: u32 where "PROBE_EVENT_RETURN = 2"

section \<open>Descriptors and events\<close>

record probe_desc =
  d_probe_id :: c_int
  d_pid :: pid_t
  d_target_addr :: u64
  d_trampoline_addr :: u64
  d_entry_stub_addr :: u64
  d_ret_stub_addr :: u64
  d_config_addr :: u64
  d_event_buffer_addr :: u64
  d_shadow_stack_addr :: u64
  d_runtime_base_addr :: u64
  d_runtime_size :: u64
  d_original_code :: "u8 list"
  d_original_len :: c_int
  d_enabled :: c_int
  d_has_retprobe :: c_int
  d_lib_name :: "u8 list"
  d_func_name :: "u8 list"

text \<open>The arrays of a descriptor have their declared lengths.\<close>

definition wf_desc :: "probe_desc \<Rightarrow> bool" where
  "wf_desc d \<longleftrightarrow>
     length (d_original_code d) = LP_MAX_ORIGINAL_CODE \<and>
     length (d_lib_name d) = LP_MAX_NAME \<and> length (d_func_name d) = LP_MAX_NAME"

text \<open>\<open>memset(desc, 0, sizeof(*desc))\<close>.\<close>

definition zero_desc :: probe_desc where
  "zero_desc =
     \<lparr> d_probe_id = 0, d_pid = 0, d_target_addr = 0, d_trampoline_addr = 0,
       d_entry_stub_addr = 0, d_ret_stub_addr = 0, d_config_addr = 0,
       d_event_buffer_addr = 0, d_shadow_stack_addr = 0, d_runtime_base_addr = 0,
       d_runtime_size = 0, d_original_code = replicate LP_MAX_ORIGINAL_CODE 0,
       d_original_len = 0, d_enabled = 0, d_has_retprobe = 0,
       d_lib_name = replicate LP_MAX_NAME 0, d_func_name = replicate LP_MAX_NAME 0 \<rparr>"

lemma wf_zero_desc [simp]: "wf_desc zero_desc"
  by (simp add: wf_desc_def zero_desc_def)

record probe_event =
  ev_timestamp_ns :: u64
  ev_pid :: u32
  ev_tid :: u32
  ev_probe_id :: u32
  ev_event_type :: u32
  ev_args :: "u64 list"
  ev_retval :: u64
  ev_duration_ns :: u64

definition wf_event :: "probe_event \<Rightarrow> bool" where
  "wf_event e \<longleftrightarrow> length (ev_args e) = 6"

definition sizeof_probe_event :: nat where "sizeof_probe_event = 88"

definition enc_event :: "probe_event \<Rightarrow> u8 list" where
  "enc_event e =
     le64 (ev_timestamp_ns e) @ le32 (ev_pid e) @ le32 (ev_tid e) @ le32 (ev_probe_id e) @
     le32 (ev_event_type e) @ concat (map le64 (ev_args e)) @ le64 (ev_retval e) @
     le64 (ev_duration_ns e)"

definition dec_event :: "u8 list \<Rightarrow> probe_event" where
  "dec_event bs =
     \<lparr> ev_timestamp_ns = le_word (take 8 bs), ev_pid = le_word (take 4 (drop 8 bs)),
       ev_tid = le_word (take 4 (drop 12 bs)), ev_probe_id = le_word (take 4 (drop 16 bs)),
       ev_event_type = le_word (take 4 (drop 20 bs)),
       ev_args = map (\<lambda>i. le_word (take 8 (drop (i * 8) (take 48 (drop 24 bs))))) [0..<6],
       ev_retval = le_word (take 8 (drop 72 bs)),
       ev_duration_ns = le_word (take 8 (drop 80 bs)) \<rparr>"

interpretation event_codec: byte_codec enc_event dec_event wf_event sizeof_probe_event
proof
  fix e :: probe_event assume wf: "wf_event e"
  then have len: "length (concat (map le64 (ev_args e))) = 48"
    by (simp add: codec64.length_concat_enc wf_event_def)
  then show "length (enc_event e) = sizeof_probe_event"
    by (simp add: enc_event_def sizeof_probe_event_def)
  have "map (\<lambda>i. le_word (take 8 (drop (i * 8) (concat (map le64 (ev_args e)))))) [0..<6] = ev_args e"
    using wf by (intro codec64.dec_array) (auto simp: wf_event_def)
  with len show "dec_event (enc_event e) = e"
    by (simp add: dec_event_def enc_event_def)
qed

text \<open>\<open>lp_x86_64_collect_args\<close>: the six argument registers of a register snapshot.\<close>

record lp_x86_64_regs_snapshot =
  snap_r15 :: u64
  snap_r14 :: u64
  snap_r13 :: u64
  snap_r12 :: u64
  snap_r11 :: u64
  snap_r10 :: u64
  snap_r9 :: u64
  snap_r8 :: u64
  snap_rdi :: u64
  snap_rsi :: u64
  snap_rbp :: u64
  snap_rbx :: u64
  snap_rdx :: u64
  snap_rax :: u64
  snap_rcx :: u64
  snap_rsp :: u64
  snap_rflags :: u64

definition lp_x86_64_collect_args :: "lp_x86_64_regs_snapshot \<Rightarrow> u64 list" where
  "lp_x86_64_collect_args regs =
     [snap_rdi regs, snap_rsi regs, snap_rdx regs, snap_rcx regs, snap_r8 regs, snap_r9 regs]"

section \<open>The data areas of the remote runtime\<close>

record lp_runtime_config =
  cfg_enabled :: u32
  cfg_probe_id :: u32
  cfg_event_buffer_addr :: u64
  cfg_shadow_stack_addr :: u64

definition sizeof_lp_runtime_config :: nat where "sizeof_lp_runtime_config = 24"

definition enc_config :: "lp_runtime_config \<Rightarrow> u8 list" where
  "enc_config c = le32 (cfg_enabled c) @ le32 (cfg_probe_id c) @
                  le64 (cfg_event_buffer_addr c) @ le64 (cfg_shadow_stack_addr c)"

definition dec_config :: "u8 list \<Rightarrow> lp_runtime_config" where
  "dec_config bs =
     \<lparr> cfg_enabled = le_word (take 4 bs), cfg_probe_id = le_word (take 4 (drop 4 bs)),
       cfg_event_buffer_addr = le_word (take 8 (drop 8 bs)),
       cfg_shadow_stack_addr = le_word (take 8 (drop 16 bs)) \<rparr>"

interpretation config_codec: byte_codec enc_config dec_config "\<lambda>_. True" sizeof_lp_runtime_config
  by unfold_locales (simp_all add: enc_config_def dec_config_def sizeof_lp_runtime_config_def)

definition lp_runtime_config_init :: "probe_desc \<Rightarrow> lp_runtime_config" where
  "lp_runtime_config_init desc =
     \<lparr> cfg_enabled = (if d_enabled desc \<noteq> 0 then 1 else 0),
       cfg_probe_id = d_probe_id desc,
       cfg_event_buffer_addr = d_event_buffer_addr desc,
       cfg_shadow_stack_addr = d_shadow_stack_addr desc \<rparr>"

definition lp_runtime_config_set_enabled :: "lp_runtime_config \<Rightarrow> c_int \<Rightarrow> lp_runtime_config" where
  "lp_runtime_config_set_enabled config enabled =
     config\<lparr>cfg_enabled := (if enabled \<noteq> 0 then 1 else 0)\<rparr>"

text \<open>\<open>enabled\<close> is the first member: its offset is 0.\<close>

definition offsetof_config_enabled :: u64 where "offsetof_config_enabled = 0"

definition lp_runtime_config_enabled_addr :: "probe_desc \<Rightarrow> u64" where
  "lp_runtime_config_enabled_addr desc = d_config_addr desc + offsetof_config_enabled"

record lp_event_buffer =
  eb_write_index :: u64
  eb_capacity :: u64
  eb_events :: "probe_event list"

definition wf_event_buffer :: "lp_event_buffer \<Rightarrow> bool" where
  "wf_event_buffer b \<longleftrightarrow>
     length (eb_events b) = LP_EVENT_BUFFER_CAPACITY \<and> (\<forall>e \<in> set (eb_events b). wf_event e)"

definition offsetof_events :: nat where "offsetof_events = 16"
definition sizeof_lp_event_buffer :: nat where "sizeof_lp_event_buffer = 360464"

definition enc_event_buffer :: "lp_event_buffer \<Rightarrow> u8 list" where
  "enc_event_buffer b =
     le64 (eb_write_index b) @ le64 (eb_capacity b) @ concat (map enc_event (eb_events b))"

definition zero_event :: probe_event where
  "zero_event =
     \<lparr> ev_timestamp_ns = 0, ev_pid = 0, ev_tid = 0, ev_probe_id = 0, ev_event_type = 0,
       ev_args = replicate 6 0, ev_retval = 0, ev_duration_ns = 0 \<rparr>"

definition lp_event_buffer_init :: lp_event_buffer where
  "lp_event_buffer_init =
     \<lparr> eb_write_index = 0, eb_capacity = of_nat LP_EVENT_BUFFER_CAPACITY,
       eb_events = replicate LP_EVENT_BUFFER_CAPACITY zero_event \<rparr>"

record lp_shadow_stack_entry =
  ss_tid :: u32
  ss_depth :: u32
  ss_return_addrs :: "u64 list"
  ss_entry_timestamps :: "u64 list"

type_synonym lp_shadow_stack = "lp_shadow_stack_entry list"

definition wf_shadow_entry :: "lp_shadow_stack_entry \<Rightarrow> bool" where
  "wf_shadow_entry e \<longleftrightarrow>
     length (ss_return_addrs e) = LP_SHADOW_STACK_DEPTH \<and>
     length (ss_entry_timestamps e) = LP_SHADOW_STACK_DEPTH"

definition sizeof_lp_shadow_stack_entry :: nat where "sizeof_lp_shadow_stack_entry = 1032"
definition sizeof_lp_shadow_stack :: nat where "sizeof_lp_shadow_stack = 264192"

definition enc_shadow_entry :: "lp_shadow_stack_entry \<Rightarrow> u8 list" where
  "enc_shadow_entry e =
     le32 (ss_tid e) @ le32 (ss_depth e) @ concat (map le64 (ss_return_addrs e)) @
     concat (map le64 (ss_entry_timestamps e))"

definition enc_shadow_stack :: "lp_shadow_stack \<Rightarrow> u8 list" where
  "enc_shadow_stack s = concat (map enc_shadow_entry s)"

definition lp_shadow_stack_init :: lp_shadow_stack where
  "lp_shadow_stack_init =
     replicate LP_SHADOW_STACK_THREADS
       \<lparr> ss_tid = 0, ss_depth = 0, ss_return_addrs = replicate LP_SHADOW_STACK_DEPTH 0,
         ss_entry_timestamps = replicate LP_SHADOW_STACK_DEPTH 0 \<rparr>"

lemma le64_zero: "le64 0 = replicate 8 0"
  by (simp add: le64_def le_bytes_def eval_nat_numeral)

lemma le32_zero: "le32 0 = replicate 4 0"
  by (simp add: le32_def le_bytes_def eval_nat_numeral)

lemma concat_replicate_replicate:
  "concat (replicate n (replicate m x)) = replicate (n * m) x"
  by (induction n) (simp_all add: replicate_add)

lemma enc_event_buffer_init:
  "enc_event_buffer lp_event_buffer_init = le64 0 @ le64 4096 @ replicate (4096 * 88) 0"
proof -
  have "enc_event zero_event = replicate 88 0"
    by (simp add: enc_event_def zero_event_def le64_zero le32_zero concat_replicate_replicate
                  replicate_add[symmetric])
  then show ?thesis
    by (simp add: enc_event_buffer_def lp_event_buffer_init_def concat_replicate_replicate lp_sizes)
qed

lemma enc_shadow_stack_init:
  "enc_shadow_stack lp_shadow_stack_init = replicate sizeof_lp_shadow_stack 0"
  by (simp add: enc_shadow_stack_def lp_shadow_stack_init_def enc_shadow_entry_def le64_zero
                le32_zero concat_replicate_replicate sizeof_lp_shadow_stack_def lp_sizes
                replicate_add[symmetric])

section \<open>The layout\<close>

record lp_remote_runtime_layout =
  l_base :: u64
  l_size :: u64
  l_config_addr :: u64
  l_event_buffer_addr :: u64
  l_shadow_stack_addr :: u64
  l_trampoline_addr :: u64
  l_entry_stub_addr :: u64
  l_ret_stub_addr :: u64
  l_config_offset :: u64
  l_event_buffer_offset :: u64
  l_shadow_stack_offset :: u64
  l_trampoline_offset :: u64
  l_entry_stub_offset :: u64
  l_ret_stub_offset :: u64

definition align_up_u64 :: "u64 \<Rightarrow> u64 \<Rightarrow> u64" where
  "align_up_u64 value align = (value + align - 1) AND NOT (align - 1)"

text \<open>The argument is the structure behind the pointer, \<open>None\<close> when the pointer is null.\<close>

definition lp_remote_runtime_layout_init ::
    "lp_remote_runtime_layout option \<Rightarrow> u64 \<Rightarrow> errno + lp_remote_runtime_layout" where
  "lp_remote_runtime_layout_init layout base =
     (case layout of
        None \<Rightarrow> Inl EINVAL
      | Some _ \<Rightarrow>
          let config_offset = 0;
              offset1 = align_up_u64 (config_offset + of_nat sizeof_lp_runtime_config)
                          LP_REMOTE_RUNTIME_ALIGN;
              event_buffer_offset = offset1;
              offset2 = align_up_u64 (offset1 + of_nat sizeof_lp_event_buffer)
                          LP_REMOTE_RUNTIME_ALIGN;
              shadow_stack_offset = offset2;
              offset3 = align_up_u64 (offset2 + of_nat sizeof_lp_shadow_stack)
                          LP_REMOTE_RUNTIME_ALIGN;
              trampoline_offset = offset3;
              offset4 = align_up_u64 (offset3 + of_nat LP_TRAMPOLINE_SIZE)
                          LP_REMOTE_RUNTIME_ALIGN;
              entry_stub_offset = offset4;
              offset5 = align_up_u64 (offset4 + of_nat LP_REMOTE_STUB_SIZE)
                          LP_REMOTE_RUNTIME_ALIGN;
              ret_stub_offset = offset5;
              offset6 = align_up_u64 (offset5 + of_nat LP_REMOTE_STUB_SIZE)
                          LP_REMOTE_RUNTIME_ALIGN
          in Inr \<lparr> l_base = base, l_size = offset6,
                   l_config_addr = base + config_offset,
                   l_event_buffer_addr = base + event_buffer_offset,
                   l_shadow_stack_addr = base + shadow_stack_offset,
                   l_trampoline_addr = base + trampoline_offset,
                   l_entry_stub_addr = base + entry_stub_offset,
                   l_ret_stub_addr = base + ret_stub_offset,
                   l_config_offset = config_offset,
                   l_event_buffer_offset = event_buffer_offset,
                   l_shadow_stack_offset = shadow_stack_offset,
                   l_trampoline_offset = trampoline_offset,
                   l_entry_stub_offset = entry_stub_offset,
                   l_ret_stub_offset = ret_stub_offset \<rparr>)"

definition lp_probe_desc_set_runtime_layout ::
    "probe_desc \<Rightarrow> lp_remote_runtime_layout \<Rightarrow> probe_desc" where
  "lp_probe_desc_set_runtime_layout desc layout =
     desc\<lparr> d_runtime_base_addr := l_base layout, d_runtime_size := l_size layout,
           d_config_addr := l_config_addr layout,
           d_event_buffer_addr := l_event_buffer_addr layout,
           d_shadow_stack_addr := l_shadow_stack_addr layout,
           d_trampoline_addr := l_trampoline_addr layout,
           d_entry_stub_addr := l_entry_stub_addr layout,
           d_ret_stub_addr := l_ret_stub_addr layout \<rparr>"

lemma layout_init_eq:
  "lp_remote_runtime_layout_init (Some l0) base =
     Inr \<lparr> l_base = base, l_size = 633008,
           l_config_addr = base, l_event_buffer_addr = base + 32,
           l_shadow_stack_addr = base + 360496, l_trampoline_addr = base + 624688,
           l_entry_stub_addr = base + 624816, l_ret_stub_addr = base + 628912,
           l_config_offset = 0, l_event_buffer_offset = 32, l_shadow_stack_offset = 360496,
           l_trampoline_offset = 624688, l_entry_stub_offset = 624816,
           l_ret_stub_offset = 628912 \<rparr>"
  by (simp add: lp_remote_runtime_layout_init_def align_up_u64_def lp_sizes
                sizeof_lp_runtime_config_def sizeof_lp_event_buffer_def
                sizeof_lp_shadow_stack_def)

text \<open>The six areas of a layout, each with the number of bytes that attach may write to it.\<close>

definition layout_areas :: "lp_remote_runtime_layout \<Rightarrow> (u64 \<times> nat) list" where
  "layout_areas l =
     [(l_config_addr l, sizeof_lp_runtime_config),
      (l_event_buffer_addr l, sizeof_lp_event_buffer),
      (l_shadow_stack_addr l, sizeof_lp_shadow_stack),
      (l_trampoline_addr l, LP_TRAMPOLINE_SIZE),
      (l_entry_stub_addr l, LP_REMOTE_STUB_SIZE),
      (l_ret_stub_addr l, LP_REMOTE_STUB_SIZE)]"

lemma add_aligned16:
  fixes base c :: u64
  assumes "c mod 16 = 0"
  shows "(base + c) mod 16 = base mod 16"
proof -
  have c: "unat c mod 16 = 0" using assms unat_mod[of c 16] by simp
  have "unat (base + c) = (unat base + unat c) mod 2 ^ 64"
    by (simp add: unat_word_ariths)
  then have "unat (base + c) mod 16 = (unat base + unat c) mod 2 ^ 64 mod 16" by (rule arg_cong)
  also have "\<dots> = (unat base + unat c) mod 16" by (rule mod_mod_cancel) simp
  also have "\<dots> = unat base mod 16" using c by (metis add.right_neutral mod_add_right_eq)
  finally have "unat ((base + c) mod 16) = unat (base mod 16)"
    unfolding unat_mod by simp
  then show ?thesis by (simp only: unsigned_word_eqI)
qed

lemma layout_areas_offsets:
  assumes "lp_remote_runtime_layout_init (Some l0) base = Inr l"
  shows "layout_areas l =
     [(base + of_nat 0, 24), (base + of_nat 32, 360464), (base + of_nat 360496, 264192),
      (base + of_nat 624688, 128), (base + of_nat 624816, 4096), (base + of_nat 628912, 4096)]"
  using assms
  by (auto simp: layout_init_eq layout_areas_def lp_sizes sizeof_lp_runtime_config_def
                 sizeof_lp_event_buffer_def sizeof_lp_shadow_stack_def)

lemma layout_areas_ok:
  "\<exists>l. lp_remote_runtime_layout_init (Some l0) base = Inr l \<and>
       sorted_wrt (\<lambda>(a, n) (b, m). range64 a n \<inter> range64 b m = {}) (layout_areas l) \<and>
       list_all (\<lambda>(a, n). range64 a n \<subseteq> range64 base (unat (l_size l))) (layout_areas l) \<and>
       list_all (\<lambda>(a, n). a mod 16 = base mod 16) (layout_areas l)"
proof -
  obtain l where l: "lp_remote_runtime_layout_init (Some l0) base = Inr l"
    by (simp add: layout_init_eq)
  then have size: "unat (l_size l) = 633008"
    by (auto simp: layout_init_eq)
  have "sorted_wrt (\<lambda>(a, n) (b, m). range64 a n \<inter> range64 b m = {}) (layout_areas l)"
    unfolding layout_areas_offsets[OF l]
    by (simp only: sorted_wrt.simps list.set ball_simps prod.case simp_thms)
       (intro conjI range64_offsets_disjoint; simp)
  moreover have "list_all (\<lambda>(a, n). range64 a n \<subseteq> range64 base (unat (l_size l))) (layout_areas l)"
    unfolding layout_areas_offsets[OF l] size
    by (simp only: list.pred_inject prod.case simp_thms) (intro conjI range64_sub; simp)
  moreover have "list_all (\<lambda>(a, n). a mod 16 = base mod 16) (layout_areas l)"
    unfolding layout_areas_offsets[OF l]
    by (simp only: list.pred_inject prod.case simp_thms)
       (intro conjI add_aligned16; simp)
  ultimately show ?thesis using l by blast
qed

text \<open>
  C19: the layout computed by \<open>lp_remote_runtime_layout_init\<close> places its six areas without
  overlap, inside the mapping of \<open>size\<close> bytes at \<open>base\<close>, and with the alignment of \<open>base\<close>,
  for every base address (sums wrap around as the C code's do).
\<close>

theorem layout_areas_disjoint:
  "\<exists>l. lp_remote_runtime_layout_init (Some l0) base = Inr l \<and>
       sorted_wrt (\<lambda>(a, n) (b, m). range64 a n \<inter> range64 b m = {}) (layout_areas l) \<and>
       list_all (\<lambda>(a, n). range64 a n \<subseteq> range64 base (unat (l_size l))) (layout_areas l) \<and>
       list_all (\<lambda>(a, n). a mod 16 = base mod 16) (layout_areas l)"
  by (rule layout_areas_ok)

lemma length_enc_event_buffer:
  "wf_event_buffer b \<Longrightarrow> length (enc_event_buffer b) = sizeof_lp_event_buffer"
  by (simp add: enc_event_buffer_def wf_event_buffer_def event_codec.length_concat_enc
                sizeof_probe_event_def sizeof_lp_event_buffer_def lp_sizes)

text \<open>
  The image of an event buffer in memory has the event of slot \<open>i\<close> at byte
  \<open>offsetof(events) + i * sizeof(struct probe_event)\<close>: reading that many bytes there and
  decoding them gives the event.
\<close>

theorem event_buffer_slot:
  assumes "wf_event_buffer b" and "i < LP_EVENT_BUFFER_CAPACITY"
  shows "dec_event (take sizeof_probe_event
           (drop (offsetof_events + i * sizeof_probe_event) (enc_event_buffer b))) =
         eb_events b ! i"
  using assms
  by (simp add: enc_event_buffer_def offsetof_events_def wf_event_buffer_def
                event_codec.dec_slice_concat_enc)

lemma event_buffer_slot_witness:
  "dec_event (take sizeof_probe_event
     (drop (offsetof_events + 5 * sizeof_probe_event) (enc_event_buffer lp_event_buffer_init))) =
   zero_event"
  by (subst event_buffer_slot)
     (simp_all add: lp_event_buffer_init_def wf_event_buffer_def zero_event_def wf_event_def lp_sizes)

end
