(* ===== verification/Insn_Length.thy ===== *)
theory Insn_Length
  imports Runtime
begin

text \<open>
  \<^verbatim>\<open>injector/instruction_x86_64.c\<close>: the length decoder for x86-64 instructions and the
  patch-length computation that decides how many bytes of a function entry are displaced.
  A byte buffer with its size is one list; \<open>None\<close> is a null pointer.
\<close>

section \<open>The decoder\<close>

definition has_modrm_one_byte :: "u8 \<Rightarrow> bool" where
  "has_modrm_one_byte opcode \<longleftrightarrow>
     opcode \<le> 0x03 \<or>
     (0x08 \<le> opcode \<and> opcode \<le> 0x0B) \<or>
     (0x10 \<le> opcode \<and> opcode \<le> 0x13) \<or>
     (0x18 \<le> opcode \<and> opcode \<le> 0x1B) \<or>
     (0x20 \<le> opcode \<and> opcode \<le> 0x23) \<or>
     (0x28 \<le> opcode \<and> opcode \<le> 0x2B) \<or>
     (0x30 \<le> opcode \<and> opcode \<le> 0x33) \<or>
     (0x38 \<le> opcode \<and> opcode \<le> 0x3B) \<or>
     (0x62 \<le> opcode \<and> opcode \<le> 0x63) \<or>
     opcode = 0x69 \<or> opcode = 0x6B \<or>
     (0x80 \<le> opcode \<and> opcode \<le> 0x8F) \<or>
     (0xC0 \<le> opcode \<and> opcode \<le> 0xC1) \<or>
     (0xC4 \<le> opcode \<and> opcode \<le> 0xC7) \<or>
     (0xD0 \<le> opcode \<and> opcode \<le> 0xD3) \<or>
     (0xF6 \<le> opcode \<and> opcode \<le> 0xF7) \<or>
     0xFE \<le> opcode"

definition has_modrm_two_byte :: "u8 \<Rightarrow> bool" where
  "has_modrm_two_byte opcode \<longleftrightarrow>
     (0x10 \<le> opcode \<and> opcode \<le> 0x1F) \<or>
     (0x28 \<le> opcode \<and> opcode \<le> 0x2F) \<or>
     (0x40 \<le> opcode \<and> opcode \<le> 0x4F) \<or>
     (0x90 \<le> opcode \<and> opcode \<le> 0x9F) \<or>
     (0xA3 \<le> opcode \<and> opcode \<le> 0xA5) \<or>
     (0xAB \<le> opcode \<and> opcode \<le> 0xAF) \<or>
     (0xB0 \<le> opcode \<and> opcode \<le> 0xB7) \<or>
     (0xBA \<le> opcode \<and> opcode \<le> 0xBF)"

definition imm_len_one_byte :: "u8 \<Rightarrow> bool \<Rightarrow> u8 \<Rightarrow> nat" where
  "imm_len_one_byte opcode rex_w modrm_reg =
     (if (0x70 \<le> opcode \<and> opcode \<le> 0x7F) \<or> opcode = 0xEB then 1
      else if opcode = 0xE8 \<or> opcode = 0xE9 \<or> (0xA0 \<le> opcode \<and> opcode \<le> 0xA3) then 4
      else if opcode = 0xC2 \<or> opcode = 0xCA then 2
      else if opcode = 0xC8 then 3
      else if opcode = 0xCD \<or> opcode = 0x6A then 1
      else if opcode = 0x68 then 4
      else if 0xB8 \<le> opcode \<and> opcode \<le> 0xBF then (if rex_w then 8 else 4)
      else if opcode = 0xC6 then 1
      else if opcode = 0xC7 then 4
      else if opcode = 0x80 \<or> opcode = 0x82 \<or> opcode = 0x83 \<or>
              opcode = 0xC0 \<or> opcode = 0xC1 \<or> opcode = 0x6B then 1
      else if opcode = 0x81 \<or> opcode = 0x69 then 4
      else if (opcode = 0xF6 \<and> modrm_reg = 0) \<or> (opcode = 0xF7 \<and> modrm_reg = 0)
           then (if opcode = 0xF6 then 1 else 4)
      else 0)"

definition imm_len_two_byte :: "u8 \<Rightarrow> nat" where
  "imm_len_two_byte opcode =
     (if 0x80 \<le> opcode \<and> opcode \<le> 0x8F then 4
      else if opcode = 0xBA then 1
      else 0)"

text \<open>
  The ModRM byte at \<open>offset\<close>, with the SIB byte and displacement it announces: the offset
  after them and the ModRM byte.
\<close>

definition read_modrm_len :: "u8 list \<Rightarrow> nat \<Rightarrow> errno + (nat \<times> u8)" where
  "read_modrm_len code offset =
     (let max_len = length code in
      if max_len \<le> offset then Inl EINVAL
      else
        let modrm = code ! offset;
            offset1 = offset + 1;
            md = drop_bit 6 modrm;
            rm = modrm AND 0x07;
            after_sib =
              (if md \<noteq> 3 \<and> rm = 4 then
                 (if max_len \<le> offset1 then None
                  else let sib = code ! offset1; base = sib AND 0x07 in
                       Some (offset1 + 1 + (if md = 0 \<and> base = 5 then 4 else 0)))
               else Some offset1)
        in case after_sib of
             None \<Rightarrow> Inl EINVAL
           | Some offset2 \<Rightarrow>
               let offset3 = (if md = 0 \<and> rm = 5 then offset2 + 4
                              else if md = 1 then offset2 + 1
                              else if md = 2 then offset2 + 4
                              else offset2)
               in if max_len < offset3 then Inl EINVAL else Inr (offset3, modrm))"

text \<open>The prefix loop: legacy prefixes and REX bytes; the last REX byte decides \<open>rex_w\<close>.\<close>

definition is_legacy_prefix :: "u8 \<Rightarrow> bool" where
  "is_legacy_prefix b \<longleftrightarrow>
     b = 0x66 \<or> b = 0x67 \<or> b = 0xF0 \<or> b = 0xF2 \<or> b = 0xF3 \<or>
     b = 0x2E \<or> b = 0x36 \<or> b = 0x3E \<or> b = 0x26 \<or> b = 0x64 \<or> b = 0x65"

function skip_prefixes :: "u8 list \<Rightarrow> nat \<Rightarrow> bool \<Rightarrow> nat \<times> bool" where
  "skip_prefixes code off rex_w =
     (if off < length code then
        let b = code ! off in
        if is_legacy_prefix b then skip_prefixes code (off + 1) rex_w
        else if 0x40 \<le> b \<and> b \<le> 0x4F then skip_prefixes code (off + 1) (b AND 0x08 \<noteq> 0)
        else (off, rex_w)
      else (off, rex_w))"
  by pat_completeness auto
termination
  by (relation "measure (\<lambda>(code, off, rex_w). length code - off)") auto

declare skip_prefixes.simps [simp del]

text \<open>From the opcode on: ModRM and immediate, and the final bound checks.\<close>

definition insn_operands :: "u8 list \<Rightarrow> bool \<Rightarrow> bool \<Rightarrow> u8 \<Rightarrow> nat \<Rightarrow> errno + nat" where
  "insn_operands code rex_w two_byte opcode off =
     (let has_modrm = (if two_byte then has_modrm_two_byte opcode
                       else has_modrm_one_byte opcode)
      in case (if has_modrm then read_modrm_len code off else Inr (off, 0)) of
           Inl e \<Rightarrow> Inl e
         | Inr (off1, modrm) \<Rightarrow>
             let imm_len = (if two_byte then imm_len_two_byte opcode
                            else imm_len_one_byte opcode rex_w (drop_bit 3 modrm AND 0x07));
                 off2 = off1 + imm_len
             in if off2 = 0 \<or> length code < off2 \<or> 15 < off2 then Inl EINVAL
                else Inr off2)"

definition lp_x86_64_insn_len :: "u8 list option \<Rightarrow> errno + nat" where
  "lp_x86_64_insn_len code_ptr =
     (case code_ptr of
        None \<Rightarrow> Inl EINVAL
      | Some code \<Rightarrow>
          let max_len = length code in
          if max_len = 0 then Inl EINVAL
          else
            let (off, rex_w) = skip_prefixes code 0 False in
            if max_len \<le> off then Inl EINVAL
            else if code ! off = 0x0F then
              (if max_len \<le> off + 1 then Inl EINVAL
               else insn_operands code rex_w True (code ! (off + 1)) (off + 2))
            else insn_operands code rex_w False (code ! off) (off + 1))"

lemma skip_prefixes_ge: "skip_prefixes code off rex_w = (off', rex') \<Longrightarrow> off \<le> off'"
proof (induction code off rex_w rule: skip_prefixes.induct)
  case (1 code off rex_w)
  then show ?case
    by (subst (asm) skip_prefixes.simps) (auto simp: Let_def split: if_splits)
qed

lemma read_modrm_len_bounds:
  "read_modrm_len code off = Inr (off', m) \<Longrightarrow> off < off' \<and> off' \<le> length code"
  by (auto simp: read_modrm_len_def Let_def split: if_splits option.splits)

lemma insn_operands_bounds:
  assumes "insn_operands code rex_w two_byte opcode off = Inr n"
  shows "off \<le> n" and "0 < n" and "n \<le> 15" and "n \<le> length code"
  using assms
  by (auto simp: insn_operands_def Let_def
           dest!: read_modrm_len_bounds split: if_splits sum.splits prod.splits)

lemma insn_len_bounds:
  assumes "lp_x86_64_insn_len (Some code) = Inr n"
  shows "0 < n" and "n \<le> 15" and "n \<le> length code"
  using assms
  by (auto simp: lp_x86_64_insn_len_def Let_def
           dest: insn_operands_bounds split: if_splits prod.splits)

section \<open>The patch length\<close>

text \<open>
  The loop of \<open>lp_x86_64_calc_patch_len\<close>, from the running total \<open>tot\<close> on: whole instructions are taken
  until at least \<open>min_len\<close> bytes are covered.
\<close>

function calc_patch_loop :: "u8 list \<Rightarrow> nat \<Rightarrow> nat \<Rightarrow> errno + nat" where
  "calc_patch_loop code min_len tot =
     (if tot < min_len then
        if length code \<le> tot then Inl EINVAL
        else case lp_x86_64_insn_len (Some (drop tot code)) of
               Inl e \<Rightarrow> Inl e
             | Inr one_len \<Rightarrow>
                 if LP_MAX_ORIGINAL_CODE < tot + one_len then Inl EOVERFLOW
                 else calc_patch_loop code min_len (tot + one_len)
      else Inr tot)"
  by pat_completeness auto
termination
  by (relation "measure (\<lambda>(code, min_len, tot). min_len - tot)")
     (auto dest: insn_len_bounds(1))

declare calc_patch_loop.simps [simp del]

definition lp_x86_64_calc_patch_len :: "u8 list option \<Rightarrow> nat \<Rightarrow> errno + nat" where
  "lp_x86_64_calc_patch_len code_ptr min_len =
     (case code_ptr of
        None \<Rightarrow> Inl EINVAL
      | Some code \<Rightarrow> if min_len = 0 then Inl EINVAL else calc_patch_loop code min_len 0)"

section \<open>The decoder reads only the instruction\<close>

lemma skip_prefixes_local:
  assumes "skip_prefixes code off rex_w = (off', rex')"
    and "off' < length code" and "off' < length code'"
    and "\<forall>i \<le> off'. code' ! i = code ! i"
  shows "skip_prefixes code' off rex_w = (off', rex')"
  using assms
proof (induction code off rex_w rule: skip_prefixes.induct)
  case (1 code off rex_w)
  have "off \<le> off'" using "1.prems"(1) by (rule skip_prefixes_ge)
  with "1.prems" have b: "code' ! off = code ! off" "off < length code" "off < length code'"
    by auto
  show ?case
    using "1.prems" "1.IH" b
    by (subst skip_prefixes.simps, subst (asm) (5) skip_prefixes.simps)
       (auto simp: Let_def split: if_splits)
qed

lemma read_modrm_len_local:
  assumes "read_modrm_len code off = Inr (off', m)"
    and "off' \<le> length code'" and "\<forall>i < off'. code' ! i = code ! i"
  shows "read_modrm_len code' off = Inr (off', m)"
  using assms
  by (auto simp: read_modrm_len_def Let_def split: if_splits option.splits)

lemma insn_operands_local:
  assumes "insn_operands code rex_w two_byte opcode off = Inr n"
    and "n \<le> length code'" and "\<forall>i < n. code' ! i = code ! i"
  shows "insn_operands code' rex_w two_byte opcode off = Inr n"
proof (cases "if two_byte then has_modrm_two_byte opcode else has_modrm_one_byte opcode")
  case True
  with assms(1) obtain off1 m where rm: "read_modrm_len code off = Inr (off1, m)" "off1 \<le> n"
    by (auto simp: insn_operands_def Let_def split: if_splits sum.splits)
  then have "read_modrm_len code' off = Inr (off1, m)"
    using assms(2,3) by (intro read_modrm_len_local[OF rm(1)]) auto
  with assms True rm show ?thesis
    by (auto simp: insn_operands_def Let_def split: if_splits)
next
  case False
  with assms show ?thesis
    by (simp add: insn_operands_def Let_def split: if_splits)
qed

lemma insn_len_local:
  assumes "lp_x86_64_insn_len (Some code) = Inr n"
    and "n \<le> length code'" and "\<forall>i < n. code' ! i = code ! i"
  shows "lp_x86_64_insn_len (Some code') = Inr n"
proof -
  obtain off rex_w where sp: "skip_prefixes code 0 False = (off, rex_w)"
    by (cases "skip_prefixes code 0 False")
  have off: "off < length code"
    using assms(1) sp by (auto simp: lp_x86_64_insn_len_def Let_def split: if_splits)
  have ops: "if code ! off = 0x0F
             then insn_operands code rex_w True (code ! (off + 1)) (off + 2) = Inr n
             else insn_operands code rex_w False (code ! off) (off + 1) = Inr n"
    using assms(1) sp by (auto simp: lp_x86_64_insn_len_def Let_def split: if_splits)
  then have n: "off + 1 \<le> n" "code ! off = 0x0F \<Longrightarrow> off + 2 \<le> n"
    by (auto dest: insn_operands_bounds(1) split: if_splits)
  have "skip_prefixes code' 0 False = (off, rex_w)"
    using off n assms(2,3) by (intro skip_prefixes_local[OF sp]) auto
  moreover have "if code ! off = 0x0F
             then insn_operands code' rex_w True (code ! (off + 1)) (off + 2) = Inr n
             else insn_operands code' rex_w False (code ! off) (off + 1) = Inr n"
    using ops assms(2,3) by (auto intro: insn_operands_local split: if_splits)
  moreover have "code' ! off = code ! off" "code ! off = 0x0F \<Longrightarrow> code' ! (off + 1) = code ! (off + 1)"
    using n assms(3) by auto
  ultimately show ?thesis
    using n assms(2) by (auto simp: lp_x86_64_insn_len_def Let_def split: if_splits)
qed

section \<open>What the patch length is\<close>

text \<open>
  The reference: \<open>decodes code off ns\<close> says that the instructions at \<open>off\<close> have, one after
  the other, the lengths \<open>ns\<close>.
\<close>

fun decodes :: "u8 list \<Rightarrow> nat \<Rightarrow> nat list \<Rightarrow> bool" where
  "decodes code off [] \<longleftrightarrow> True"
| "decodes code off (n # ns) \<longleftrightarrow>
     lp_x86_64_insn_len (Some (drop off code)) = Inr n \<and> decodes code (off + n) ns"

lemma decodes_append:
  "decodes code off (ns @ ms) \<longleftrightarrow> decodes code off ns \<and> decodes code (off + sum_list ns) ms"
  by (induction ns arbitrary: off) (auto simp: add.assoc)

lemma insn_len_nonempty: "lp_x86_64_insn_len (Some []) = Inl EINVAL"
  by (simp add: lp_x86_64_insn_len_def)

lemma decodes_within:
  "decodes code off ns \<Longrightarrow> ns \<noteq> [] \<Longrightarrow> off + sum_list ns \<le> length code"
proof (induction ns arbitrary: off)
  case (Cons n ns)
  then have "n \<le> length (drop off code)" and "0 < n"
    by (auto dest: insn_len_bounds)
  then have "off + n \<le> length code" by auto
  with Cons.prems Cons.IH[of "off + n"] show ?case by (cases "ns = []") (auto simp: add.assoc)
qed simp

text \<open>
  Instructions displaced into another buffer still decode there to the same lengths,
  whatever follows them.
\<close>

lemma decodes_displaced:
  assumes "decodes code off ns" and "off + sum_list ns \<le> m" and "m \<le> length code"
  shows "decodes (take m code @ rest) off ns"
  using assms
proof (induction ns arbitrary: off)
  case (Cons n ns)
  have dec: "lp_x86_64_insn_len (Some (drop off code)) = Inr n"
    using Cons.prems(1) by simp
  have "lp_x86_64_insn_len (Some (drop off (take m code @ rest))) = Inr n"
    using Cons.prems(2,3) by (intro insn_len_local[OF dec]) (auto simp: nth_append)
  with Cons show ?case by (auto simp: add.assoc)
qed simp

text \<open>The patch length is the least sum of whole instructions that reaches \<open>min_len\<close>.\<close>

definition patch_split :: "u8 list \<Rightarrow> nat \<Rightarrow> nat \<Rightarrow> nat list \<Rightarrow> bool" where
  "patch_split code off min_len ns \<longleftrightarrow>
     decodes code off ns \<and> min_len \<le> off + sum_list ns \<and>
     (\<forall>k < length ns. off + sum_list (take k ns) < min_len) \<and>
     off + sum_list ns \<le> LP_MAX_ORIGINAL_CODE"

lemma patch_split_Cons:
  "patch_split code off min_len (n # ns) \<longleftrightarrow>
     off < min_len \<and> lp_x86_64_insn_len (Some (drop off code)) = Inr n \<and>
     patch_split code (off + n) min_len ns"
  by (auto simp: patch_split_def All_less_Suc2 add.assoc)

lemma calc_patch_loop_iff:
  "off \<le> LP_MAX_ORIGINAL_CODE \<Longrightarrow>
   calc_patch_loop code min_len off = Inr n \<longleftrightarrow>
     (\<exists>ns. patch_split code off min_len ns \<and> n = off + sum_list ns)"
proof (induction code min_len off rule: calc_patch_loop.induct)
  case (1 code min_len off)
  show ?case
  proof (cases "off < min_len")
    case False
    then have "patch_split code off min_len ns \<longleftrightarrow> ns = []" for ns
      using "1.prems" by (cases ns) (auto simp: patch_split_Cons, auto simp: patch_split_def)
    with False show ?thesis by (auto simp: calc_patch_loop.simps)
  next
    case True
    have nil: "\<not> patch_split code off min_len []"
      using True by (simp add: patch_split_def)
    show ?thesis
    proof (cases "lp_x86_64_insn_len (Some (drop off code))")
      case (Inl e)
      then have "\<not> patch_split code off min_len ns" for ns
        using nil by (cases ns) (auto simp: patch_split_Cons)
      with True Inl show ?thesis by (auto simp: calc_patch_loop.simps)
    next
      case (Inr k)
      have in_code: "\<not> length code \<le> off"
        using Inr insn_len_bounds(1,3)[OF Inr] by auto
      have unfold: "(\<exists>ns. patch_split code off min_len ns \<and> n = off + sum_list ns) \<longleftrightarrow>
          (\<exists>ns. patch_split code (off + k) min_len ns \<and> n = off + k + sum_list ns)" (is "?L = ?R")
      proof
        assume ?L
        then obtain ns where ns: "patch_split code off min_len ns" "n = off + sum_list ns" by blast
        with nil obtain m ms where "ns = m # ms" by (cases ns) auto
        with ns Inr show ?R by (auto simp: patch_split_Cons add.assoc)
      next
        assume ?R
        then obtain ns where "patch_split code (off + k) min_len ns" "n = off + k + sum_list ns"
          by blast
        with True Inr show ?L by (intro exI[of _ "k # ns"]) (simp add: patch_split_Cons)
      qed
      show ?thesis
      proof (cases "LP_MAX_ORIGINAL_CODE < off + k")
        case over: True
        then have "\<not> ?thesis \<Longrightarrow> False"
          using True Inr in_code unfold
          by (auto simp: calc_patch_loop.simps patch_split_def)
        then show ?thesis by blast
      next
        case False
        with "1.IH"[OF True in_code Inr] True Inr in_code unfold show ?thesis
          by (subst calc_patch_loop.simps) simp
      qed
    qed
  qed
qed

text \<open>
  C7: \<open>lp_x86_64_calc_patch_len\<close> returns \<open>n\<close> exactly when the code splits, from its first
  byte, into whole decoded instructions of total length \<open>n\<close>, no proper prefix of which
  already reaches \<open>min_len\<close>, and \<open>n\<close> is at least \<open>min_len\<close> and at most 32.
\<close>

theorem calc_patch_len_whole_instructions:
  "lp_x86_64_calc_patch_len (Some code) min_len = Inr n \<longleftrightarrow>
     0 < min_len \<and> (\<exists>ns. patch_split code 0 min_len ns \<and> n = sum_list ns)"
  using calc_patch_loop_iff[of 0 code min_len n]
  by (auto simp: lp_x86_64_calc_patch_len_def)

end
