(* ===== verification/C_Strings.thy ===== *)
theory C_Strings
  imports Prelude "HOL-Library.Sublist"
begin

text \<open>
  The functions of the C library that the sources apply to strings: number conversion
  (\<^verbatim>\<open>strtol\<close>, \<^verbatim>\<open>strtoull\<close>, \<^verbatim>\<open>atoi\<close>), \<^verbatim>\<open>%d\<close>, comparison, \<^verbatim>\<open>strstr\<close>, \<^verbatim>\<open>fgets\<close> and the
  conversions of \<^verbatim>\<open>sscanf\<close> that occur. A string is the list of its bytes before the NUL.
\<close>

definition isspace :: "u8 \<Rightarrow> bool" where
  "isspace c \<longleftrightarrow> c = 32 \<or> (9 \<le> c \<and> c \<le> 13)"

text \<open>The bytes of an array up to its first NUL.\<close>

definition cstr_of :: "u8 list \<Rightarrow> cstr" where
  "cstr_of bs = takeWhile (\<lambda>c. c \<noteq> 0) bs"

definition ascii :: "string \<Rightarrow> cstr" where
  "ascii s = map (\<lambda>c. of_nat (of_char c)) s"

lemma length_ascii: "length (ascii s) = length s"
  by (simp add: ascii_def)

section \<open>Numbers\<close>

definition digit_val :: "u8 \<Rightarrow> nat" where
  "digit_val c =
     (if 48 \<le> c \<and> c \<le> 57 then unat c - 48
      else if 97 \<le> c \<and> c \<le> 122 then unat c - 87
      else if 65 \<le> c \<and> c \<le> 90 then unat c - 55
      else 99)"

definition is_digit :: "nat \<Rightarrow> u8 \<Rightarrow> bool" where
  "is_digit b c \<longleftrightarrow> digit_val c < b"

definition digits_value :: "nat \<Rightarrow> u8 list \<Rightarrow> nat" where
  "digits_value b ds = foldl (\<lambda>a c. a * b + digit_val c) 0 ds"

text \<open>
  The subject sequence of the conversions: white space, a sign, \<open>0x\<close> in base 16, then digits.
  Base 0 takes the base from the prefix. No digits is \<open>None\<close>; the value is not yet bounded.
\<close>

fun scan_sign :: "cstr \<Rightarrow> bool \<times> cstr" where
  "scan_sign [] = (False, [])"
| "scan_sign (c # cs) =
     (if c = 45 then (True, cs) else if c = 43 then (False, cs) else (False, c # cs))"

definition hex_prefix :: "cstr \<Rightarrow> bool" where
  "hex_prefix s \<longleftrightarrow>
     2 < length s \<and> s ! 0 = 48 \<and> (s ! 1 = 120 \<or> s ! 1 = 88) \<and> is_digit 16 (s ! 2)"

definition scan_base :: "nat \<Rightarrow> cstr \<Rightarrow> nat \<times> cstr" where
  "scan_base b s =
     (if (b = 0 \<or> b = 16) \<and> hex_prefix s then (16, drop 2 s)
      else if b = 0 \<and> s \<noteq> [] \<and> s ! 0 = 48 then (8, s)
      else if b = 0 then (10, s)
      else (b, s))"

definition scan_number :: "nat \<Rightarrow> cstr \<Rightarrow> ((bool \<times> nat) \<times> cstr) option" where
  "scan_number b0 s =
     (let (neg, s) = scan_sign (dropWhile isspace s);
          (b, s) = scan_base b0 s;
          ds = takeWhile (is_digit b) s
      in if ds = [] then None
         else Some ((neg, digits_value b ds), dropWhile (is_digit b) s))"

text \<open>\<^verbatim>\<open>strtoull\<close>: out of range gives \<open>ULLONG_MAX\<close>, a minus sign negates modulo \<open>2 ^ 64\<close>.\<close>

definition ull_of :: "bool \<times> nat \<Rightarrow> u64" where
  "ull_of x = (case x of (neg, v) \<Rightarrow>
     if 2 ^ 64 \<le> v then - 1 else if neg then - of_nat v else of_nat v)"

definition strtoull :: "nat \<Rightarrow> cstr \<Rightarrow> u64" where
  "strtoull b s = (case scan_number b s of None \<Rightarrow> 0 | Some (x, _) \<Rightarrow> ull_of x)"

text \<open>\<^verbatim>\<open>strtol\<close>: out of range gives \<open>LONG_MAX\<close> or \<open>LONG_MIN\<close>; the result is a 64-bit \<^verbatim>\<open>long\<close>.\<close>

definition long_of :: "bool \<times> nat \<Rightarrow> u64" where
  "long_of x = (case x of (neg, v) \<Rightarrow>
     if neg then (if 2 ^ 63 < v then of_nat (2 ^ 63) else - of_nat v)
     else (if 2 ^ 63 \<le> v then of_nat (2 ^ 63 - 1) else of_nat v))"

definition strtol :: "nat \<Rightarrow> cstr \<Rightarrow> u64" where
  "strtol b s = (case scan_number b s of None \<Rightarrow> 0 | Some (x, _) \<Rightarrow> long_of x)"

text \<open>\<^verbatim>\<open>(pid_t)strtol(s, NULL, 10)\<close>, which is also \<^verbatim>\<open>atoi\<close> on this platform.\<close>

definition atoi :: "cstr \<Rightarrow> c_int" where
  "atoi s = ucast (strtol 10 s)"

section \<open>Printing numbers\<close>

definition digit_char :: "nat \<Rightarrow> u8" where
  "digit_char d = (if d < 10 then of_nat (48 + d) else of_nat (87 + d))"

fun print_nat :: "nat \<Rightarrow> nat \<Rightarrow> cstr" where
  "print_nat b n =
     (if b < 2 \<or> n < b then [digit_char n] else print_nat b (n div b) @ [digit_char (n mod b)])"

declare print_nat.simps [simp del]

definition print_d :: "c_int \<Rightarrow> cstr" where
  "print_d x = (if sint x < 0 then 45 # print_nat 10 (nat (- sint x)) else print_nat 10 (nat (sint x)))"

lemma digit_val_char: "d < 16 \<Longrightarrow> digit_val (digit_char d) = d"
proof -
  have "list_all (\<lambda>d. digit_val (digit_char d) = d) [0..<16]" by code_simp
  then show "d < 16 \<Longrightarrow> ?thesis" by (simp add: list_all_iff)
qed

lemma digit_val_mod: "1 < b \<Longrightarrow> b \<le> 16 \<Longrightarrow> digit_val (digit_char (n mod b)) = n mod b"
  by (rule digit_val_char) (use mod_less_divisor[of b n] in linarith)

lemma digits_value_append:
  "digits_value b (xs @ [c]) = digits_value b xs * b + digit_val c"
  by (simp add: digits_value_def)

lemma digits_value_print: "1 < b \<Longrightarrow> b \<le> 16 \<Longrightarrow> digits_value b (print_nat b n) = n"
proof (induction b n rule: print_nat.induct)
  case (1 b n)
  show ?case
  proof (cases "n < b")
    case True
    with "1.prems" show ?thesis
      by (simp add: print_nat.simps digits_value_def digit_val_char)
  next
    case False
    with 1 show ?thesis
      by (subst print_nat.simps) (simp add: digits_value_append digit_val_mod)
  qed
qed

lemma print_nat_digits: "1 < b \<Longrightarrow> b \<le> 16 \<Longrightarrow> c \<in> set (print_nat b n) \<Longrightarrow> is_digit b c"
proof (induction b n rule: print_nat.induct)
  case (1 b n)
  have d: "is_digit b (digit_char (n mod b))"
    using "1.prems" by (simp add: is_digit_def digit_val_mod)
  show ?case
  proof (cases "n < b")
    case True
    with "1.prems" show ?thesis
      by (simp add: print_nat.simps is_digit_def digit_val_char)
  next
    case False
    then have "set (print_nat b n) = insert (digit_char (n mod b)) (set (print_nat b (n div b)))"
      using "1.prems" by (subst print_nat.simps) auto
    with False 1 d show ?thesis by auto
  qed
qed

lemma print_nat_nonempty: "print_nat b n \<noteq> []"
  by (subst print_nat.simps) simp

text \<open>What was printed is read back, also behind zeros that pad it.\<close>

lemma is_digit_not_space: "is_digit b c \<Longrightarrow> b \<le> 16 \<Longrightarrow> \<not> isspace c \<and> c \<noteq> 45 \<and> c \<noteq> 43 \<and> c \<noteq> 0"
  by (auto simp: is_digit_def digit_val_def isspace_def word_le_nat_alt split: if_splits)

lemma digits_value_zeros: "digits_value b (replicate k 48 @ ds) = digits_value b ds"
proof -
  have "foldl (\<lambda>a c. a * b + digit_val c) 0 (replicate k 48) = 0"
    by (induction k) (simp_all add: digit_val_def)
  then show ?thesis by (simp add: digits_value_def)
qed

definition ends_number :: "nat \<Rightarrow> cstr \<Rightarrow> bool" where
  "ends_number b rest \<longleftrightarrow> (rest = [] \<or> \<not> is_digit b (hd rest) \<and> \<not> is_digit 36 (hd rest))"

lemma takeWhile_digits:
  assumes "\<forall>c \<in> set ds. is_digit b c" and "ends_number b rest"
  shows "takeWhile (is_digit b) (ds @ rest) = ds" and "dropWhile (is_digit b) (ds @ rest) = rest"
  using assms by (cases rest; auto simp: ends_number_def takeWhile_append dropWhile_append)+

lemma scan_number_digits:
  assumes "ds \<noteq> []" and dig: "\<forall>c \<in> set ds. is_digit b c" and "ends_number b rest"
    and b: "1 < b" "b \<le> 16" and sp: "\<forall>c \<in> set sp. isspace c"
  shows "scan_number b (sp @ ds @ rest) = Some ((False, digits_value b ds), rest)"
proof -
  obtain d ds' where ds: "ds = d # ds'" using assms(1) by (cases ds) auto
  then have d: "\<not> isspace d" "d \<noteq> 45" "d \<noteq> 43"
    using dig is_digit_not_space b by auto
  have "dropWhile isspace (sp @ ds @ rest) = ds @ rest"
    using sp ds d by (simp add: dropWhile_append2)
  moreover have "scan_sign (ds @ rest) = (False, ds @ rest)"
    using ds d by simp
  moreover have "\<not> hex_prefix (ds @ rest)"
  proof
    assume hp: "hex_prefix (ds @ rest)"
    have "\<not> is_digit 16 120" and "\<not> is_digit 16 88" and "is_digit 36 120" and "is_digit 36 88"
      by (simp_all add: is_digit_def digit_val_def)
    then have no: "x \<noteq> 120 \<and> x \<noteq> 88" if "is_digit b x" for x
      using that b by (auto simp: is_digit_def)
    show False
    proof (cases ds')
      case Nil
      with hp ds assms(3) \<open>is_digit 36 120\<close> \<open>is_digit 36 88\<close> show False
        by (cases rest) (auto simp: hex_prefix_def ends_number_def)
    next
      case (Cons e es)
      with hp ds dig no show False by (auto simp: hex_prefix_def)
    qed
  qed
  ultimately show ?thesis
    using assms(1) takeWhile_digits[OF dig assms(3)] b by (simp add: scan_number_def scan_base_def)
qed

lemma scan_number_print:
  assumes "1 < b" "b \<le> 16" and "ends_number b rest" and "\<forall>c \<in> set sp. isspace c"
  shows "scan_number b (sp @ replicate k 48 @ print_nat b n @ rest) = Some ((False, n), rest)"
proof -
  have "is_digit b 48" using assms by (simp add: is_digit_def digit_val_def)
  then have "scan_number b (sp @ (replicate k 48 @ print_nat b n) @ rest) =
             Some ((False, digits_value b (replicate k 48 @ print_nat b n)), rest)"
    using assms print_nat_digits by (intro scan_number_digits) (auto simp: print_nat_nonempty)
  with assms show ?thesis by (simp add: digits_value_zeros digits_value_print)
qed

text \<open>\<^verbatim>\<open>%d\<close> of a positive number is read back by \<^verbatim>\<open>atoi\<close>.\<close>

lemma atoi_print_d: "0 \<le> sint x \<Longrightarrow> atoi (print_d x) = x"
proof -
  assume pos: "0 \<le> sint x"
  have lt: "sint x < 2 ^ 31" using sint_lt[of x] by simp
  have "scan_number 10 ([] @ replicate 0 48 @ print_nat 10 (nat (sint x)) @ []) =
        Some ((False, nat (sint x)), [])"
    by (rule scan_number_print) (simp_all add: ends_number_def)
  moreover have "nat (sint x) < 2 ^ 63"
    by (rule nat_less_iff[THEN iffD2, OF pos]) (use lt in simp)
  ultimately have "strtol 10 (print_d x) = of_nat (nat (sint x))"
    using pos by (simp add: strtol_def print_d_def long_of_def)
  also have "\<dots> = word_of_int (sint x)"
    using of_int_of_nat_eq[of "nat (sint x)", where 'a = u64] nat_0_le[OF pos] by (simp only:)
  finally have "atoi (print_d x) = ucast (word_of_int (sint x) :: u64)"
    by (simp only: atoi_def)
  also have "\<dots> = word_of_int (sint x)"
    by transfer simp
  finally show ?thesis by simp
qed

end
