(* ===== verification/Memory.thy ===== *)
theory Memory
  imports Prelude
begin

text \<open>
  Byte memory over the 64-bit address space: what is read from a range, what a write of a
  byte sequence changes, and the laws of the two that the components share.
\<close>

type_synonym memory = "u64 \<Rightarrow> u8"

definition mem_read :: "memory \<Rightarrow> u64 \<Rightarrow> nat \<Rightarrow> u8 list" where
  "mem_read m a n = map (\<lambda>i. m (a + of_nat i)) [0..<n]"

definition mem_write :: "memory \<Rightarrow> u64 \<Rightarrow> u8 list \<Rightarrow> memory" where
  "mem_write m a bs = (\<lambda>x. if unat (x - a) < length bs then bs ! unat (x - a) else m x)"

named_theorems mem_simps \<open>reading and writing byte ranges\<close>

lemma length_mem_read [simp]: "length (mem_read m a n) = n"
  by (simp add: mem_read_def)

lemma nth_mem_read: "i < n \<Longrightarrow> mem_read m a n ! i = m (a + of_nat i)"
  by (simp add: mem_read_def)

lemma mem_read_0 [simp]: "mem_read m a 0 = []"
  by (simp add: mem_read_def)

lemma mem_write_Nil [simp]: "mem_write m a [] = m"
  by (simp add: mem_write_def)

lemma mem_read_append: "mem_read m a (i + j) = mem_read m a i @ mem_read m (a + of_nat i) j"
  by (rule nth_equalityI) (auto simp: nth_mem_read nth_append algebra_simps of_nat_diff)

lemma take_mem_read: "take k (mem_read m a n) = mem_read m a (min k n)"
  by (rule nth_equalityI) (auto simp: nth_mem_read)

lemma drop_mem_read: "drop k (mem_read m a n) = mem_read m (a + of_nat k) (n - k)"
  by (rule nth_equalityI) (auto simp: nth_mem_read add.assoc)

lemma mem_write_outside:
  "length bs \<le> 2 ^ 64 \<Longrightarrow> x \<notin> range64 a (length bs) \<Longrightarrow> mem_write m a bs x = m x"
  by (simp add: mem_write_def in_range64)

lemma mem_read_cong:
  "(\<And>x. x \<in> range64 a n \<Longrightarrow> m x = m' x) \<Longrightarrow> mem_read m a n = mem_read m' a n"
  by (rule nth_equalityI) (auto simp: nth_mem_read range64_def)

lemma mem_read_write_same [mem_simps]:
  assumes "length bs \<le> 2 ^ 64"
  shows "mem_read (mem_write m a bs) a (length bs) = bs"
  using assms by (intro nth_equalityI) (auto simp: nth_mem_read mem_write_def unat_of_nat64)

lemma mem_read_write_disjoint:
  assumes "length bs \<le> 2 ^ 64" and "range64 a n \<inter> range64 b (length bs) = {}"
  shows "mem_read (mem_write m b bs) a n = mem_read m a n"
  using assms by (intro mem_read_cong mem_write_outside) auto

lemma mem_write_read [mem_simps]: "mem_write m a (mem_read m a n) = m"
proof
  fix x
  have "a + of_nat (unat (x - a)) = x" by simp
  then show "mem_write m a (mem_read m a n) x = m x"
    by (auto simp: mem_write_def nth_mem_read)
qed

lemma mem_write_overwrite [mem_simps]:
  "length bs \<le> length cs \<Longrightarrow> mem_write (mem_write m a bs) a cs = mem_write m a cs"
  by (auto simp: mem_write_def fun_eq_iff)

lemma mem_write_append:
  assumes "length bs + length cs \<le> 2 ^ 64"
  shows "mem_write (mem_write m a bs) (a + of_nat (length bs)) cs = mem_write m a (bs @ cs)"
proof
  fix x
  define k where "k = unat (x - a)"
  have k: "x = a + of_nat k" "k < 2 ^ 64"
    using unsigned_less[of "x - a"] by (simp_all add: k_def)
  show "mem_write (mem_write m a bs) (a + of_nat (length bs)) cs x = mem_write m a (bs @ cs) x"
  proof (cases "length bs \<le> k")
    case True
    then have "x - (a + of_nat (length bs)) = of_nat (k - length bs)"
      using k by (simp add: of_nat_diff)
    then have "unat (x - (a + of_nat (length bs))) = k - length bs"
      using k(2) by (simp add: unat_of_nat64)
    with True show ?thesis
      by (auto simp: mem_write_def k_def[symmetric] nth_append)
  next
    case False
    have "\<not> unat (x - (a + of_nat (length bs))) < length cs"
    proof
      assume lt: "unat (x - (a + of_nat (length bs))) < length cs" (is "?d < _")
      have "x - a = of_nat (length bs + ?d)" by simp
      moreover have "length bs + ?d < 2 ^ 64" using lt assms by linarith
      ultimately have "k = length bs + ?d"
        unfolding k_def by (simp only: unat_of_nat64)
      with False show False by simp
    qed
    then show ?thesis
      using False by (auto simp: mem_write_def k_def[symmetric] nth_append)
  qed
qed

lemma mem_write_commute:
  assumes "length bs \<le> 2 ^ 64" and "length cs \<le> 2 ^ 64"
    and "range64 a (length bs) \<inter> range64 b (length cs) = {}"
  shows "mem_write (mem_write m a bs) b cs = mem_write (mem_write m b cs) a bs"
proof
  fix x
  have "\<not> (unat (x - a) < length bs \<and> unat (x - b) < length cs)"
    using assms in_range64[of "length bs" x a] in_range64[of "length cs" x b] by auto
  then show "mem_write (mem_write m a bs) b cs x = mem_write (mem_write m b cs) a bs x"
    by (auto simp: mem_write_def)
qed

text \<open>An eight-byte word that keeps the tail of what it replaces writes only the head.\<close>

lemma mem_write_keep_tail:
  assumes "length h + k \<le> 2 ^ 64"
  shows "mem_write m a (h @ mem_read m (a + of_nat (length h)) k) = mem_write m a h"
proof -
  let ?b = "a + of_nat (length h)"
  have "range64 (a + of_nat 0) (length h) \<inter> range64 ?b k = {}"
    using assms by (intro range64_offsets_disjoint) auto
  then have eq: "mem_read m ?b k = mem_read (mem_write m a h) ?b k"
    using assms by (intro mem_read_write_disjoint[symmetric]) auto
  have "mem_write m a (h @ mem_read m ?b k) = mem_write (mem_write m a h) ?b (mem_read m ?b k)"
    using assms by (simp add: mem_write_append)
  also have "\<dots> = mem_write m a h"
    unfolding eq by (rule mem_write_read)
  finally show ?thesis .
qed

end
