(* ===== verification/Kernel.thy ===== *)
theory Kernel
  imports Memory
begin

text \<open>
  What the controller asks of the operating system and of the C library's files: a record of
  the calls the sources make, each with its outcome and its effect on a state \<open>'w\<close> of the world
  that the development knows nothing else about. A failing call is \<open>Inl errno\<close>. What the
  manual pages promise of the calls is stated as locales, and a reference kernel that keeps
  these promises interprets them.

  The directory and file streams that the code reads to the end are given by their contents;
  \<^verbatim>\<open>close\<close>, \<^verbatim>\<open>closedir\<close> and \<^verbatim>\<open>free\<close> leave \<^verbatim>\<open>errno\<close> alone.
\<close>

text \<open>\<^verbatim>\<open>struct user_regs_struct\<close> of \<^verbatim>\<open>sys/user.h\<close>.\<close>

record user_regs =
  r_r15 :: u64
  r_r14 :: u64
  r_r13 :: u64
  r_r12 :: u64
  r_rbp :: u64
  r_rbx :: u64
  r_r11 :: u64
  r_r10 :: u64
  r_r9 :: u64
  r_r8 :: u64
  r_rax :: u64
  r_rcx :: u64
  r_rdx :: u64
  r_rsi :: u64
  r_rdi :: u64
  r_orig_rax :: u64
  r_rip :: u64
  r_cs :: u64
  r_eflags :: u64
  r_rsp :: u64
  r_ss :: u64
  r_fs_base :: u64
  r_gs_base :: u64
  r_ds :: u64
  r_es :: u64
  r_fs :: u64
  r_gs :: u64

record 'w kernel =
  process_vm_readv :: "pid_t \<Rightarrow> u64 \<Rightarrow> nat \<Rightarrow> ('w, u8 list) est"
  process_vm_writev :: "pid_t \<Rightarrow> u64 \<Rightarrow> u8 list \<Rightarrow> ('w, nat) est"
  ptrace_peekdata :: "pid_t \<Rightarrow> u64 \<Rightarrow> ('w, u64) est"
  ptrace_pokedata :: "pid_t \<Rightarrow> u64 \<Rightarrow> u64 \<Rightarrow> ('w, unit) est"
  ptrace_getregs :: "pid_t \<Rightarrow> ('w, user_regs) est"
  ptrace_setregs :: "pid_t \<Rightarrow> user_regs \<Rightarrow> ('w, unit) est"
  ptrace_cont :: "pid_t \<Rightarrow> ('w, unit) est"
  ptrace_attach :: "pid_t \<Rightarrow> ('w, unit) est"
  ptrace_detach :: "pid_t \<Rightarrow> ('w, unit) est"
  waitpid_wall :: "pid_t \<Rightarrow> ('w, u32) est"
  sys_opendir :: "cstr \<Rightarrow> ('w, nat \<times> cstr list) est"
  sys_closedir :: "nat \<Rightarrow> 'w \<Rightarrow> 'w"
  sys_open :: "cstr \<Rightarrow> ('w, nat) est"
  sys_fstat_size :: "nat \<Rightarrow> ('w, u64) est"
  sys_read :: "nat \<Rightarrow> nat \<Rightarrow> ('w, u8 list) est"
  sys_lseek :: "nat \<Rightarrow> u64 \<Rightarrow> ('w, unit) est"
  sys_close :: "nat \<Rightarrow> 'w \<Rightarrow> 'w"
  c_malloc :: "nat \<Rightarrow> ('w, unit) est"
  c_fopen_r :: "cstr \<Rightarrow> ('w, nat \<times> u8 list) est"
  c_fopen_w :: "cstr \<Rightarrow> ('w, nat) est"
  c_fwrite1 :: "nat \<Rightarrow> u8 list \<Rightarrow> 'w \<Rightarrow> nat \<times> 'w"
  c_fclose :: "nat \<Rightarrow> ('w, unit) est"

text \<open>\<open>WIFSTOPPED\<close> and \<open>WSTOPSIG\<close> of a wait status, as \<^verbatim>\<open>sys/wait.h\<close> defines them.\<close>

definition WIFSTOPPED :: "u32 \<Rightarrow> bool" where
  "WIFSTOPPED status \<longleftrightarrow> status AND 0xFF = 0x7F"

definition WSTOPSIG :: "u32 \<Rightarrow> u32" where
  "WSTOPSIG status = drop_bit 8 status AND 0xFF"

definition SIGTRAP :: u32 where "SIGTRAP = 5"

section \<open>Memory of a stopped process\<close>

text \<open>
  \<open>mem w pid\<close> is the memory of the process that the thread \<open>pid\<close> belongs to. A transfer by
  \<^verbatim>\<open>process_vm_readv\<close> or \<^verbatim>\<open>process_vm_writev\<close> may stop early and reports how far it came; a
  failing call transfers nothing; \<^verbatim>\<open>PTRACE_PEEKDATA\<close> and \<^verbatim>\<open>PTRACE_POKEDATA\<close> move one word.
\<close>

locale kernel_memory =
  fixes K :: "'w kernel"
    and mem :: "'w \<Rightarrow> pid_t \<Rightarrow> memory"
  assumes readv_ok: "process_vm_readv K p a n w = (Inr bs, w') \<Longrightarrow>
      length bs \<le> n \<and> bs = mem_read (mem w p) a (length bs) \<and> mem w' p = mem w p"
    and readv_fail: "process_vm_readv K p a n w = (Inl e, w') \<Longrightarrow> mem w' p = mem w p"
    and writev_ok: "process_vm_writev K p a bs w = (Inr k, w') \<Longrightarrow>
      k \<le> length bs \<and> mem w' p = mem_write (mem w p) a (take k bs)"
    and writev_fail: "process_vm_writev K p a bs w = (Inl e, w') \<Longrightarrow> mem w' p = mem w p"
    and peek_ok: "ptrace_peekdata K p a w = (Inr v, w') \<Longrightarrow>
      v = le_word (mem_read (mem w p) a 8) \<and> mem w' p = mem w p"
    and peek_fail: "ptrace_peekdata K p a w = (Inl e, w') \<Longrightarrow> mem w' p = mem w p"
    and poke_ok: "ptrace_pokedata K p a v w = (Inr u, w') \<Longrightarrow>
      mem w' p = mem_write (mem w p) a (le64 v)"
    and poke_fail: "ptrace_pokedata K p a v w = (Inl e, w') \<Longrightarrow> mem w' p = mem w p"

section \<open>Execution of a stopped process\<close>

text \<open>
  Registers next to the memory. The calls on files and the transfers leave both alone. Whenever
  the target can run - between \<^verbatim>\<open>PTRACE_CONT\<close> and the stop that \<^verbatim>\<open>waitpid\<close> reports, and before a
  thread is stopped or after it is released - it changes its registers and the memory in
  \<open>dirty\<close>: what its own code, the system call it is made to execute and the delivery of signals
  may write.
\<close>

locale kernel_exec = kernel_memory K mem
  for K :: "'w kernel" and mem :: "'w \<Rightarrow> pid_t \<Rightarrow> memory" +
  fixes regs :: "'w \<Rightarrow> pid_t \<Rightarrow> user_regs"
    and dirty :: "u64 set"
  assumes getregs: "ptrace_getregs K p w = (r, w') \<Longrightarrow>
      mem w' p = mem w p \<and> regs w' p = regs w p \<and> (\<forall>x. r = Inr x \<longrightarrow> x = regs w p)"
    and setregs_ok: "ptrace_setregs K p x w = (Inr u, w') \<Longrightarrow> mem w' p = mem w p \<and> regs w' p = x"
    and setregs_fail: "ptrace_setregs K p x w = (Inl e, w') \<Longrightarrow> mem w' p = mem w p \<and> regs w' p = regs w p"
    and cont_frame: "ptrace_cont K p w = (r1, w') \<Longrightarrow> a \<notin> dirty \<Longrightarrow> mem w' p a = mem w p a"
    and wait_frame: "waitpid_wall K t w = (r2, w') \<Longrightarrow> a \<notin> dirty \<Longrightarrow> mem w' p a = mem w p a"
    and attach_frame: "ptrace_attach K t w = (r1, w') \<Longrightarrow> a \<notin> dirty \<Longrightarrow> mem w' p a = mem w p a"
    and detach_frame: "ptrace_detach K t w = (r1, w') \<Longrightarrow> a \<notin> dirty \<Longrightarrow> mem w' p a = mem w p a"
    and transfer_regs:
      "keeps (\<lambda>w. regs w p) (process_vm_readv K p a n)"
      "keeps (\<lambda>w. regs w p) (process_vm_writev K p a bs)"
      "keeps (\<lambda>w. regs w p) (ptrace_peekdata K p a)"
      "keeps (\<lambda>w. regs w p) (ptrace_pokedata K p a v)"
    and file_calls:
      "keeps (\<lambda>w. (mem w p, regs w p)) (sys_open K path)"
      "keeps (\<lambda>w. (mem w p, regs w p)) (sys_fstat_size K fd)"
      "keeps (\<lambda>w. (mem w p, regs w p)) (sys_read K fd n)"
      "keeps (\<lambda>w. (mem w p, regs w p)) (sys_lseek K fd off)"
      "keeps (\<lambda>w. (mem w p, regs w p)) (c_malloc K n)"
      "keeps (\<lambda>w. (mem w p, regs w p)) (c_fopen_r K path)"
      "keeps (\<lambda>w. (mem w p, regs w p)) (c_fclose K fp)"
      "keeps (\<lambda>w. (mem w p, regs w p)) (c_fopen_w K path)"
      "keeps (\<lambda>w. (mem w p, regs w p)) (sys_opendir K path)"
    and close_calls:
      "mem (sys_close K fd w) p = mem w p" "regs (sys_close K fd w) p = regs w p"
      "mem (sys_closedir K d w) p = mem w p" "regs (sys_closedir K d w) p = regs w p"
      "mem (snd (c_fwrite1 K fp bs w)) p = mem w p" "regs (snd (c_fwrite1 K fp bs w)) p = regs w p"

section \<open>Threads under the control of the tracer\<close>

text \<open>
  \<open>stopped w\<close> is the set of threads that the program has attached and seen stop. A thread joins it
  when \<^verbatim>\<open>waitpid\<close> reports it stopped, and cannot be attached again (\<^verbatim>\<open>EPERM\<close>); \<^verbatim>\<open>PTRACE_DETACH\<close> without a signal releases a stopped thread, and
  fails only for threads that are not, or no longer, in the set.
\<close>

locale kernel_threads =
  fixes K :: "'w kernel"
    and stopped :: "'w \<Rightarrow> pid_t set"
  assumes attach_stopped: "keeps stopped (ptrace_attach K t)"
    and attach_again: "ptrace_attach K t w = (Inr u, w') \<Longrightarrow> t \<notin> stopped w"
    and wait_stopped: "waitpid_wall K t w = (Inr status, w') \<Longrightarrow>
      stopped w' = (if WIFSTOPPED status then insert t (stopped w) else stopped w)"
    and wait_failed: "waitpid_wall K t w = (Inl e, w') \<Longrightarrow> stopped w' = stopped w"
    and detach_stopped: "ptrace_detach K t w = (r, w') \<Longrightarrow> stopped w' = stopped w - {t}"
    and cont_stopped: "ptrace_cont K t w = (r, w') \<Longrightarrow> stopped w' \<subseteq> stopped w"
    and other_stopped:
      "keeps stopped (process_vm_readv K p a n)" "keeps stopped (process_vm_writev K p a bs)"
      "keeps stopped (ptrace_peekdata K p a)" "keeps stopped (ptrace_pokedata K p a v)"
      "keeps stopped (ptrace_getregs K p)" "keeps stopped (ptrace_setregs K p x)"
      "keeps stopped (sys_opendir K path)" "keeps stopped (sys_open K path)"
      "keeps stopped (sys_fstat_size K fd)" "keeps stopped (sys_read K fd n)"
      "keeps stopped (sys_lseek K fd off)" "keeps stopped (c_malloc K n)"
      "keeps stopped (c_fopen_r K path)" "keeps stopped (c_fopen_w K path)"
      "keeps stopped (c_fclose K fp)"
    and close_stopped: "stopped (sys_close K fd w) = stopped w"
      "stopped (sys_closedir K d w) = stopped w" "stopped (snd (c_fwrite1 K fp bs w)) = stopped w"

end
