(* ===== verification/Remote_Mem.thy ===== *)
theory Remote_Mem
  imports Kernel
begin

text \<open>
  \<^verbatim>\<open>controller/remote_mem_ptrace.c\<close>, the transfers: a bulk transfer by
  \<^verbatim>\<open>process_vm_readv\<close>/\<^verbatim>\<open>writev\<close> with a word-by-word fallback over \<^verbatim>\<open>ptrace\<close>. Under the laws
  of the kernel the two are a lookup and an update of the memory of the process; these are the
  laws of the interface \<open>remote_memory\<close> that the components above rely on.
\<close>

text \<open>An argument through which a result is returned is only tested for \<^verbatim>\<open>NULL\<close>.\<close>

datatype out_ptr = NULL | OUT

section \<open>Reading\<close>

text \<open>The loop of \<open>remote_read\<close>; \<open>dst\<close> holds the bytes copied so far.\<close>

function peek_loop :: "'w kernel \<Rightarrow> pid_t \<Rightarrow> u64 \<Rightarrow> nat \<Rightarrow> nat \<Rightarrow> u8 list \<Rightarrow> ('w, u8 list) est" where
  "peek_loop K pid remote_addr len i dst w =
     (if i < len then
        (case ptrace_peekdata K pid (remote_addr + of_nat i) w of
           (Inl e, w) \<Rightarrow> (Inl e, w)
         | (Inr data, w) \<Rightarrow>
             let copy_size = (if len < i + 8 then len - i else 8) in
             peek_loop K pid remote_addr len (i + copy_size) (dst @ take copy_size (le64 data)) w)
      else (Inr dst, w))"
  by pat_completeness auto
termination
  by (relation "measure (\<lambda>(K, pid, a, len, i, dst, w). len - i)") (auto simp: Let_def)

declare peek_loop.simps [simp del]

definition remote_read ::
    "'w kernel \<Rightarrow> pid_t \<Rightarrow> u64 \<Rightarrow> out_ptr \<Rightarrow> nat \<Rightarrow> ('w, u8 list) est" where
  "remote_read K pid remote_addr buf len w =
     (if sint pid \<le> 0 \<or> remote_addr = 0 \<or> buf = NULL \<or> len = 0 then (Inl EINVAL, w)
      else case process_vm_readv K pid remote_addr len w of
        (Inr bs, w) \<Rightarrow> if length bs = len then (Inr bs, w) else (Inl EIO, w)
      | (Inl _, w) \<Rightarrow> peek_loop K pid remote_addr len 0 [] w)"

section \<open>Writing\<close>

text \<open>
  The loop of \<open>remote_write\<close>: the last word keeps the bytes behind the range that it overlaps.
\<close>

function poke_loop :: "'w kernel \<Rightarrow> pid_t \<Rightarrow> u64 \<Rightarrow> u8 list \<Rightarrow> nat \<Rightarrow> ('w, unit) est" where
  "poke_loop K pid remote_addr src i w =
     (if i < length src then
        let copy_size = (if length src < i + 8 then length src - i else 8);
            old = (if length src < i + 8
                   then ptrace_peekdata K pid (remote_addr + of_nat i) w else (Inr 0, w))
        in case old of
             (Inl e, w) \<Rightarrow> (Inl e, w)
           | (Inr data, w) \<Rightarrow>
               let data' = le_word (take copy_size (drop i src) @ drop copy_size (le64 data)) in
               case ptrace_pokedata K pid (remote_addr + of_nat i) data' w of
                 (Inl e, w) \<Rightarrow> (Inl e, w)
               | (Inr _, w) \<Rightarrow> poke_loop K pid remote_addr src (i + copy_size) w
      else (Inr (), w))"
  by pat_completeness auto
termination
  by (relation "measure (\<lambda>(K, pid, a, src, i, w). length src - i)") (auto simp: Let_def)

declare poke_loop.simps [simp del]

text \<open>\<open>buf\<close> is \<open>None\<close> for \<^verbatim>\<open>NULL\<close>; \<open>len\<close> is the number of bytes at \<open>buf\<close>.\<close>

definition remote_write ::
    "'w kernel \<Rightarrow> pid_t \<Rightarrow> u64 \<Rightarrow> u8 list option \<Rightarrow> ('w, unit) est" where
  "remote_write K pid remote_addr buf w =
     (case buf of
        None \<Rightarrow> (Inl EINVAL, w)
      | Some bytes \<Rightarrow>
          if sint pid \<le> 0 \<or> remote_addr = 0 \<or> length bytes = 0 then (Inl EINVAL, w)
          else case process_vm_writev K pid remote_addr bytes w of
            (Inr n, w) \<Rightarrow> if n = length bytes then (Inr (), w) else (Inl EIO, w)
          | (Inl _, w) \<Rightarrow> poke_loop K pid remote_addr bytes 0 w)"

section \<open>What the transfers do to the memory\<close>

text \<open>
  The interface: what a client may rely on when it reads and writes the memory of a process.
  A failed write leaves some prefix of its bytes behind.
\<close>

locale remote_memory =
  fixes rread :: "pid_t \<Rightarrow> u64 \<Rightarrow> nat \<Rightarrow> ('w, u8 list) est"
    and rwrite :: "pid_t \<Rightarrow> u64 \<Rightarrow> u8 list \<Rightarrow> ('w, unit) est"
    and mem :: "'w \<Rightarrow> pid_t \<Rightarrow> memory"
  assumes rread_ok: "rread p a n w = (Inr bs, w') \<Longrightarrow>
      bs = mem_read (mem w p) a n \<and> mem w' p = mem w p"
    and rread_fail: "rread p a n w = (Inl e, w') \<Longrightarrow> mem w' p = mem w p"
    and rwrite_ok: "length bs \<le> 2 ^ 60 \<Longrightarrow> rwrite p a bs w = (Inr u, w') \<Longrightarrow>
      mem w' p = mem_write (mem w p) a bs"
    and rwrite_fail: "length bs \<le> 2 ^ 60 \<Longrightarrow> rwrite p a bs w = (Inl e, w') \<Longrightarrow>
      \<exists>k \<le> length bs. mem w' p = mem_write (mem w p) a (take k bs)"
begin

text \<open>A write, successful or not, changes nothing outside its range.\<close>

lemma rwrite_frame:
  assumes "length bs \<le> 2 ^ 60" and "rwrite p a bs w = (r, w')" and "x \<notin> range64 a (length bs)"
  shows "mem w' p x = mem w p x"
proof -
  have out: "mem_write m a (take k bs) x = m x" for k m
  proof (rule mem_write_outside)
    show "x \<notin> range64 a (length (take k bs))"
      using assms(3) range64_sub[of 0 "length (take k bs)" "length bs" a] by auto
  qed (use assms(1) in simp)
  show ?thesis
  proof (cases r)
    case (Inl e)
    then show ?thesis
      using rwrite_fail[OF assms(1), of p a w e w'] assms(2) out by auto
  next
    case (Inr u)
    then show ?thesis
      using rwrite_ok[OF assms(1), of p a w u w'] assms(2) out[of "mem w p" "length bs"] by simp
  qed
qed

text \<open>What was written is read back.\<close>

lemma rread_after_rwrite:
  assumes "length bs \<le> 2 ^ 60" and "rwrite p a bs w = (Inr u, w')"
    and "rread p a (length bs) w' = (Inr bs', w'')"
  shows "bs' = bs"
proof -
  have "mem_read (mem_write (mem w p) a bs) a (length bs) = bs"
    using assms(1) by (intro mem_read_write_same) simp
  then show ?thesis
    using rwrite_ok[OF assms(1,2)] rread_ok[OF assms(3)] by simp
qed

end

lemma le64_le_word: "length bs = 8 \<Longrightarrow> le64 (le_word bs) = bs"
  by (simp add: le64_def le_bytes_le_word)

context kernel_memory
begin

lemma peek_loop_mem:
  assumes "peek_loop K p a len i dst w = (r, w')" and "i \<le> len"
    and "dst = mem_read (mem w p) a i"
  shows "mem w' p = mem w p \<and> (\<forall>bs. r = Inr bs \<longrightarrow> bs = mem_read (mem w p) a len)"
  using assms
proof (induction "len - i" arbitrary: i dst w rule: less_induct)
  case less
  show ?case
  proof (cases "i < len")
    case False
    with less.prems show ?thesis by (auto simp: peek_loop.simps)
  next
    case True
    let ?c = "if len < i + 8 then len - i else 8"
    obtain q w1 where q: "ptrace_peekdata K p (a + of_nat i) w = (q, w1)" by fastforce
    show ?thesis
    proof (cases q)
      case (Inl e)
      with q peek_fail[of p "a + of_nat i" w e w1] less.prems(1) True show ?thesis
        by (auto simp: peek_loop.simps)
    next
      case (Inr v)
      have v: "v = le_word (mem_read (mem w p) (a + of_nat i) 8)" and mem1: "mem w1 p = mem w p"
        using peek_ok q Inr by blast+
      have "take ?c (le64 v) = mem_read (mem w p) (a + of_nat i) ?c"
        by (auto simp: v le64_le_word take_mem_read min_def)
      then have "dst @ take ?c (le64 v) = mem_read (mem w1 p) a (i + ?c)"
        using less.prems(3) mem1 by (simp add: mem_read_append)
      moreover have "peek_loop K p a len (i + ?c) (dst @ take ?c (le64 v)) w1 = (r, w')"
        using less.prems(1) True q Inr by (simp add: peek_loop.simps[of K p a len i] Let_def)
      moreover have "len - (i + ?c) < len - i" and "i + ?c \<le> len"
        using True by auto
      ultimately show ?thesis
        using less.hyps mem1 by metis
    qed
  qed
qed

lemma poke_loop_mem:
  assumes "poke_loop K p a src i w = (r, w')" and "i \<le> length src" and "length src \<le> 2 ^ 60"
    and "mem w p = mem_write m0 a (take i src)"
  shows "\<exists>k \<le> length src. mem w' p = mem_write m0 a (take k src) \<and>
           (\<forall>u. r = Inr u \<longrightarrow> k = length src)"
  using assms
proof (induction "length src - i" arbitrary: i w rule: less_induct)
  case less
  show ?case
  proof (cases "i < length src")
    case False
    with less.prems show ?thesis by (auto simp: poke_loop.simps)
  next
    case True
    let ?c = "if length src < i + 8 then length src - i else 8"
    let ?b = "a + of_nat i"
    define old where "old = (if length src < i + 8 then ptrace_peekdata K p ?b w else (Inr 0, w))"
    obtain q w1 where q: "old = (q, w1)" by fastforce
    have mem1: "mem w1 p = mem w p"
      using q peek_ok[of p ?b w _ w1] peek_fail[of p ?b w _ w1]
      by (cases q) (auto simp: old_def split: if_splits)
    show ?thesis
    proof (cases q)
      case (Inl e)
      with q less.prems True mem1 show ?thesis
        by (auto simp: poke_loop.simps[of K p a src i] old_def Let_def intro!: exI[of _ i])
    next
      case (Inr v)
      define d :: u64 where "d = le_word (take ?c (drop i src) @ drop ?c (le64 v))"
      obtain q2 w2 where q2: "ptrace_pokedata K p ?b d w1 = (q2, w2)" by fastforce
      have step: "poke_loop K p a src i w =
          (case q2 of Inl e \<Rightarrow> (Inl e, w2) | Inr _ \<Rightarrow> poke_loop K p a src (i + ?c) w2)"
        using True q Inr q2
        by (simp add: poke_loop.simps[of K p a src i] old_def Let_def d_def split: sum.split)
      let ?h = "take ?c (drop i src)"
      have h: "length ?h = ?c" and i: "length (take i src) = i" using True by auto
      have d: "le64 d = ?h @ drop ?c (le64 v)"
        unfolding d_def by (rule le64_le_word) (use h in auto)
      have poked: "mem_write (mem w p) ?b (le64 d) = mem_write (mem w p) ?b ?h"
      proof (cases "length src < i + 8")
        case short: True
        then have "v = le_word (mem_read (mem w p) ?b 8)"
          using q Inr peek_ok[of p ?b w v w1] by (simp add: old_def)
        then have tl: "drop ?c (le64 v) = mem_read (mem w p) (?b + of_nat (length ?h)) (8 - ?c)"
          using h by (simp add: le64_le_word drop_mem_read)
        show ?thesis
          unfolding d tl by (rule mem_write_keep_tail) (use h in auto)
      next
        case False
        then show ?thesis using d by simp
      qed
      have written: "mem_write (mem w p) ?b ?h = mem_write m0 a (take (i + ?c) src)"
      proof -
        have "mem_write (mem_write m0 a (take i src)) (a + of_nat (length (take i src))) ?h =
              mem_write m0 a (take i src @ ?h)"
          using less.prems(3) h i by (intro mem_write_append) auto
        then show ?thesis
          using less.prems(4) i by (simp add: take_add)
      qed
      show ?thesis
      proof (cases q2)
        case (Inl e)
        then have "mem w' p = mem w p"
          using step q2 less.prems(1) poke_fail[of p ?b d w1 e w2] mem1 by simp
        with step Inl less.prems True show ?thesis
          by (intro exI[of _ i]) auto
      next
        case (Inr u)
        then have "mem w2 p = mem_write m0 a (take (i + ?c) src)"
          using q2 poke_ok[of p ?b d w1 u w2] mem1 poked written by simp
        moreover have "poke_loop K p a src (i + ?c) w2 = (r, w')"
          using step Inr less.prems(1) by simp
        moreover have "length src - (i + ?c) < length src - i" and "i + ?c \<le> length src"
          using True by auto
        ultimately show ?thesis
          using less.hyps less.prems(3) by blast
      qed
    qed
  qed
qed

text \<open>The transfers keep the promises of the interface.\<close>

lemma remote_read_mem:
  assumes "remote_read K p a buf n w = (r, w')"
  shows "mem w' p = mem w p \<and> (\<forall>bs. r = Inr bs \<longrightarrow> bs = mem_read (mem w p) a n)"
proof (cases "process_vm_readv K p a n w")
  case (Pair q w1)
  show ?thesis
  proof (cases q)
    case (Inl e)
    then have "mem w1 p = mem w p" using Pair readv_fail by blast
    with Inl Pair assms peek_loop_mem[of p a n 0 "[]" w1 r w'] show ?thesis
      by (auto simp: remote_read_def split: if_splits)
  next
    case (Inr bs)
    then have "bs = mem_read (mem w p) a (length bs)" and "mem w1 p = mem w p"
      using Pair readv_ok by blast+
    with Inr Pair assms show ?thesis
      by (auto simp: remote_read_def split: if_splits)
  qed
qed

lemma remote_write_mem:
  assumes "remote_write K p a (Some bs) w = (r, w')" and "length bs \<le> 2 ^ 60"
  shows "\<exists>k \<le> length bs. mem w' p = mem_write (mem w p) a (take k bs) \<and>
           (\<forall>u. r = Inr u \<longrightarrow> k = length bs)"
proof (cases "process_vm_writev K p a bs w")
  case (Pair q w1)
  show ?thesis
  proof (cases "sint p \<le> 0 \<or> a = 0 \<or> length bs = 0")
    case True
    with assms show ?thesis by (auto simp: remote_write_def intro!: exI[of _ 0])
  next
    case ok: False
    show ?thesis
    proof (cases q)
      case (Inl e)
      then have "mem w1 p = mem w p" using Pair writev_fail by blast
      with Inl Pair assms ok poke_loop_mem[of p a bs 0 w1 r w' "mem w p"] show ?thesis
        by (auto simp: remote_write_def split: if_splits)
    next
      case (Inr k)
      then have "k \<le> length bs" and "mem w1 p = mem_write (mem w p) a (take k bs)"
        using Pair writev_ok by blast+
      with Inr Pair assms ok show ?thesis
        by (auto simp: remote_write_def split: if_splits intro!: exI[of _ k])
    qed
  qed
qed

end

sublocale kernel_memory \<subseteq>
  rm: remote_memory "\<lambda>p a n. remote_read K p a OUT n" "\<lambda>p a bs. remote_write K p a (Some bs)" mem
proof
  fix p a n w bs w'
  assume "remote_read K p a OUT n w = (Inr bs, w')"
  then show "bs = mem_read (mem w p) a n \<and> mem w' p = mem w p"
    using remote_read_mem by blast
next
  fix p a n w e w'
  assume "remote_read K p a OUT n w = (Inl e, w')"
  then show "mem w' p = mem w p"
    using remote_read_mem by blast
next
  fix bs :: "u8 list" and p a w u w'
  assume "length bs \<le> 2 ^ 60" and "remote_write K p a (Some bs) w = (Inr u, w')"
  then show "mem w' p = mem_write (mem w p) a bs"
    using remote_write_mem[of p a bs w "Inr u" w'] by auto
next
  fix bs :: "u8 list" and p a w e w'
  assume "length bs \<le> 2 ^ 60" and "remote_write K p a (Some bs) w = (Inl e, w')"
  then show "\<exists>k\<le>length bs. mem w' p = mem_write (mem w p) a (take k bs)"
    using remote_write_mem[of p a bs w "Inl e" w'] by auto
qed

text \<open>Whatever else the calls leave alone, the transfers leave alone.\<close>

lemma remote_read_keeps:
  assumes "\<And>a n. keeps f (process_vm_readv K p a n)" and "\<And>a. keeps f (ptrace_peekdata K p a)"
  shows "keeps f (remote_read K p a buf n)"
proof -
  have loop: "peek_loop K p a len i dst w = (r, w') \<Longrightarrow> f w' = f w" for len i dst w r w'
  proof (induction "len - i" arbitrary: i dst w rule: less_induct)
    case less
    show ?case
      using less.prems[unfolded peek_loop.simps[of K p a len i dst w]]
      by (auto simp: Let_def split: if_splits prod.splits sum.splits
            dest!: keepsD[OF assms(2)] less.hyps[rotated])
  qed
  show ?thesis
    by (rule keepsI)
       (auto simp: remote_read_def split: if_splits prod.splits sum.splits
          dest!: keepsD[OF assms(1)] loop)
qed

lemma remote_write_keeps:
  assumes "\<And>a bs. keeps f (process_vm_writev K p a bs)" and "\<And>a. keeps f (ptrace_peekdata K p a)"
    and "\<And>a v. keeps f (ptrace_pokedata K p a v)"
  shows "keeps f (remote_write K p a buf)"
proof -
  have loop: "poke_loop K p a src i w = (r, w') \<Longrightarrow> f w' = f w" for src i w r w'
  proof (induction "length src - i" arbitrary: i w rule: less_induct)
    case less
    show ?case
      using less.prems[unfolded poke_loop.simps[of K p a src i w]]
      by (auto simp: Let_def split: if_splits prod.splits sum.splits
            dest!: keepsD[OF assms(2)] keepsD[OF assms(3)] less.hyps[rotated])
  qed
  show ?thesis
    by (rule keepsI)
       (auto simp: remote_write_def split: option.splits if_splits prod.splits sum.splits
          dest!: keepsD[OF assms(1)] loop)
qed

text \<open>The wrappers of \<^verbatim>\<open>controller_stub.c\<close>.\<close>

definition lp_remote_read ::
    "'w kernel \<Rightarrow> pid_t \<Rightarrow> u64 \<Rightarrow> out_ptr \<Rightarrow> nat \<Rightarrow> ('w, u8 list) est" where
  "lp_remote_read K pid remote_addr buf len = remote_read K pid remote_addr buf len"

definition lp_remote_write ::
    "'w kernel \<Rightarrow> pid_t \<Rightarrow> u64 \<Rightarrow> u8 list option \<Rightarrow> ('w, unit) est" where
  "lp_remote_write K pid remote_addr buf = remote_write K pid remote_addr buf"

section \<open>Properties\<close>

text \<open>
  C21: under the kernel's memory laws \<open>remote_read\<close> never changes the target's memory, returns
  exactly the bytes of the requested range when it succeeds, by the bulk transfer or by the
  word-by-word fallback with its shorter last word, and refuses a bad process id, a null
  address or buffer and an empty range before it touches anything.
\<close>

theorem remote_read_returns_memory:
  assumes "kernel_memory K mem" and "remote_read K p a buf n w = (r, w')"
  shows "mem w' p = mem w p \<and>
    (case r of Inr bs \<Rightarrow> bs = mem_read (mem w p) a n | Inl e \<Rightarrow> True) \<and>
    (sint p \<le> 0 \<or> a = 0 \<or> buf = NULL \<or> n = 0 \<longrightarrow> r = Inl EINVAL \<and> w' = w)"
proof -
  have "r = Inl EINVAL \<and> w' = w" if "sint p \<le> 0 \<or> a = 0 \<or> buf = NULL \<or> n = 0"
    using assms(2) that by (simp add: remote_read_def)
  moreover have "case r of Inr bs \<Rightarrow> bs = mem_read (mem w p) a n | Inl e \<Rightarrow> True"
    using kernel_memory.remote_read_mem[OF assms] by (cases r) simp_all
  ultimately show ?thesis
    using kernel_memory.remote_read_mem[OF assms] by blast
qed

text \<open>
  C20: under the same laws \<open>remote_write\<close> of fewer than \<open>2 ^ 60\<close> bytes changes the target's memory to
  exactly the bytes given at the range given when it succeeds, leaves the bytes behind a short
  last word alone, and has written some prefix of the bytes when it fails.
\<close>

theorem remote_write_updates_memory:
  assumes "kernel_memory K mem" and "remote_write K p a (Some bs) w = (r, w')"
    and "length bs \<le> 2 ^ 60"
  shows "case r of
      Inr _ \<Rightarrow> mem w' p = mem_write (mem w p) a bs
    | Inl e \<Rightarrow> \<exists>k \<le> length bs. mem w' p = mem_write (mem w p) a (take k bs)"
  using kernel_memory.remote_write_mem[OF assms] by (cases r) auto

end
