(* ===== verification/Files.thy ===== *)
theory Files
  imports Kernel
begin

text \<open>
  What the resolvers rely on when they read files: the promises of \<^verbatim>\<open>open\<close>, \<^verbatim>\<open>fstat\<close>,
  \<^verbatim>\<open>read\<close>, \<^verbatim>\<open>lseek\<close> and \<^verbatim>\<open>close\<close> on regular files, as two interfaces: which descriptors are
  open, and what an open descriptor reads.
\<close>

section \<open>Reading leaves the rest alone\<close>

text \<open>
  A part \<open>f\<close> of the world that reading files does not change; \<open>file_access\<close> adds that opening and
  closing them does not either. What the resolvers leave alone follows once for all such parts.
\<close>

locale file_reads =
  fixes K :: "'w kernel"
    and f :: "'w \<Rightarrow> 'b"
  assumes fstat_keeps: "keeps f (sys_fstat_size K fd)"
    and read_keeps: "keeps f (sys_read K fd n)"
    and lseek_keeps: "keeps f (sys_lseek K fd off)"
    and malloc_keeps: "keeps f (c_malloc K n)"
    and fopen_keeps: "keeps f (c_fopen_r K path)"
    and fclose_keeps: "keeps f (c_fclose K fp)"
begin

lemmas keeps_reads = keeps fstat_keeps read_keeps lseek_keeps malloc_keeps fopen_keeps fclose_keeps

end

locale file_access = file_reads +
  assumes open_keeps: "keeps f (sys_open K path)"
    and close_keeps: "f (sys_close K fd w) = f w"

section \<open>Open descriptors\<close>

locale kernel_fds =
  fixes K :: "'w kernel"
    and fds :: "'w \<Rightarrow> nat set"
  assumes open_fds: "sys_open K path w = (r, w') \<Longrightarrow>
      (\<forall>fd. r = Inr fd \<longrightarrow> fd \<notin> fds w \<and> fds w' = insert fd (fds w)) \<and>
      (\<forall>e. r = Inl e \<longrightarrow> fds w' = fds w)"
    and close_fds: "fds (sys_close K fd w) = fds w - {fd}"
    and fstat_fds: "keeps fds (sys_fstat_size K fd)"
    and read_fds: "keeps fds (sys_read K fd n)"
    and lseek_fds: "keeps fds (sys_lseek K fd off)"
    and malloc_fds: "keeps fds (c_malloc K n)"
    and fopen_fds: "keeps fds (c_fopen_r K path)"
    and fclose_fds: "keeps fds (c_fclose K fp)"

text \<open>Run a computation and close the descriptor, whatever came of it.\<close>

definition closing :: "'w kernel \<Rightarrow> nat \<Rightarrow> ('w, 'a) est \<Rightarrow> ('w, 'a) est" where
  "closing K fd m w = (case m w of (r, w') \<Rightarrow> (r, sys_close K fd w'))"

lemma keeps_closing:
  "keeps f m \<Longrightarrow> (\<And>w. f (sys_close K fd w) = f w) \<Longrightarrow> keeps f (closing K fd m)"
  by (auto simp: keeps_def closing_def split: prod.split) (metis snd_conv)

sublocale kernel_fds \<subseteq> file_reads K fds
  by unfold_locales (rule fstat_fds read_fds lseek_fds malloc_fds fopen_fds fclose_fds)+

context file_access
begin

lemma closing_access: "keeps f m \<Longrightarrow> keeps f (closing K fd m)"
  by (rule keeps_closing) (simp_all add: close_keeps)

lemmas keeps_access = keeps_reads open_keeps closing_access

end

sublocale kernel_exec \<subseteq> view: file_access K "\<lambda>w. (mem w p, regs w p)" for p
  by unfold_locales (simp_all add: file_calls close_calls)

sublocale kernel_threads \<subseteq> st: file_access K stopped
  by unfold_locales (simp_all add: other_stopped close_stopped)

context kernel_fds
begin

lemma closing_fds:
  assumes "sys_open K path w = (Inr fd, w1)" and "keeps fds m" and "closing K fd m w1 = (r, w2)"
  shows "fds w2 = fds w"
  using assms open_fds[OF assms(1)] keepsD[OF assms(2)]
  by (auto simp: closing_def close_fds split: prod.splits)

end

section \<open>What descriptors read\<close>

text \<open>
  \<open>fstate w fd\<close> is the contents of the file behind an open descriptor and its position; a read
  returns the bytes there as far as the file goes.
\<close>

locale kernel_contents =
  fixes K :: "'w kernel"
    and fstate :: "'w \<Rightarrow> nat \<Rightarrow> (u8 list \<times> nat) option"
    and contents :: "'w \<Rightarrow> cstr \<Rightarrow> u8 list option"
  assumes open_contents: "sys_open K path w = (Inr fd, w') \<Longrightarrow>
      \<exists>bytes. contents w path = Some bytes \<and> length bytes < 2 ^ 64 \<and> fstate w' fd = Some (bytes, 0)"
    and fstat_contents: "fstate w fd = Some (bytes, pos) \<Longrightarrow> length bytes < 2 ^ 64 \<Longrightarrow>
      \<exists>w'. sys_fstat_size K fd w = (Inr (of_nat (length bytes)), w') \<and>
           fstate w' fd = Some (bytes, pos)"
    and read_contents: "fstate w fd = Some (bytes, pos) \<Longrightarrow>
      \<exists>w'. sys_read K fd n w = (Inr (take n (drop pos bytes)), w') \<and>
           fstate w' fd = Some (bytes, pos + length (take n (drop pos bytes)))"
    and lseek_contents: "fstate w fd = Some (bytes, pos) \<Longrightarrow>
      \<exists>w'. sys_lseek K fd off w = (if sint off < 0 then Inl EINVAL else Inr (), w') \<and>
           fstate w' fd = Some (bytes, if sint off < 0 then pos else unat off)"
    and malloc_contents: "\<exists>w'. c_malloc K n w = (Inr (), w') \<and> fstate w' fd = fstate w fd"

section \<open>Files that are written\<close>

text \<open>
  \<open>contents w path\<close> is the file at a path. One that was opened for writing, written once and
  closed without an error holds what was written.
\<close>

locale kernel_store =
  fixes K :: "'w kernel"
    and contents :: "'w \<Rightarrow> cstr \<Rightarrow> u8 list option"
  assumes stored: "c_fopen_w K path w = (Inr fp, w1) \<Longrightarrow> c_fwrite1 K fp bs w1 = (1, w2) \<Longrightarrow>
      c_fclose K fp w2 = (Inr u, w3) \<Longrightarrow> contents w3 path = Some bs"
    and loaded: "c_fopen_r K path w = (Inr (fp, bs), w1) \<Longrightarrow> contents w path = Some bs"
    and missing: "c_fopen_r K path w = (Inl ENOENT, w1) \<Longrightarrow> contents w path = None"

end
