(* ===== verification/Ref_Kernel.thy ===== *)
theory Ref_Kernel
  imports Remote_Mem Files "HOL-Library.AList"
begin

text \<open>
  A reference kernel: one stopped process whose threads share a memory, a register set, a list
  of files. It keeps every law stated of kernels in this development, so that the theorems
  with such a law as a hypothesis can be applied; with \<open>rw_vm\<close> unset it refuses
  \<^verbatim>\<open>process_vm_readv\<close> and \<^verbatim>\<open>process_vm_writev\<close>.
\<close>

record ref_world =
  rw_mem :: memory
  rw_regs :: user_regs
  rw_vm :: bool
  rw_brk :: u64
  rw_status :: u32
  rw_tasks :: "cstr list"
  rw_attached :: "pid_t list"
  rw_stopped :: "pid_t list"
  rw_gone :: "pid_t list"
  rw_files :: "(cstr \<times> u8 list) list"
  rw_fds :: "(nat \<times> u8 list \<times> nat) list"
  rw_out :: "(nat \<times> cstr) list"

definition EPERM :: errno where "EPERM = ERRNO 1"
definition EFBIG :: errno where "EFBIG = ERRNO 27"
definition ECHILD :: errno where "ECHILD = ERRNO 10"
definition EBADF :: errno where "EBADF = ERRNO 9"

text \<open>
  \<^verbatim>\<open>PTRACE_CONT\<close> on the bytes \<open>syscall; ret\<close> with the address of an \<open>int3\<close> on the stack: the
  system call (\<open>mmap\<close> takes the next free range, \<open>munmap\<close> succeeds), the return and the trap.
\<close>

definition ref_syscall :: "ref_world \<Rightarrow> ref_world" where
  "ref_syscall w =
     (let r = rw_regs w in
      if r_rax r = 9
      then w\<lparr>rw_regs := r\<lparr>r_rax := rw_brk w\<rparr>, rw_brk := rw_brk w + r_rsi r\<rparr>
      else if r_rax r = 11 then w\<lparr>rw_regs := r\<lparr>r_rax := 0\<rparr>\<rparr>
      else w\<lparr>rw_regs := r\<lparr>r_rax := - 38\<rparr>\<rparr>)"

definition ref_cont :: "pid_t \<Rightarrow> (ref_world, unit) est" where
  "ref_cont p w =
     (if mem_read (rw_mem w) (r_rip (rw_regs w)) 3 = [0x0F, 0x05, 0xC3] then
        let w1 = ref_syscall w;
            r = rw_regs w1;
            ret = le_word (mem_read (rw_mem w1) (r_rsp r) 8)
        in (Inr (), w1\<lparr>rw_regs := r\<lparr>r_rip := ret + 1, r_rsp := r_rsp r + 8\<rparr>,
                       rw_status := if rw_mem w1 ret = 0xCC then 0x057F else 0x0B7F\<rparr>)
      else (Inr (), w\<lparr>rw_status := 0x0B7F\<rparr>))"

definition ref_new_fd :: "ref_world \<Rightarrow> nat" where
  "ref_new_fd w = Suc (foldr max (map fst (rw_fds w)) 2)"

definition ref_open :: "cstr \<Rightarrow> (ref_world, nat) est" where
  "ref_open path w =
     (case map_of (rw_files w) path of
        None \<Rightarrow> (Inl ENOENT, w)
      | Some bytes \<Rightarrow>
          if unat (of_nat (length bytes) :: u64) \<noteq> length bytes then (Inl EFBIG, w)
          else let fd = ref_new_fd w
               in (Inr fd, w\<lparr>rw_fds := (fd, bytes, 0) # rw_fds w\<rparr>))"

definition ref_read :: "nat \<Rightarrow> nat \<Rightarrow> (ref_world, u8 list) est" where
  "ref_read fd n w =
     (case map_of (rw_fds w) fd of
        None \<Rightarrow> (Inl EBADF, w)
      | Some (bytes, off) \<Rightarrow>
          let bs = take n (drop off bytes)
          in (Inr bs, w\<lparr>rw_fds := AList.update fd (bytes, off + length bs) (rw_fds w)\<rparr>))"

definition ref_lseek :: "nat \<Rightarrow> u64 \<Rightarrow> (ref_world, unit) est" where
  "ref_lseek fd off w =
     (case map_of (rw_fds w) fd of
        None \<Rightarrow> (Inl EBADF, w)
      | Some (bytes, _) \<Rightarrow>
          if sint off < 0 then (Inl EINVAL, w)
          else (Inr (), w\<lparr>rw_fds := AList.update fd (bytes, unat off) (rw_fds w)\<rparr>))"

definition ref_fwrite :: "nat \<Rightarrow> u8 list \<Rightarrow> ref_world \<Rightarrow> nat \<times> ref_world" where
  "ref_fwrite fd bs w =
     (case map_of (rw_out w) fd of
        None \<Rightarrow> (0, w)
      | Some path \<Rightarrow>
          (1, w\<lparr>rw_files := AList.update path (the (map_of (rw_files w) path) @ bs) (rw_files w)\<rparr>))"

text \<open>
  A thread that is gone cannot be attached, one that is attached already is refused; the next
  \<^verbatim>\<open>waitpid\<close> on an attached thread reports its stop.
\<close>

definition ref_attach :: "pid_t \<Rightarrow> (ref_world, unit) est" where
  "ref_attach p w =
     (if p \<in> set (rw_gone w) then (Inl ESRCH, w)
      else if p \<in> set (rw_attached w) then (Inl EPERM, w)
      else (Inr (), w\<lparr>rw_attached := p # rw_attached w, rw_stopped := removeAll p (rw_stopped w),
                         rw_status := 0x137F\<rparr>))"

definition ref_detach :: "pid_t \<Rightarrow> (ref_world, unit) est" where
  "ref_detach p w =
     (if p \<in> set (rw_stopped w)
      then (Inr (), w\<lparr>rw_attached := removeAll p (rw_attached w),
                      rw_stopped := removeAll p (rw_stopped w)\<rparr>)
      else (Inl ESRCH, w))"

definition ref_waitpid :: "pid_t \<Rightarrow> (ref_world, u32) est" where
  "ref_waitpid p w =
     (if p \<in> set (rw_attached w)
      then (Inr (rw_status w),
            if WIFSTOPPED (rw_status w) then w\<lparr>rw_stopped := p # rw_stopped w\<rparr> else w)
      else (Inl ECHILD, w))"

definition ref_kernel :: "ref_world kernel" where
  "ref_kernel =
     \<lparr> process_vm_readv = (\<lambda>p a n w.
         if rw_vm w then (Inr (mem_read (rw_mem w) a n), w) else (Inl EPERM, w)),
       process_vm_writev = (\<lambda>p a bs w.
         if rw_vm w then (Inr (length bs), w\<lparr>rw_mem := mem_write (rw_mem w) a bs\<rparr>)
         else (Inl EPERM, w)),
       ptrace_peekdata = (\<lambda>p a w. (Inr (le_word (mem_read (rw_mem w) a 8)), w)),
       ptrace_pokedata = (\<lambda>p a v w. (Inr (), w\<lparr>rw_mem := mem_write (rw_mem w) a (le64 v)\<rparr>)),
       ptrace_getregs = (\<lambda>p w. (Inr (rw_regs w), w)),
       ptrace_setregs = (\<lambda>p r w. (Inr (), w\<lparr>rw_regs := r\<rparr>)),
       ptrace_cont = ref_cont,
       ptrace_attach = ref_attach,
       ptrace_detach = ref_detach,
       waitpid_wall = ref_waitpid,
       sys_opendir = (\<lambda>path w. (Inr (3, rw_tasks w), w)),
       sys_closedir = (\<lambda>d w. w),
       sys_open = ref_open,
       sys_fstat_size = (\<lambda>fd w.
         case map_of (rw_fds w) fd of
           None \<Rightarrow> (Inl EBADF, w)
         | Some (bytes, _) \<Rightarrow> (Inr (of_nat (length bytes)), w)),
       sys_read = ref_read,
       sys_lseek = ref_lseek,
       sys_close = (\<lambda>fd w. w\<lparr>rw_fds := AList.delete fd (rw_fds w)\<rparr>),
       c_malloc = (\<lambda>n w. (Inr (), w)),
       c_fopen_r = (\<lambda>path w.
         case map_of (rw_files w) path of
           None \<Rightarrow> (Inl ENOENT, w)
         | Some bytes \<Rightarrow> (Inr (1, bytes), w)),
       c_fopen_w = (\<lambda>path w.
         (Inr 2, w\<lparr>rw_files := AList.update path [] (rw_files w), rw_out := [(2, path)]\<rparr>)),
       c_fwrite1 = ref_fwrite,
       c_fclose = (\<lambda>f w. (Inr (), w)) \<rparr>"

interpretation ref: kernel_exec ref_kernel "\<lambda>w _. rw_mem w" "\<lambda>w _. rw_regs w" "{}"
  by unfold_locales
     (auto simp: ref_kernel_def ref_cont_def ref_syscall_def ref_attach_def ref_detach_def
        ref_waitpid_def ref_open_def ref_read_def ref_lseek_def ref_fwrite_def keeps_def Let_def
        split: if_splits option.splits)

interpretation ref_threads: kernel_threads ref_kernel "\<lambda>w. set (rw_stopped w) \<inter> set (rw_attached w)"
  by unfold_locales
     (auto simp: ref_kernel_def ref_cont_def ref_syscall_def ref_attach_def ref_detach_def
        ref_waitpid_def ref_open_def ref_read_def ref_lseek_def ref_fwrite_def keeps_def Let_def
        split: if_splits option.splits)

lemma ref_new_fd_fresh: "map_of (rw_fds w) (ref_new_fd w) = None"
proof -
  have "x \<in> set xs \<Longrightarrow> x \<le> foldr max xs (2::nat)" for x xs
    by (induction xs) auto
  then have "ref_new_fd w \<notin> fst ` set (rw_fds w)"
    unfolding ref_new_fd_def by (metis Suc_n_not_le_n list.set_map)
  then show ?thesis by (simp add: map_of_eq_None_iff)
qed

lemma ref_fd_effects:
  "keeps (\<lambda>w. dom (map_of (rw_fds w))) (ref_read fd n)"
  "keeps (\<lambda>w. dom (map_of (rw_fds w))) (ref_lseek fd off)"
  by (auto simp: keeps_def ref_read_def ref_lseek_def Let_def update_conv' split: option.splits)

interpretation ref_files: kernel_fds ref_kernel "\<lambda>w. dom (map_of (rw_fds w))"
proof
  fix path w r w'
  assume "sys_open ref_kernel path w = (r, w')"
  then show "(\<forall>fd. r = Inr fd \<longrightarrow> fd \<notin> dom (map_of (rw_fds w)) \<and>
        dom (map_of (rw_fds w')) = insert fd (dom (map_of (rw_fds w)))) \<and>
      (\<forall>e. r = Inl e \<longrightarrow> dom (map_of (rw_fds w')) = dom (map_of (rw_fds w)))"
    using ref_new_fd_fresh[of w]
    by (auto simp: ref_kernel_def ref_open_def Let_def split: option.splits if_splits)
qed (simp_all add: ref_kernel_def delete_conv' ref_fd_effects, auto simp: keeps_def split: option.split)

interpretation ref_contents: kernel_contents ref_kernel "\<lambda>w. map_of (rw_fds w)"
  "\<lambda>w. map_of (rw_files w)"
  by unfold_locales
     (auto simp: ref_kernel_def ref_open_def ref_read_def ref_lseek_def Let_def update_conv'
           unsigned_of_nat take_bit_nat_eq_self_iff split: option.splits if_splits)

interpretation ref_store: kernel_store ref_kernel "\<lambda>w. map_of (rw_files w)"
  by unfold_locales
     (auto simp: ref_kernel_def ref_fwrite_def update_conv' split: option.splits if_splits)

text \<open>A state to start from: empty memory, no files, \<^verbatim>\<open>mmap\<close> begins at \<open>0x10000000\<close>.\<close>

definition zero_regs :: user_regs where
  "zero_regs =
     \<lparr>r_r15 = 0, r_r14 = 0, r_r13 = 0, r_r12 = 0, r_rbp = 0, r_rbx = 0, r_r11 = 0, r_r10 = 0,
       r_r9 = 0, r_r8 = 0, r_rax = 0, r_rcx = 0, r_rdx = 0, r_rsi = 0, r_rdi = 0,
       r_orig_rax = 0, r_rip = 0, r_cs = 0, r_eflags = 0, r_rsp = 0, r_ss = 0, r_fs_base = 0,
       r_gs_base = 0, r_ds = 0, r_es = 0, r_fs = 0, r_gs = 0 \<rparr>"

definition ref_init :: ref_world where
  "ref_init =
     \<lparr> rw_mem = (\<lambda>_. 0), rw_regs = zero_regs, rw_vm = True, rw_brk = 0x10000000, rw_status = 0,
       rw_tasks = [], rw_attached = [], rw_stopped = [], rw_gone = [], rw_files = [], rw_fds = [], rw_out = [] \<rparr>"

section \<open>The transfers at work\<close>

text \<open>Without \<^verbatim>\<open>process_vm_readv\<close>, ten bytes take two words.\<close>

definition example_bytes :: "u8 list" where "example_bytes = [1, 2, 3, 4, 5, 6, 7, 8, 9, 10]"

definition no_vm :: ref_world where "no_vm = ref_init\<lparr>rw_vm := False\<rparr>"

lemma no_vm_write_ok: "fst (remote_write ref_kernel 7 0x1001 (Some example_bytes) no_vm) = Inr ()"
  by code_simp

lemma remote_write_updates_memory_witness:
  "rw_mem (snd (remote_write ref_kernel 7 0x1001 (Some example_bytes) no_vm)) =
     mem_write (rw_mem no_vm) 0x1001 example_bytes"
proof -
  have "remote_write ref_kernel 7 0x1001 (Some example_bytes) no_vm =
      (Inr (), snd (remote_write ref_kernel 7 0x1001 (Some example_bytes) no_vm))"
    by (simp add: prod_eq_iff no_vm_write_ok)
  from remote_write_updates_memory[OF ref.kernel_memory_axioms this] show ?thesis
    by (simp add: example_bytes_def)
qed

definition no_vm_written :: ref_world where
  "no_vm_written = no_vm\<lparr>rw_mem := mem_write (\<lambda>_. 0) 0x1001 example_bytes\<rparr>"

lemma remote_read_returns_memory_witness:
  "fst (remote_read ref_kernel 7 0x1001 OUT 10 no_vm_written) = Inr example_bytes \<and>
   mem_read (rw_mem no_vm_written) 0x1001 10 = example_bytes \<and>
   rw_mem (snd (remote_read ref_kernel 7 0x1001 OUT 10 no_vm_written)) = rw_mem no_vm_written"
proof -
  have ok: "fst (remote_read ref_kernel 7 0x1001 OUT 10 no_vm_written) = Inr example_bytes"
    by code_simp
  then have "remote_read ref_kernel 7 0x1001 OUT 10 no_vm_written =
      (Inr example_bytes, snd (remote_read ref_kernel 7 0x1001 OUT 10 no_vm_written))"
    by (simp add: prod_eq_iff)
  from remote_read_returns_memory[OF ref.kernel_memory_axioms this] ok show ?thesis by simp
qed

end
