(* ===== verification/Maps_Parser.thy ===== *)
theory Maps_Parser
  imports C_Strings Ref_Kernel
begin

text \<open>
  \<^verbatim>\<open>controller/maps_parser.c\<close>: the first line of \<^verbatim>\<open>/proc/<pid>/maps\<close> with file offset 0 whose
  path contains the library name. The library functions that the parser is made of
  (\<^verbatim>\<open>fgets\<close>, \<^verbatim>\<open>sscanf\<close>, \<^verbatim>\<open>strstr\<close>) are modelled on bytes, and the parser is proved to find
  the right mapping in every listing that the kernel prints.
\<close>

section \<open>The library functions\<close>

text \<open>\<^verbatim>\<open>fgets(line, n, fp)\<close>: the line read and what is left of the stream.\<close>

definition fgets :: "nat \<Rightarrow> u8 list \<Rightarrow> (u8 list \<times> u8 list) option" where
  "fgets n content =
     (if content = [] \<or> n \<le> 1 then None
      else let body = takeWhile (\<lambda>c. c \<noteq> 10) content;
               line = take (n - 1) (if length body < length content then body @ [10] else body)
           in Some (line, drop (length line) content))"

fun strstr :: "cstr \<Rightarrow> cstr \<Rightarrow> bool" where
  "strstr [] needle = prefix needle []"
| "strstr (c # cs) needle = (prefix needle (c # cs) \<or> strstr cs needle)"

lemma strstr_iff: "strstr hay needle \<longleftrightarrow> sublist needle hay"
  by (induction hay) (auto simp: sublist_Cons_right)

datatype directive = CX | CU | CS nat | LIT u8 | WS

datatype sval = VN u64 | VS cstr

text \<open>The values that \<^verbatim>\<open>sscanf\<close> stores; their number is its result.\<close>

fun sscanf :: "directive list \<Rightarrow> cstr \<Rightarrow> sval list" where
  "sscanf [] s = []"
| "sscanf (WS # fs) s = sscanf fs (dropWhile isspace s)"
| "sscanf (LIT c # fs) s =
     (case s of [] \<Rightarrow> [] | x # xs \<Rightarrow> if x = c then sscanf fs xs else [])"
| "sscanf (CX # fs) s =
     (case scan_number 16 s of None \<Rightarrow> [] | Some (x, s) \<Rightarrow> VN (ull_of x) # sscanf fs s)"
| "sscanf (CU # fs) s =
     (case scan_number 10 s of None \<Rightarrow> [] | Some (x, s) \<Rightarrow> VN (ull_of x) # sscanf fs s)"
| "sscanf (CS n # fs) s =
     (let s = dropWhile isspace s;
          t = take n (takeWhile (\<lambda>c. \<not> isspace c) s)
      in if t = [] then [] else VS t # sscanf fs (drop (length t) s))"

section \<open>The parser\<close>

definition maps_format :: "directive list" where
  "maps_format = [CX, LIT 45, CX, WS, CS 7, WS, CX, WS, CS 15, WS, CU, WS, CS 511]"

text \<open>Start, offset and path of a line when all seven conversions succeed.\<close>

definition sval_n :: "sval \<Rightarrow> u64" where "sval_n v = (case v of VN n \<Rightarrow> n | VS _ \<Rightarrow> 0)"
definition sval_s :: "sval \<Rightarrow> cstr" where "sval_s v = (case v of VN _ \<Rightarrow> [] | VS s \<Rightarrow> s)"

definition maps_fields :: "u8 list \<Rightarrow> (u64 \<times> u64 \<times> cstr) option" where
  "maps_fields line =
     (let vs = sscanf maps_format (cstr_of line) in
      if length vs < 7 then None else Some (sval_n (vs ! 0), sval_n (vs ! 3), sval_s (vs ! 6)))"

lemma fgets_shorter: "fgets n content = Some (line, rest) \<Longrightarrow> length rest < length content"
  by (cases content) (auto simp: fgets_def Let_def split: if_splits)

function maps_loop :: "cstr \<Rightarrow> u8 list \<Rightarrow> (u64 \<times> cstr) option" where
  "maps_loop lib_name content =
     (case fgets 1024 content of
        None \<Rightarrow> None
      | Some (line, rest) \<Rightarrow>
          (case maps_fields line of
             None \<Rightarrow> maps_loop lib_name rest
           | Some (start, offset, pathname) \<Rightarrow>
               if offset \<noteq> 0 then maps_loop lib_name rest
               else if \<not> strstr pathname lib_name then maps_loop lib_name rest
               else Some (start, pathname)))"
  by pat_completeness auto
termination
  by (relation "measure (\<lambda>(l, c). length c)") (auto dest: fgets_shorter)

declare maps_loop.simps [simp del]

definition maps_path :: "pid_t \<Rightarrow> cstr" where
  "maps_path pid = take 63 (ascii ''/proc/'' @ print_d pid @ ascii ''/maps'')"

text \<open>The result is the base and, when the caller passed a buffer, the string left in it.\<close>

definition find_library_base ::
    "'w kernel \<Rightarrow> pid_t \<Rightarrow> cstr option \<Rightarrow> out_ptr \<Rightarrow> out_ptr \<Rightarrow> nat \<Rightarrow> ('w, u64 \<times> cstr option) est"
where
  "find_library_base K pid lib_name base_out path_out path_len w =
     (case lib_name of
        None \<Rightarrow> (Inl EINVAL, w)
      | Some lib \<Rightarrow>
          if sint pid \<le> 0 \<or> base_out = NULL then (Inl EINVAL, w)
          else case c_fopen_r K (maps_path pid) w of
            (Inl e, w) \<Rightarrow> (Inl e, w)
          | (Inr (fp, content), w) \<Rightarrow>
              (case maps_loop lib content of
                 None \<Rightarrow> (Inl ENOENT, snd (c_fclose K fp w))
               | Some (start, pathname) \<Rightarrow>
                   (Inr (start,
                      if path_out \<noteq> NULL \<and> 0 < path_len
                      then Some (takeWhile (\<lambda>c. c \<noteq> 10) (take (path_len - 1) pathname))
                      else None),
                    snd (c_fclose K fp w))))"

definition lp_find_library_base ::
    "'w kernel \<Rightarrow> pid_t \<Rightarrow> cstr option \<Rightarrow> out_ptr \<Rightarrow> ('w, u64) est" where
  "lp_find_library_base K pid lib_name base_addr w =
     (if lib_name = None \<or> base_addr = NULL then (Inl EINVAL, w)
      else case find_library_base K pid lib_name base_addr OUT 512 w of
        (Inl e, w) \<Rightarrow> (Inl e, w)
      | (Inr (base, _), w) \<Rightarrow> (Inr base, w))"

section \<open>What the parser leaves alone\<close>

context file_reads
begin

lemma find_library_base_keeps: "keeps f (find_library_base K pid lib b p n)"
  by (rule keepsI)
     (auto simp: find_library_base_def keeps_snd[OF fclose_keeps]
        split: option.splits if_splits prod.splits sum.splits dest: keepsD[OF fopen_keeps])

end

section \<open>Listings as the kernel prints them\<close>

record map_entry =
  me_start :: nat
  me_end :: nat
  me_perms :: cstr
  me_offset :: nat
  me_dev :: cstr
  me_inode :: nat
  me_pad :: nat
  me_path :: cstr

text \<open>
  \<^verbatim>\<open>start-end perms offset dev inode\<close>, blanks and the path of a file mapping; numbers in
  hexadecimal with at least eight digits, the inode in decimal.
\<close>

definition print_hex8 :: "nat \<Rightarrow> cstr" where
  "print_hex8 n = replicate (8 - length (print_nat 16 n)) 48 @ print_nat 16 n"

definition print_entry_body :: "map_entry \<Rightarrow> cstr" where
  "print_entry_body e =
     print_hex8 (me_start e) @ [45] @ print_hex8 (me_end e) @ [32] @ me_perms e @ [32] @
     print_hex8 (me_offset e) @ [32] @ me_dev e @ [32] @ print_nat 10 (me_inode e) @ [32] @
     replicate (me_pad e) 32 @ me_path e"

definition print_entry :: "map_entry \<Rightarrow> cstr" where
  "print_entry e = print_entry_body e @ [10]"

definition word_chars :: "cstr \<Rightarrow> bool" where
  "word_chars s \<longleftrightarrow> (\<forall>c \<in> set s. \<not> isspace c \<and> c \<noteq> 0)"

definition wf_map_entry :: "map_entry \<Rightarrow> bool" where
  "wf_map_entry e \<longleftrightarrow>
     me_start e < 2 ^ 64 \<and> me_end e < 2 ^ 64 \<and> me_offset e < 2 ^ 64 \<and> me_inode e < 2 ^ 64 \<and>
     me_perms e \<noteq> [] \<and> length (me_perms e) \<le> 7 \<and> word_chars (me_perms e) \<and>
     me_dev e \<noteq> [] \<and> length (me_dev e) \<le> 15 \<and> word_chars (me_dev e) \<and>
     length (me_path e) \<le> 511 \<and> word_chars (me_path e) \<and>
     length (print_entry e) \<le> 1023"

text \<open>Which entry is the library: the first one with a path that contains the name, at offset 0.\<close>

definition is_library :: "cstr \<Rightarrow> map_entry \<Rightarrow> bool" where
  "is_library lib e \<longleftrightarrow> me_path e \<noteq> [] \<and> me_offset e = 0 \<and> sublist lib (me_path e)"

lemma scan_hex8:
  assumes "ends_number 16 rest" and "\<forall>c \<in> set sp. isspace c"
  shows "scan_number 16 (sp @ print_hex8 n @ rest) = Some ((False, n), rest)"
  using scan_number_print[of 16 rest sp "8 - length (print_nat 16 n)" n] assms
  by (simp add: print_hex8_def)

lemma ends_number_chars: "ends_number 16 (45 # r)" "ends_number 16 (32 # r)" "ends_number 10 (32 # r)"
  "ends_number 10 (10 # r)" "ends_number 16 (10 # r)"
  by (simp_all add: ends_number_def is_digit_def digit_val_def)

lemma isspace_chars: "isspace 32" "isspace 10" "\<not> isspace 45"
  by (simp_all add: isspace_def)

lemma scan_word:
  assumes "word_chars s" and "s \<noteq> []" and "length s \<le> n" and "isspace c"
    and "\<forall>c \<in> set sp. isspace c"
  shows "sscanf (CS n # fs) (sp @ s @ c # rest) = VS s # sscanf fs (c # rest)"
proof -
  obtain x xs where s: "s = x # xs" using assms(2) by (cases s) auto
  then have "\<not> isspace x" using assms(1) by (simp add: word_chars_def)
  then have "dropWhile isspace (sp @ s @ c # rest) = s @ c # rest"
    using assms(5) s by (simp add: dropWhile_append2)
  moreover have "takeWhile (\<lambda>c. \<not> isspace c) (s @ c # rest) = s"
    using assms(1,4) by (auto simp: word_chars_def takeWhile_append)
  moreover have "take n s = s" and "0 < n" using assms(2,3) by (cases s; simp)+
  ultimately show ?thesis using assms(2) by (simp add: Let_def)
qed

text \<open>White space before a conversion that skips it anyway.\<close>

lemma dropWhile_twice: "dropWhile P (dropWhile P xs) = dropWhile P xs"
  by (induction xs) auto

lemma sscanf_WS:
  "sscanf (WS # CS n # fs) s = sscanf (CS n # fs) s"
  "sscanf (WS # CX # fs) s = sscanf (CX # fs) s"
  "sscanf (WS # CU # fs) s = sscanf (CU # fs) s"
  by (simp_all add: dropWhile_twice scan_number_def)

lemma sscanf_LIT: "sscanf (LIT c # fs) (c # s) = sscanf fs s"
  by simp

text \<open>One conversion each, behind blanks and before a character that ends the field.\<close>

lemma sscanf_hex:
  assumes "n < 2 ^ 64" and "c = 45 \<or> c = 32" and "\<forall>c \<in> set sp. isspace c"
  shows "sscanf (CX # fs) (sp @ print_hex8 n @ c # rest) = VN (of_nat n) # sscanf fs (c # rest)"
  using scan_hex8[of "c # rest" sp n] assms ends_number_chars by (auto simp: ull_of_def)

lemma sscanf_dec:
  assumes "n < 2 ^ 64" and "\<forall>c \<in> set sp. isspace c"
  shows "sscanf (CU # fs) (sp @ print_nat 10 n @ 32 # rest) = VN (of_nat n) # sscanf fs (32 # rest)"
  using scan_number_print[of 10 "32 # rest" sp 0 n] assms ends_number_chars
  by (simp add: ull_of_def)

lemma sscanf_path:
  assumes "word_chars p" and "length p \<le> 511" and "\<forall>c \<in> set sp. isspace c"
  shows "sscanf [CS 511] (sp @ p @ [10]) = (if p = [] then [] else [VS p])"
proof (cases "p = []")
  case True
  then show ?thesis using assms(3) isspace_chars by (simp add: dropWhile_append2)
next
  case False
  then show ?thesis using scan_word[OF assms(1) False assms(2) isspace_chars(2) assms(3)] by simp
qed

text \<open>A printed line is read back field by field.\<close>

lemma sscanf_entry:
  assumes "wf_map_entry e"
  shows "sscanf maps_format (print_entry e) =
     [VN (of_nat (me_start e)), VN (of_nat (me_end e)), VS (me_perms e),
      VN (of_nat (me_offset e)), VS (me_dev e), VN (of_nat (me_inode e))] @
     (if me_path e = [] then [] else [VS (me_path e)])"
proof -
  note wf = assms[unfolded wf_map_entry_def]
  define r1 where "r1 = replicate (me_pad e) 32 @ me_path e @ [10]"
  define r2 where "r2 = print_nat 10 (me_inode e) @ 32 # r1"
  define r3 where "r3 = me_dev e @ 32 # r2"
  define r4 where "r4 = print_hex8 (me_offset e) @ 32 # r3"
  define r5 where "r5 = me_perms e @ 32 # r4"
  define r6 where "r6 = print_hex8 (me_end e) @ 32 # r5"
  have str: "print_entry e = print_hex8 (me_start e) @ 45 # r6"
    by (simp add: print_entry_def print_entry_body_def r1_def r2_def r3_def r4_def r5_def r6_def)
  have 1: "sscanf [CS 511] (32 # r1) = (if me_path e = [] then [] else [VS (me_path e)])"
    using sscanf_path[of "me_path e" "32 # replicate (me_pad e) 32"] wf
    by (simp add: r1_def isspace_chars)
  have 2: "sscanf (CU # fs) (32 # r2) = VN (of_nat (me_inode e)) # sscanf fs (32 # r1)" for fs
    using sscanf_dec[of "me_inode e" "[32]" fs r1] wf by (simp add: r2_def isspace_chars)
  have 3: "sscanf (CS 15 # fs) (32 # r3) = VS (me_dev e) # sscanf fs (32 # r2)" for fs
    using scan_word[of "me_dev e" 15 32 "[32]" fs r2] wf by (simp add: r3_def isspace_chars)
  have 4: "sscanf (CX # fs) (32 # r4) = VN (of_nat (me_offset e)) # sscanf fs (32 # r3)" for fs
    using sscanf_hex[of "me_offset e" 32 "[32]" fs r3] wf by (simp add: r4_def isspace_chars)
  have 5: "sscanf (CS 7 # fs) (32 # r5) = VS (me_perms e) # sscanf fs (32 # r4)" for fs
    using scan_word[of "me_perms e" 7 32 "[32]" fs r4] wf by (simp add: r5_def isspace_chars)
  have 6: "sscanf (CX # fs) r6 = VN (of_nat (me_end e)) # sscanf fs (32 # r5)" for fs
    using sscanf_hex[of "me_end e" 32 "[]" fs r5] wf by (simp add: r6_def)
  have 7: "sscanf (CX # fs) (print_entry e) = VN (of_nat (me_start e)) # sscanf fs (45 # r6)" for fs
    using sscanf_hex[of "me_start e" 45 "[]" fs r6] wf by (simp add: str)
  show ?thesis
    unfolding maps_format_def sscanf_WS 7
    unfolding sscanf_LIT 6 sscanf_WS 5 4 3 2 1
    by simp
qed

lemma print_chars:
  "c \<in> set (print_hex8 n) \<Longrightarrow> c \<noteq> 10 \<and> c \<noteq> 0"
  "c \<in> set (print_nat 10 n) \<Longrightarrow> c \<noteq> 10 \<and> c \<noteq> 0"
proof -
  have "is_digit 16 c \<or> is_digit 10 c \<Longrightarrow> c \<noteq> 10 \<and> c \<noteq> 0"
    by (auto simp: is_digit_def digit_val_def)
  then show "c \<in> set (print_hex8 n) \<Longrightarrow> c \<noteq> 10 \<and> c \<noteq> 0"
    and "c \<in> set (print_nat 10 n) \<Longrightarrow> c \<noteq> 10 \<and> c \<noteq> 0"
    using print_nat_digits[of 16 c n] print_nat_digits[of 10 c n]
    by (auto simp: print_hex8_def split: if_splits)
qed

lemma entry_body_chars:
  assumes "wf_map_entry e" and "c \<in> set (print_entry_body e)"
  shows "c \<noteq> 10 \<and> c \<noteq> 0"
proof -
  have word: "word_chars s \<Longrightarrow> c \<in> set s \<Longrightarrow> c \<noteq> 10 \<and> c \<noteq> 0" for s
    using isspace_chars by (auto simp: word_chars_def)
  from assms show ?thesis
    unfolding print_entry_body_def wf_map_entry_def
    using print_chars word by (auto split: if_splits)
qed

lemma fgets_entry:
  assumes "wf_map_entry e"
  shows "fgets 1024 (print_entry e @ rest) = Some (print_entry e, rest)"
proof -
  have "takeWhile (\<lambda>c. c \<noteq> 10) (print_entry_body e @ 10 # rest) = print_entry_body e"
    using entry_body_chars[OF assms] by (subst takeWhile_append2) auto
  moreover have "length (print_entry_body e) < 1023"
    using assms by (simp add: wf_map_entry_def print_entry_def)
  ultimately show ?thesis
    by (simp add: fgets_def print_entry_def Let_def)
qed

lemma maps_fields_entry:
  assumes "wf_map_entry e"
  shows "maps_fields (print_entry e) =
     (if me_path e = [] then None
      else Some (of_nat (me_start e), of_nat (me_offset e), me_path e))"
proof -
  have "cstr_of (print_entry e) = print_entry e"
    using entry_body_chars[OF assms] by (simp add: cstr_of_def print_entry_def)
  then show ?thesis
    by (simp add: maps_fields_def sscanf_entry[OF assms] sval_n_def sval_s_def)
qed

lemma maps_loop_print:
  "\<forall>e \<in> set es. wf_map_entry e \<Longrightarrow>
   maps_loop lib (concat (map print_entry es)) =
     map_option (\<lambda>e. (of_nat (me_start e), me_path e)) (find (is_library lib) es)"
proof (induction es)
  case Nil
  show ?case by (subst maps_loop.simps) (simp add: fgets_def)
next
  case (Cons e es)
  have zero: "(of_nat (me_offset e) = (0 :: u64)) = (me_offset e = 0)"
    using Cons.prems of_nat64_inject[of "me_offset e" 0] by (simp add: wf_map_entry_def)
  show ?case
    using Cons fgets_entry[of e] maps_fields_entry[of e] is_library_def[of lib e]
    by (subst maps_loop.simps) (auto simp: strstr_iff zero)
qed

lemma find_library_base_listing:
  assumes "\<forall>e \<in> set es. wf_map_entry e" and "0 < sint pid"
    and "c_fopen_r K (maps_path pid) w = (Inr (fp, concat (map print_entry es)), w1)"
  shows "find_library_base K pid (Some lib) OUT OUT 512 w =
     (case find (is_library lib) es of
        None \<Rightarrow> Inl ENOENT
      | Some e \<Rightarrow> Inr (of_nat (me_start e), Some (me_path e)),
      snd (c_fclose K fp w1))"
proof -
  have "takeWhile (\<lambda>c. c \<noteq> 10) (take 511 (me_path e)) = me_path e" if "e \<in> set es" for e
  proof -
    have "wf_map_entry e" using assms(1) that by simp
    then have "length (me_path e) \<le> 511" and "\<forall>c \<in> set (me_path e). c \<noteq> 10"
      using isspace_chars by (auto simp: wf_map_entry_def word_chars_def)
    then show ?thesis by simp
  qed
  moreover have "e \<in> set es" if "find (is_library lib) es = Some e" for e
    using that by (auto simp: find_Some_iff)
  ultimately show ?thesis
    using assms(2,3) maps_loop_print[OF assms(1), of lib]
    by (simp add: find_library_base_def split: option.split)
qed


definition example_maps :: "map_entry list" where
  "example_maps =
     [\<lparr> me_start = 0x400000, me_end = 0x401000, me_perms = ascii ''r-xp'', me_offset = 0,
        me_dev = ascii ''08:01'', me_inode = 77, me_pad = 26, me_path = ascii ''/bin/app'' \<rparr>,
      \<lparr> me_start = 0x602000, me_end = 0x623000, me_perms = ascii ''rw-p'', me_offset = 0,
        me_dev = ascii ''00:00'', me_inode = 0, me_pad = 0, me_path = [] \<rparr>,
      \<lparr> me_start = 0x700000, me_end = 0x728000, me_perms = ascii ''r--p'', me_offset = 0,
        me_dev = ascii ''08:01'', me_inode = 1234, me_pad = 20, me_path = ascii ''/lib/libc.so.6'' \<rparr>,
      \<lparr> me_start = 0x728000, me_end = 0x8B0000, me_perms = ascii ''r-xp'',
        me_offset = 0x28000, me_dev = ascii ''08:01'', me_inode = 1234, me_pad = 20,
        me_path = ascii ''/lib/libc.so.6'' \<rparr>]"

definition example_maps_world :: ref_world where
  "example_maps_world = ref_init\<lparr>rw_files := [(maps_path 42, concat (map print_entry example_maps))]\<rparr>"

lemma example_maps_wf: "\<forall>e \<in> set example_maps. wf_map_entry e"
proof -
  have chars: "word_chars (ascii ''/bin/app'')" "word_chars (ascii ''/lib/libc.so.6'')"
    "word_chars (ascii ''08:01'')" "word_chars (ascii ''00:00'')" "word_chars (ascii ''r-xp'')"
    "word_chars (ascii ''rw-p'')" "word_chars (ascii ''r--p'')"
    by code_simp+
  have "list_all wf_map_entry example_maps"
    unfolding example_maps_def list.pred_inject using chars
    by (simp add: example_maps_def wf_map_entry_def print_entry_def print_entry_body_def
          print_hex8_def print_nat.simps length_ascii) (simp add: word_chars_def ascii_def)
  then show ?thesis by (simp add: list_all_iff)
qed

lemma example_maps_hit: "find (is_library (ascii ''libc.so'')) example_maps = Some (example_maps ! 2)"
proof -
  have "\<not> strstr (ascii ''/bin/app'') (ascii ''libc.so'')"
    and "strstr (ascii ''/lib/libc.so.6'') (ascii ''libc.so'')"
    and "ascii ''/lib/libc.so.6'' \<noteq> []"
    by code_simp+
  then show ?thesis
    by (simp add: example_maps_def is_library_def strstr_iff[symmetric] del: strstr.simps)
qed

lemma example_maps_values:
  "of_nat (me_start (example_maps ! 2)) = (0x700000 :: u64)"
  "me_path (example_maps ! 2) = ascii ''/lib/libc.so.6''"
  by (simp_all add: example_maps_def)

lemma example_maps_find:
  assumes "map_of (rw_files w) (maps_path 42) = Some (concat (map print_entry example_maps))"
  shows "find_library_base ref_kernel 42 (Some (ascii ''libc.so'')) OUT OUT 512 w =
     (Inr (0x700000, Some (ascii ''/lib/libc.so.6'')), w)"
proof -
  have "c_fopen_r ref_kernel (maps_path 42) w = (Inr (1, concat (map print_entry example_maps)), w)"
    using assms by (simp add: ref_kernel_def)
  from find_library_base_listing[OF example_maps_wf _ this, of "ascii ''libc.so''"] show ?thesis
    by (simp add: example_maps_hit example_maps_values ref_kernel_def)
qed


end
