(* ===== verification/Gadget_Finder.thy ===== *)
theory Gadget_Finder
  imports Maps_Parser Files
begin

text \<open>
  \<^verbatim>\<open>controller/gadget_finder.c\<close>: the address in the target of the first occurrence of a byte
  pattern in a mapped file.
\<close>

section \<open>The search\<close>

text \<open>The loop over the offsets; \<open>memcmp\<close> compares \<open>pattern_len\<close> bytes at \<open>buf + i\<close>.\<close>

function gadget_scan :: "u8 list \<Rightarrow> u8 list \<Rightarrow> nat \<Rightarrow> nat option" where
  "gadget_scan pattern buf i =
     (if i + length pattern \<le> length buf then
        if take (length pattern) (drop i buf) = pattern then Some i
        else gadget_scan pattern buf (i + 1)
      else None)"
  by pat_completeness auto
termination
  by (relation "measure (\<lambda>(p, b, i). Suc (length b) - i)") auto

declare gadget_scan.simps [simp del]

definition occurs_at :: "u8 list \<Rightarrow> u8 list \<Rightarrow> nat \<Rightarrow> bool" where
  "occurs_at pattern buf i \<longleftrightarrow>
     i + length pattern \<le> length buf \<and> take (length pattern) (drop i buf) = pattern"

lemma le_split: "i \<le> j \<longleftrightarrow> j = i \<or> i + 1 \<le> (j :: nat)"
  by auto

lemma gadget_scan_step:
  "occurs_at p buf i \<Longrightarrow> gadget_scan p buf i = Some i"
  "\<not> occurs_at p buf i \<Longrightarrow> i + length p \<le> length buf \<Longrightarrow>
     gadget_scan p buf i = gadget_scan p buf (i + 1)"
  "\<not> i + length p \<le> length buf \<Longrightarrow> gadget_scan p buf i = None"
  by (subst gadget_scan.simps, simp add: occurs_at_def)+

lemma no_late_occurrence: "\<not> i + length p \<le> length buf \<Longrightarrow> i \<le> j \<Longrightarrow> \<not> occurs_at p buf j"
  by (simp add: occurs_at_def)

text \<open>The search returns the least offset of an occurrence.\<close>

lemma gadget_scan_least:
  "case gadget_scan p buf i of
     None \<Rightarrow> \<forall>j. i \<le> j \<longrightarrow> \<not> occurs_at p buf j
   | Some k \<Rightarrow> i \<le> k \<and> occurs_at p buf k \<and> (\<forall>j. i \<le> j \<and> j < k \<longrightarrow> \<not> occurs_at p buf j)"
proof (induction p buf i rule: gadget_scan.induct)
  case (1 p buf i)
  consider "occurs_at p buf i" | "\<not> occurs_at p buf i" "i + length p \<le> length buf"
    | "\<not> i + length p \<le> length buf" by blast
  then show ?case
  proof cases
    case 1
    then show ?thesis by (auto simp: gadget_scan_step(1))
  next
    case 2
    then have "take (length p) (drop i buf) \<noteq> p" by (simp add: occurs_at_def)
    with 2 "1.IH" have "case gadget_scan p buf (i + 1) of
        None \<Rightarrow> \<forall>j. i + 1 \<le> j \<longrightarrow> \<not> occurs_at p buf j
      | Some k \<Rightarrow> i + 1 \<le> k \<and> occurs_at p buf k \<and>
          (\<forall>j. i + 1 \<le> j \<and> j < k \<longrightarrow> \<not> occurs_at p buf j)" by blast
    then show ?thesis
      unfolding gadget_scan_step(2)[OF 2] using 2(1) le_split[of i]
      by (cases "gadget_scan p buf (i + 1)") (simp_all, blast+)
  next
    case 3
    then show ?thesis by (simp add: gadget_scan_step(3) no_late_occurrence)
  qed
qed

section \<open>The functions\<close>

text \<open>What happens between \<^verbatim>\<open>open\<close> and \<^verbatim>\<open>close\<close>.\<close>

definition gadget_in_file :: "'w kernel \<Rightarrow> u8 list \<Rightarrow> nat \<Rightarrow> ('w, u64) est" where
  "gadget_in_file K pat fd =
     bindE (sys_fstat_size K fd) (\<lambda>st_size.
     bindE (c_malloc K (unat st_size)) (\<lambda>_.
     bindE (sys_read K fd (unat st_size)) (\<lambda>buf.
     if length buf \<noteq> unat st_size then raiseE E_STALE
     else if unat st_size < length pat then raiseE ENOENT
     else case gadget_scan pat buf 0 of None \<Rightarrow> raiseE ENOENT | Some i \<Rightarrow> retE (of_nat i))))"

definition find_gadget_offset ::
    "'w kernel \<Rightarrow> cstr option \<Rightarrow> u8 list option \<Rightarrow> out_ptr \<Rightarrow> ('w, u64) est" where
  "find_gadget_offset K elf_path pattern offset_out =
     (case (elf_path, pattern) of
        (Some path, Some pat) \<Rightarrow>
          if length pat = 0 \<or> offset_out = NULL then raiseE EINVAL
          else bindE (sys_open K path) (\<lambda>fd. closing K fd (gadget_in_file K pat fd))
      | _ \<Rightarrow> raiseE EINVAL)"

definition resolve_gadget_runtime ::
    "'w kernel \<Rightarrow> pid_t \<Rightarrow> cstr option \<Rightarrow> u8 list option \<Rightarrow> out_ptr \<Rightarrow> ('w, u64) est" where
  "resolve_gadget_runtime K pid module_name pattern runtime_addr =
     (if sint pid \<le> 0 \<or> module_name = None \<or> pattern = None \<or> pattern = Some [] \<or>
         runtime_addr = NULL
      then raiseE EINVAL
      else bindE (find_library_base K pid module_name OUT OUT 512) (\<lambda>(base, path).
           bindE (find_gadget_offset K path pattern OUT) (\<lambda>offset.
           retE (base + offset))))"

section \<open>What the search finds\<close>

lemma gadget_scan_LEAST:
  "gadget_scan pat buf 0 =
     (if \<exists>i. occurs_at pat buf i then Some (LEAST i. occurs_at pat buf i) else None)"
proof (cases "gadget_scan pat buf 0")
  case None
  then show ?thesis using gadget_scan_least[where p = pat and buf = buf and i = 0] by auto
next
  case (Some k)
  then have "occurs_at pat buf k" and "\<forall>j < k. \<not> occurs_at pat buf j"
    using gadget_scan_least[where p = pat and buf = buf and i = 0] by auto
  then have "(LEAST i. occurs_at pat buf i) = k"
    by (intro Least_equality) (auto simp: not_less[symmetric])
  with Some \<open>occurs_at pat buf k\<close> show ?thesis by auto
qed

context kernel_contents
begin

lemma find_gadget_result:
  assumes "sys_open K path w = (Inr fd, w1)" and "contents w path = Some bytes" and "pat \<noteq> []"
  shows "fst (find_gadget_offset K (Some path) (Some pat) OUT w) =
     (if \<exists>i. occurs_at pat bytes i then Inr (of_nat (LEAST i. occurs_at pat bytes i))
      else Inl ENOENT)"
proof -
  have len: "length bytes < 2 ^ 64" and st1: "fstate w1 fd = Some (bytes, 0)"
    using open_contents[OF assms(1)] assms(2) by auto
  obtain w2 where fstat: "sys_fstat_size K fd w1 = (Inr (of_nat (length bytes)), w2)"
    and st2: "fstate w2 fd = Some (bytes, 0)"
    using fstat_contents[OF st1 len] by blast
  have size: "unat (of_nat (length bytes) :: u64) = length bytes"
    using len by (intro unat_of_nat64) simp
  obtain w3 where malloc: "c_malloc K (length bytes) w2 = (Inr (), w3)"
    and st3: "fstate w3 fd = Some (bytes, 0)"
    using malloc_contents[of "length bytes" w2 fd] st2 by auto
  obtain w4 where read: "sys_read K fd (length bytes) w3 = (Inr bytes, w4)"
    using read_contents[OF st3, of "length bytes"] by auto
  have short: "\<not> occurs_at pat bytes i" if "length bytes < length pat" for i
    using that by (simp add: occurs_at_def)
  show ?thesis
    using assms(1,3) fstat size malloc read short
    by (auto simp: find_gadget_offset_def gadget_in_file_def closing_def est_defs gadget_scan_LEAST)
qed

end

context file_reads
begin

lemma gadget_in_file_keeps: "keeps f (gadget_in_file K pat fd)"
  unfolding gadget_in_file_def by (intro keeps_reads)

end

context file_access
begin

lemma resolve_gadget_keeps: "keeps f (resolve_gadget_runtime K pid lib pat out)"
  unfolding resolve_gadget_runtime_def find_gadget_offset_def
  by (intro keeps_access find_library_base_keeps gadget_in_file_keeps)

end

context kernel_fds
begin

lemma find_gadget_fds: "keeps fds (find_gadget_offset K elf_path pattern offset_out)"
proof (rule keepsI)
  fix w r w'
  assume "find_gadget_offset K elf_path pattern offset_out w = (r, w')"
  then show "fds w' = fds w"
    by (cases r) (auto simp: find_gadget_offset_def bindE_eq raiseE_def split: option.splits if_splits
             dest: open_fds closing_fds[OF _ gadget_in_file_keeps])
qed

end

text \<open>
  C24: over a file that reads as its contents, \<open>find_gadget_offset\<close> returns the least offset at
  which the pattern occurs, and fails with \<open>ENOENT\<close> exactly when it occurs nowhere (a file shorter
  than the pattern included).
\<close>

theorem find_gadget_first_occurrence:
  assumes "kernel_contents K fstate contents" and "pat \<noteq> []"
    and "sys_open K path w = (Inr fd, w1)" and "contents w path = Some bytes"
  shows "fst (find_gadget_offset K (Some path) (Some pat) OUT w) =
     (if \<exists>i. occurs_at pat bytes i then Inr (of_nat (LEAST i. occurs_at pat bytes i))
      else Inl ENOENT)"
  using kernel_contents.find_gadget_result[OF assms(1,3,4,2)] .

definition example_gadget_world :: ref_world where
  "example_gadget_world = ref_init\<lparr>rw_files := [([0x61], [0x90, 0x0F, 0x05, 0xC3, 0x0F, 0x05])]\<rparr>"

lemma find_gadget_first_occurrence_witness:
  "fst (find_gadget_offset ref_kernel (Some [0x61]) (Some [0x0F, 0x05]) OUT example_gadget_world) =
     Inr 1"
proof -
  let ?bytes = "[0x90, 0x0F, 0x05, 0xC3, 0x0F, 0x05] :: u8 list"
  have op: "sys_open ref_kernel [0x61] example_gadget_world =
      (Inr 3, snd (ref_open [0x61] example_gadget_world))"
    by (simp add: ref_kernel_def ref_open_def example_gadget_world_def ref_init_def ref_new_fd_def)
  have "gadget_scan [0x0F, 0x05] ?bytes 0 = Some 1" by code_simp
  then have "\<exists>i. occurs_at [0x0F, 0x05] ?bytes i" and "(LEAST i. occurs_at [0x0F, 0x05] ?bytes i) = 1"
    unfolding gadget_scan_LEAST by (auto split: if_splits)
  then show ?thesis
    by (subst find_gadget_first_occurrence[OF ref_contents.kernel_contents_axioms _ op, of _ ?bytes])
       (auto simp: example_gadget_world_def)
qed

end
