(* ===== verification/Elf_Resolver.thy ===== *)
theory Elf_Resolver
  imports Gadget_Finder
begin

text \<open>
  \<^verbatim>\<open>controller/elf_resolver.c\<close>: the address of a symbol from the section headers and symbol tables
  of an ELF file. The file is bytes and the header fields are read at their offsets in
  \<^verbatim>\<open>elf.h\<close>; an access past an allocated table is \<open>UNDEFINED\<close>.
\<close>

section \<open>ELF structures\<close>

definition field :: "nat \<Rightarrow> nat \<Rightarrow> u8 list \<Rightarrow> 'a::len word" where
  "field n off bs = le_word (take n (drop off bs))"

definition e_shoff :: "u8 list \<Rightarrow> u64" where "e_shoff h = field 8 40 h"
definition e_shentsize :: "u8 list \<Rightarrow> u16" where "e_shentsize h = field 2 58 h"
definition e_shnum :: "u8 list \<Rightarrow> u16" where "e_shnum h = field 2 60 h"
definition e_shstrndx :: "u8 list \<Rightarrow> u16" where "e_shstrndx h = field 2 62 h"

definition sh_type :: "u8 list \<Rightarrow> u32" where "sh_type h = field 4 4 h"
definition sh_offset :: "u8 list \<Rightarrow> u64" where "sh_offset h = field 8 24 h"
definition sh_size :: "u8 list \<Rightarrow> u64" where "sh_size h = field 8 32 h"
definition sh_link :: "u8 list \<Rightarrow> u32" where "sh_link h = field 4 40 h"

definition st_name :: "u8 list \<Rightarrow> u32" where "st_name s = field 4 0 s"
definition st_value :: "u8 list \<Rightarrow> u64" where "st_value s = field 8 8 s"

definition sizeof_Elf64_Ehdr :: nat where "sizeof_Elf64_Ehdr = 64"
definition sizeof_Elf64_Shdr :: nat where "sizeof_Elf64_Shdr = 64"
definition sizeof_Elf64_Sym :: nat where "sizeof_Elf64_Sym = 24"

lemmas elf_sizes = sizeof_Elf64_Ehdr_def sizeof_Elf64_Shdr_def sizeof_Elf64_Sym_def

definition SHT_SYMTAB :: u32 where "SHT_SYMTAB = 2"
definition SHT_DYNSYM :: u32 where "SHT_DYNSYM = 11"
definition ELFMAG :: "u8 list" where "ELFMAG = [0x7F, 0x45, 0x4C, 0x46]"

text \<open>\<open>shdrs[i]\<close>, \<open>symbols[j]\<close>.\<close>

definition shdr_at :: "u8 list \<Rightarrow> nat \<Rightarrow> errno + u8 list" where
  "shdr_at shdrs i =
     (if i * sizeof_Elf64_Shdr + sizeof_Elf64_Shdr \<le> length shdrs
      then Inr (take sizeof_Elf64_Shdr (drop (i * sizeof_Elf64_Shdr) shdrs))
      else Inl UNDEFINED)"

definition sym_at :: "u8 list \<Rightarrow> nat \<Rightarrow> u8 list" where
  "sym_at symbols j = take sizeof_Elf64_Sym (drop (j * sizeof_Elf64_Sym) symbols)"

text \<open>\<^verbatim>\<open>strcmp(p, name) == 0\<close> for a pointer into a buffer of which \<open>bs\<close> is what lies behind it.\<close>

fun c_strcmp_eq :: "u8 list \<Rightarrow> cstr \<Rightarrow> errno + bool" where
  "c_strcmp_eq [] name = Inl UNDEFINED"
| "c_strcmp_eq (b # bs) [] = Inr (b = 0)"
| "c_strcmp_eq (b # bs) (c # cs) = (if b = c then c_strcmp_eq bs cs else Inr False)"

section \<open>The resolver\<close>

text \<open>\<^verbatim>\<open>read(fd, buf, n) != n\<close> is a failure; a short read leaves \<^verbatim>\<open>errno\<close> as it was.\<close>

definition read_exact :: "'w kernel \<Rightarrow> nat \<Rightarrow> nat \<Rightarrow> ('w, u8 list) est" where
  "read_exact K fd n =
     bindE (sys_read K fd n) (\<lambda>bs. if length bs \<noteq> n then raiseE E_STALE else retE bs)"

text \<open>Allocate, seek and read the contents of a section.\<close>

definition load_section :: "'w kernel \<Rightarrow> nat \<Rightarrow> u8 list \<Rightarrow> ('w, u8 list) est" where
  "load_section K fd hdr =
     bindE (c_malloc K (unat (sh_size hdr))) (\<lambda>_.
     bindE (sys_lseek K fd (sh_offset hdr)) (\<lambda>_.
     read_exact K fd (unat (sh_size hdr))))"

text \<open>A failure inside the section loop is a \<^verbatim>\<open>continue\<close>.\<close>

definition attempt :: "('w, 'a) est \<Rightarrow> ('w, 'a option) est" where
  "attempt m w = (case m w of (Inl e, w) \<Rightarrow> (Inr None, w) | (Inr x, w) \<Rightarrow> (Inr (Some x), w))"

function symbol_loop ::
    "u8 list \<Rightarrow> u8 list \<Rightarrow> cstr \<Rightarrow> int \<Rightarrow> nat \<Rightarrow> errno + u64 option" where
  "symbol_loop symbols strtab symbol_name sym_count j =
     (if int j < sym_count then
        bindR (c_strcmp_eq (drop (unat (st_name (sym_at symbols j))) strtab) symbol_name) (\<lambda>eq.
        if eq then Inr (Some (st_value (sym_at symbols j)))
        else symbol_loop symbols strtab symbol_name sym_count (j + 1))
      else Inr None)"
  by pat_completeness auto
termination
  by (relation "measure (\<lambda>(s, t, n, c, j). nat (c - int j))") auto

declare symbol_loop.simps [simp del]

definition sym_count :: "u8 list \<Rightarrow> int" where
  "sym_count hdr = sint (ucast (sh_size hdr div of_nat sizeof_Elf64_Sym) :: u32)"

text \<open>One round of the section loop: the value of the symbol, or nothing.\<close>

definition section_step ::
    "'w kernel \<Rightarrow> nat \<Rightarrow> u8 list \<Rightarrow> cstr \<Rightarrow> nat \<Rightarrow> ('w, u64 option) est" where
  "section_step K fd shdrs symbol_name i =
     bindE (liftE (shdr_at shdrs i)) (\<lambda>symtab_hdr.
     if sh_type symtab_hdr \<noteq> SHT_DYNSYM \<and> sh_type symtab_hdr \<noteq> SHT_SYMTAB then retE None
     else
       bindE (liftE (shdr_at shdrs (unat (sh_link symtab_hdr)))) (\<lambda>strtab_hdr.
       bindE (attempt (load_section K fd strtab_hdr)) (\<lambda>t.
       case t of
         None \<Rightarrow> retE None
       | Some strtab \<Rightarrow>
           bindE (attempt (load_section K fd symtab_hdr)) (\<lambda>s.
           case s of
             None \<Rightarrow> retE None
           | Some symbols \<Rightarrow>
               liftE (symbol_loop symbols strtab symbol_name (sym_count symtab_hdr) 0)))))"

primrec section_loop ::
    "'w kernel \<Rightarrow> nat \<Rightarrow> u8 list \<Rightarrow> cstr \<Rightarrow> u64 \<Rightarrow> nat list \<Rightarrow> ('w, u64) est" where
  "section_loop K fd shdrs symbol_name base_addr [] = raiseE ENOENT"
| "section_loop K fd shdrs symbol_name base_addr (i # is) =
     bindE (section_step K fd shdrs symbol_name i) (\<lambda>r.
     case r of
       None \<Rightarrow> section_loop K fd shdrs symbol_name base_addr is
     | Some v \<Rightarrow> retE (base_addr + v))"

definition resolve_in_file :: "'w kernel \<Rightarrow> nat \<Rightarrow> cstr \<Rightarrow> u64 \<Rightarrow> ('w, u64) est" where
  "resolve_in_file K fd symbol_name base_addr =
     bindE (read_exact K fd sizeof_Elf64_Ehdr) (\<lambda>ehdr.
     if take 4 ehdr \<noteq> ELFMAG then raiseE ENOENT
     else
       let n = unat (e_shentsize ehdr) * unat (e_shnum ehdr) in
       if 2 ^ 31 \<le> n then raiseE UNDEFINED
       else
         bindE (c_malloc K n) (\<lambda>_.
         bindE (sys_lseek K fd (e_shoff ehdr)) (\<lambda>_.
         bindE (read_exact K fd n) (\<lambda>shdrs.
         bindE (liftE (shdr_at shdrs (unat (e_shstrndx ehdr)))) (\<lambda>shstr.
         bindE (load_section K fd shstr) (\<lambda>_.
         section_loop K fd shdrs symbol_name base_addr [0..<unat (e_shnum ehdr)]))))))"

definition resolve_symbol :: "'w kernel \<Rightarrow> cstr \<Rightarrow> cstr \<Rightarrow> u64 \<Rightarrow> ('w, u64) est" where
  "resolve_symbol K elf_path symbol_name base_addr =
     bindE (sys_open K elf_path) (\<lambda>fd.
     closing K fd (resolve_in_file K fd symbol_name base_addr))"

definition lp_resolve_symbol ::
    "'w kernel \<Rightarrow> pid_t \<Rightarrow> cstr option \<Rightarrow> cstr option \<Rightarrow> out_ptr \<Rightarrow> ('w, u64) est" where
  "lp_resolve_symbol K pid lib_name symbol_name runtime_addr =
     (case (lib_name, symbol_name) of
        (Some lib, Some name) \<Rightarrow>
          if runtime_addr = NULL then raiseE EINVAL
          else bindE (find_library_base K pid (Some lib) OUT OUT 512) (\<lambda>(base_addr, path).
               resolve_symbol K (the path) name base_addr)
      | _ \<Rightarrow> raiseE EINVAL)"

section \<open>No descriptor is leaked\<close>

lemma attempt_keeps: "keeps f m \<Longrightarrow> keeps f (attempt m)"
  by (auto simp: keeps_def attempt_def split: prod.split sum.split) (metis snd_conv)+

context file_reads
begin

lemma load_section_keeps: "keeps f (load_section K fd hdr)"
  unfolding load_section_def read_exact_def by (intro keeps_reads)

lemma section_loop_keeps: "keeps f (section_loop K fd shdrs name base is)"
proof (induction "is")
  case (Cons i "is")
  have "keeps f (section_step K fd shdrs name i)"
    unfolding section_step_def by (intro keeps_reads attempt_keeps load_section_keeps)
  with Cons show ?case by (auto intro!: keeps_reads)
qed (auto intro: keeps_reads)

lemma resolve_in_file_keeps: "keeps f (resolve_in_file K fd name base)"
  unfolding resolve_in_file_def read_exact_def
  by (intro keeps_reads load_section_keeps section_loop_keeps)

end

context file_access
begin

lemma lp_resolve_symbol_keeps: "keeps f (lp_resolve_symbol K pid lib s out)"
  unfolding lp_resolve_symbol_def resolve_symbol_def
  by (auto intro!: keeps_access find_library_base_keeps resolve_in_file_keeps
      split: option.split prod.split)

end

context kernel_fds
begin

lemma resolve_symbol_fds: "keeps fds (resolve_symbol K path name base)"
proof (rule keepsI)
  fix w r w'
  assume "resolve_symbol K path name base w = (r, w')"
  then show "fds w' = fds w"
    unfolding resolve_symbol_def
    by (cases r) (auto simp: bindE_eq dest: open_fds closing_fds[OF _ resolve_in_file_keeps])
qed

lemma resolvers_fds:
  "keeps fds (lp_resolve_symbol K pid lib s out)"
  "keeps fds (resolve_gadget_runtime K pid lib pat out)"
  unfolding lp_resolve_symbol_def resolve_gadget_runtime_def
  by (auto intro!: keeps_reads find_library_base_keeps resolve_symbol_fds find_gadget_fds
      split: option.split prod.split)

end

section \<open>The symbols of a file\<close>

text \<open>
  The reference: the symbols of the symbol tables of a file, section by section, each as its
  name and value; \<open>wf_elf\<close> is what makes the tables of a file consistent.
\<close>

definition section_bytes :: "u8 list \<Rightarrow> u8 list \<Rightarrow> u8 list option" where
  "section_bytes bytes hdr =
     (let n = unat (sh_size hdr); b = take n (drop (unat (sh_offset hdr)) bytes)
      in if sint (sh_offset hdr) < 0 \<or> length b \<noteq> n then None else Some b)"

definition is_symtab :: "u8 list \<Rightarrow> bool" where
  "is_symtab hdr \<longleftrightarrow> sh_type hdr = SHT_DYNSYM \<or> sh_type hdr = SHT_SYMTAB"

definition shdr :: "u8 list \<Rightarrow> nat \<Rightarrow> u8 list" where
  "shdr shdrs i = take sizeof_Elf64_Shdr (drop (i * sizeof_Elf64_Shdr) shdrs)"

definition sym_name :: "u8 list \<Rightarrow> u8 list \<Rightarrow> nat \<Rightarrow> u8 list" where
  "sym_name symbols strtab j = drop (unat (st_name (sym_at symbols j))) strtab"

definition section_symbols :: "u8 list \<Rightarrow> u8 list \<Rightarrow> nat \<Rightarrow> (cstr \<times> u64) list" where
  "section_symbols bytes shdrs i =
     (let hdr = shdr shdrs i in
      if \<not> is_symtab hdr then []
      else case section_bytes bytes (shdr shdrs (unat (sh_link hdr))) of
             None \<Rightarrow> []
           | Some strtab \<Rightarrow>
               (case section_bytes bytes hdr of
                  None \<Rightarrow> []
                | Some symbols \<Rightarrow>
                    map (\<lambda>j. (cstr_of (sym_name symbols strtab j), st_value (sym_at symbols j)))
                      [0..<nat (sym_count hdr)]))"

definition elf_shdrs :: "u8 list \<Rightarrow> u8 list" where
  "elf_shdrs bytes =
     take (unat (e_shentsize bytes) * unat (e_shnum bytes)) (drop (unat (e_shoff bytes)) bytes)"

definition elf_symbols :: "u8 list \<Rightarrow> (cstr \<times> u64) list" where
  "elf_symbols bytes =
     concat (map (section_symbols bytes (elf_shdrs bytes)) [0..<unat (e_shnum bytes)])"

definition wf_section :: "u8 list \<Rightarrow> u8 list \<Rightarrow> nat \<Rightarrow> bool" where
  "wf_section bytes shdrs i \<longleftrightarrow>
     (i + 1) * sizeof_Elf64_Shdr \<le> length shdrs \<and>
     (is_symtab (shdr shdrs i) \<longrightarrow>
        (unat (sh_link (shdr shdrs i)) + 1) * sizeof_Elf64_Shdr \<le> length shdrs \<and>
        (case (section_bytes bytes (shdr shdrs (unat (sh_link (shdr shdrs i)))),
               section_bytes bytes (shdr shdrs i)) of
           (Some strtab, Some symbols) \<Rightarrow>
             list_all (\<lambda>j. 0 \<in> set (sym_name symbols strtab j))
               [0..<nat (sym_count (shdr shdrs i))]
         | _ \<Rightarrow> True))"

definition wf_elf :: "u8 list \<Rightarrow> bool" where
  "wf_elf bytes \<longleftrightarrow>
     sizeof_Elf64_Ehdr \<le> length bytes \<and> take 4 bytes = ELFMAG \<and>
     unat (e_shentsize bytes) * unat (e_shnum bytes) < 2 ^ 31 \<and> 0 \<le> sint (e_shoff bytes) \<and>
     unat (e_shoff bytes) + unat (e_shentsize bytes) * unat (e_shnum bytes) \<le> length bytes \<and>
     (unat (e_shstrndx bytes) + 1) * sizeof_Elf64_Shdr \<le> length (elf_shdrs bytes) \<and>
     section_bytes bytes (shdr (elf_shdrs bytes) (unat (e_shstrndx bytes))) \<noteq> None \<and>
     (\<forall>i < unat (e_shnum bytes). wf_section bytes (elf_shdrs bytes) i)"

lemma c_strcmp_eq_terminated:
  "0 \<in> set bs \<Longrightarrow> 0 \<notin> set name \<Longrightarrow> c_strcmp_eq bs name = Inr (cstr_of bs = name)"
  by (induction bs name rule: c_strcmp_eq.induct) (auto simp: cstr_of_def)

lemma find_map_upt:
  "j < n \<Longrightarrow> find P (map f [j..<n]) = (if P (f j) then Some (f j) else find P (map f [Suc j..<n]))"
  by (simp add: upt_conv_Cons)

lemma symbol_loop_find:
  assumes "\<forall>j < nat count. 0 \<in> set (sym_name symbols strtab j)" and "0 \<notin> set name"
  shows "symbol_loop symbols strtab name count j =
     Inr (map_option snd (find (\<lambda>s. fst s = name)
       (map (\<lambda>j. (cstr_of (sym_name symbols strtab j), st_value (sym_at symbols j)))
          [j..<nat count])))"
proof (induction "nat count - j" arbitrary: j)
  case 0
  then show ?case by (subst symbol_loop.simps) auto
next
  case (Suc k)
  then have j: "j < nat count" "int j < count" by linarith+
  have "c_strcmp_eq (sym_name symbols strtab j) name =
        Inr (cstr_of (sym_name symbols strtab j) = name)"
    using assms j by (intro c_strcmp_eq_terminated) auto
  with Suc j show ?case
    by (subst symbol_loop.simps) (auto simp: sym_name_def find_map_upt)
qed

lemma find_append:
  "find P (xs @ ys) = (case find P xs of None \<Rightarrow> find P ys | Some x \<Rightarrow> Some x)"
  by (induction xs) auto

lemma shdr_at_eq:
  "(i + 1) * sizeof_Elf64_Shdr \<le> length shdrs \<Longrightarrow> shdr_at shdrs i = Inr (shdr shdrs i)"
  by (simp add: shdr_at_def shdr_def)

context kernel_contents
begin

lemma read_exact_contents:
  assumes "fstate w fd = Some (bytes, pos)"
  shows "\<exists>w' pos'. fstate w' fd = Some (bytes, pos') \<and>
     read_exact K fd n w =
       (if length (take n (drop pos bytes)) = n then Inr (take n (drop pos bytes)) else Inl E_STALE, w')"
  using read_contents[OF assms, of n] by (auto simp: read_exact_def est_defs)

lemma load_section_contents:
  assumes "fstate w fd = Some (bytes, pos)"
  shows "\<exists>w' pos' e. fstate w' fd = Some (bytes, pos') \<and>
     load_section K fd hdr w =
       (case section_bytes bytes hdr of None \<Rightarrow> Inl e | Some b \<Rightarrow> Inr b, w')"
proof -
  obtain w1 where 1: "c_malloc K (unat (sh_size hdr)) w = (Inr (), w1)" "fstate w1 fd = Some (bytes, pos)"
    using malloc_contents[of "unat (sh_size hdr)" w fd] assms by auto
  obtain w2 where 2: "sys_lseek K fd (sh_offset hdr) w1 =
        (if sint (sh_offset hdr) < 0 then Inl EINVAL else Inr (), w2)"
      "fstate w2 fd = Some (bytes, if sint (sh_offset hdr) < 0 then pos else unat (sh_offset hdr))"
    using lseek_contents[OF 1(2)] by blast
  show ?thesis
  proof (cases "sint (sh_offset hdr) < 0")
    case True
    with 1 2 show ?thesis by (auto simp: load_section_def section_bytes_def est_defs)
  next
    case False
    with 2 obtain w3 pos' where 3: "fstate w3 fd = Some (bytes, pos')"
      "read_exact K fd (unat (sh_size hdr)) w2 =
        (if length (take (unat (sh_size hdr)) (drop (unat (sh_offset hdr)) bytes)) = unat (sh_size hdr)
         then Inr (take (unat (sh_size hdr)) (drop (unat (sh_offset hdr)) bytes)) else Inl E_STALE, w3)"
      using read_exact_contents[of w2 fd bytes "unat (sh_offset hdr)" "unat (sh_size hdr)"] by auto
    with 1 2 False show ?thesis
      by (auto simp: load_section_def section_bytes_def est_defs Let_def)
  qed
qed

lemma attempt_load_contents:
  assumes "fstate w fd = Some (bytes, pos)"
  shows "\<exists>w' pos'. fstate w' fd = Some (bytes, pos') \<and>
     attempt (load_section K fd hdr) w = (Inr (section_bytes bytes hdr), w')"
  using load_section_contents[OF assms, of hdr] by (auto simp: attempt_def split: option.splits)

lemma section_step_contents:
  assumes "fstate w fd = Some (bytes, pos)" and wf: "wf_section bytes shdrs i" and "0 \<notin> set name"
  shows "\<exists>w' pos'. fstate w' fd = Some (bytes, pos') \<and>
     section_step K fd shdrs name i w =
       (Inr (map_option snd (find (\<lambda>s. fst s = name) (section_symbols bytes shdrs i))), w')"
proof (cases "is_symtab (shdr shdrs i)")
  case False
  then show ?thesis
    using assms shdr_at_eq[of i shdrs]
    by (auto simp: section_step_def section_symbols_def wf_section_def is_symtab_def est_defs)
next
  case True
  let ?link = "shdr shdrs (unat (sh_link (shdr shdrs i)))"
  have hdrs: "shdr_at shdrs i = Inr (shdr shdrs i)"
    "shdr_at shdrs (unat (sh_link (shdr shdrs i))) = Inr ?link"
    using wf True by (auto simp: wf_section_def intro!: shdr_at_eq)
  obtain w1 p1 where 1: "fstate w1 fd = Some (bytes, p1)"
    "attempt (load_section K fd ?link) w = (Inr (section_bytes bytes ?link), w1)"
    using attempt_load_contents[OF assms(1)] by blast
  obtain w2 p2 where 2: "fstate w2 fd = Some (bytes, p2)"
    "attempt (load_section K fd (shdr shdrs i)) w1 = (Inr (section_bytes bytes (shdr shdrs i)), w2)"
    using attempt_load_contents[OF 1(1)] by blast
  have loop: "symbol_loop symbols strtab name (sym_count (shdr shdrs i)) 0 =
      Inr (map_option snd (find (\<lambda>s. fst s = name) (section_symbols bytes shdrs i)))"
    if "section_bytes bytes ?link = Some strtab" "section_bytes bytes (shdr shdrs i) = Some symbols"
    for strtab symbols
  proof -
    have "\<forall>j < nat (sym_count (shdr shdrs i)). 0 \<in> set (sym_name symbols strtab j)"
      using wf True that by (simp add: wf_section_def list_all_iff)
    from symbol_loop_find[OF this assms(3)] show ?thesis
      using True that by (simp add: section_symbols_def)
  qed
  have step: "section_step K fd shdrs name i w =
      (case section_bytes bytes ?link of
         None \<Rightarrow> (Inr None, w1)
       | Some strtab \<Rightarrow>
           (case section_bytes bytes (shdr shdrs i) of
              None \<Rightarrow> (Inr None, w2)
            | Some symbols \<Rightarrow>
                (symbol_loop symbols strtab name (sym_count (shdr shdrs i)) 0, w2)))"
    using True hdrs 1(2) 2(2)
    by (auto simp: section_step_def is_symtab_def bindE_def liftE_def retE_def split: option.split)
  show ?thesis
    using loop 1(1) 2(1) True unfolding step
    by (cases "section_bytes bytes ?link"; cases "section_bytes bytes (shdr shdrs i)")
       (auto simp: section_symbols_def)
qed

lemma section_loop_contents:
  assumes "fstate w fd = Some (bytes, pos)" and "\<forall>i \<in> set is. wf_section bytes shdrs i"
    and "0 \<notin> set name"
  shows "fst (section_loop K fd shdrs name base is w) =
     (case find (\<lambda>s. fst s = name) (concat (map (section_symbols bytes shdrs) is)) of
        None \<Rightarrow> Inl ENOENT
      | Some s \<Rightarrow> Inr (base + snd s))"
  using assms
proof (induction "is" arbitrary: w pos)
  case Nil
  then show ?case by (simp add: raiseE_def)
next
  case (Cons i "is")
  obtain w1 p1 where 1: "fstate w1 fd = Some (bytes, p1)" "section_step K fd shdrs name i w =
       (Inr (map_option snd (find (\<lambda>s. fst s = name) (section_symbols bytes shdrs i))), w1)"
    using section_step_contents[OF Cons.prems(1) _ Cons.prems(3), of shdrs i] Cons.prems(2) by auto
  show ?case
    using 1 Cons.IH[OF 1(1)] Cons.prems
    by (cases "find (\<lambda>s. fst s = name) (section_symbols bytes shdrs i)")
       (simp_all add: bindE_def retE_def find_append)
qed

lemma resolve_in_file_contents:
  assumes st: "fstate w fd = Some (bytes, 0)" and wf: "wf_elf bytes" and "0 \<notin> set name"
  shows "fst (resolve_in_file K fd name base w) =
     (case find (\<lambda>s. fst s = name) (elf_symbols bytes) of
        None \<Rightarrow> Inl ENOENT
      | Some s \<Rightarrow> Inr (base + snd s))"
proof -
  note elf = wf[unfolded wf_elf_def elf_sizes]
  define ehdr where "ehdr = take 64 bytes"
  define n where "n = unat (e_shentsize bytes) * unat (e_shnum bytes)"
  have fields: "e_shentsize ehdr = e_shentsize bytes" "e_shnum ehdr = e_shnum bytes"
    "e_shoff ehdr = e_shoff bytes" "e_shstrndx ehdr = e_shstrndx bytes"
    by (simp_all add: ehdr_def e_shentsize_def e_shnum_def e_shoff_def e_shstrndx_def field_def
          drop_take min_def)
  have magic: "take 4 ehdr = ELFMAG" using elf by (simp add: ehdr_def min_def)
  obtain w1 p1 where 1: "fstate w1 fd = Some (bytes, p1)"
    "read_exact K fd sizeof_Elf64_Ehdr w = (Inr ehdr, w1)"
    using read_exact_contents[OF st, of 64] elf by (auto simp: ehdr_def elf_sizes)
  obtain w2 where 2: "c_malloc K n w1 = (Inr (), w2)" "fstate w2 fd = Some (bytes, p1)"
    using malloc_contents[of n w1 fd] 1(1) by auto
  obtain w3 where 3: "sys_lseek K fd (e_shoff bytes) w2 = (Inr (), w3)"
    "fstate w3 fd = Some (bytes, unat (e_shoff bytes))"
    using lseek_contents[OF 2(2), of "e_shoff bytes"] elf by auto
  have le: "unat (e_shoff bytes) + n \<le> length bytes" using elf by (simp add: n_def)
  have shdrs: "elf_shdrs bytes = take n (drop (unat (e_shoff bytes)) bytes)" "length (elf_shdrs bytes) = n"
    using le by (auto simp: elf_shdrs_def simp flip: n_def)
  obtain w4 p4 where 4: "fstate w4 fd = Some (bytes, p4)"
    "read_exact K fd n w3 = (Inr (elf_shdrs bytes), w4)"
    using read_exact_contents[OF 3(2), of n] shdrs by auto
  have str: "shdr_at (elf_shdrs bytes) (unat (e_shstrndx bytes)) =
      Inr (shdr (elf_shdrs bytes) (unat (e_shstrndx bytes)))"
    using wf by (intro shdr_at_eq) (simp add: wf_elf_def)
  obtain w5 p5 where 5: "fstate w5 fd = Some (bytes, p5)"
    "\<exists>b. load_section K fd (shdr (elf_shdrs bytes) (unat (e_shstrndx bytes))) w4 = (Inr b, w5)"
    using load_section_contents[OF 4(1), of "shdr (elf_shdrs bytes) (unat (e_shstrndx bytes))"] elf
    by auto
  have "\<forall>i \<in> set [0..<unat (e_shnum bytes)]. wf_section bytes (elf_shdrs bytes) i"
    using elf by simp
  then show ?thesis
    using 1(2) 2(1) 3(1) 4(2) 5(2) str magic elf section_loop_contents[OF 5(1) _ assms(3)]
    by (auto simp: resolve_in_file_def bindE_def liftE_def fields n_def[symmetric] elf_symbols_def Let_def)
qed

end

text \<open>
  C22: on a well-formed ELF file, \<open>resolve_symbol\<close> returns the load base plus the value of the
  first symbol with the given name, in the order of the symbol tables and of the symbols in
  them, and fails with \<open>ENOENT\<close> exactly when the file has no such symbol.
\<close>

theorem resolve_symbol_first_match:
  assumes "kernel_contents K fstate contents" and "sys_open K path w = (Inr fd, w1)"
    and "contents w path = Some bytes" and "wf_elf bytes" and "0 \<notin> set name"
  shows "fst (resolve_symbol K path name base w) =
     (case find (\<lambda>s. fst s = name) (elf_symbols bytes) of
        None \<Rightarrow> Inl ENOENT
      | Some s \<Rightarrow> Inr (base + snd s))"
proof -
  have "fstate w1 fd = Some (bytes, 0)"
    using kernel_contents.open_contents[OF assms(1,2)] assms(3) by auto
  from kernel_contents.resolve_in_file_contents[OF assms(1) this assms(4,5), of base] show ?thesis
    using assms(2) by (auto simp: resolve_symbol_def bindE_def closing_def split: prod.split)
qed



text \<open>A file with a string table and one symbol table that holds \<open>puts\<close> at \<open>0x1234\<close>.\<close>

definition example_shdr :: "u32 \<Rightarrow> u64 \<Rightarrow> u64 \<Rightarrow> u32 \<Rightarrow> u8 list" where
  "example_shdr ty off sz lnk =
     le32 0 @ le32 ty @ replicate 16 0 @ le64 off @ le64 sz @ le32 lnk @ replicate 20 0"

definition example_elf :: "u8 list" where
  "example_elf =
     ELFMAG @ replicate 36 0 @ le64 64 @ replicate 10 0 @ [64, 0, 2, 0, 0, 0] @
     example_shdr 3 192 6 0 @ example_shdr 2 198 48 0 @
     [0, 0x70, 0x75, 0x74, 0x73, 0] @ replicate 24 0 @
     (le32 1 @ [0, 0, 0, 0] @ le64 0x1234 @ le64 0)"

definition example_elf_world :: ref_world where
  "example_elf_world = ref_init\<lparr>rw_files := [([0x61], example_elf)]\<rparr>"

lemma example_elf_fields:
  "e_shentsize example_elf = 64" "e_shnum example_elf = 2" "e_shoff example_elf = 64"
  "e_shstrndx example_elf = 0" "take 4 example_elf = ELFMAG" "length example_elf = 246"
  by code_simp+

lemma example_elf_sections:
  "length (elf_shdrs example_elf) = 128"
  "section_bytes example_elf (shdr (elf_shdrs example_elf) 0) = Some [0, 0x70, 0x75, 0x74, 0x73, 0]"
  "list_all (wf_section example_elf (elf_shdrs example_elf)) [0, 1]"
  by code_simp+

lemma wf_example_elf: "wf_elf example_elf"
proof -
  have "i < 2 \<Longrightarrow> i = 0 \<or> i = (1::nat)" for i by auto
  then have "\<forall>i < 2. wf_section example_elf (elf_shdrs example_elf) i"
    using example_elf_sections(3) by auto
  then show ?thesis
    by (simp add: wf_elf_def example_elf_fields example_elf_sections elf_sizes)
qed

lemma resolve_symbol_first_match_witness:
  "fst (resolve_symbol ref_kernel [0x61] [0x70, 0x75, 0x74, 0x73] 0x7F0000000000 example_elf_world) =
     Inr 0x7F0000001234"
proof -
  define w1 where "w1 = snd (ref_open [0x61] example_elf_world)"
  have op: "sys_open ref_kernel [0x61] example_elf_world = (Inr 3, w1)"
    by (simp add: ref_kernel_def w1_def ref_open_def example_elf_world_def ref_init_def
          ref_new_fd_def example_elf_fields(6))
  have "elf_symbols example_elf = [([], 0), ([0x70, 0x75, 0x74, 0x73], 0x1234)]"
    by code_simp
  then show ?thesis
    by (subst resolve_symbol_first_match[OF ref_contents.kernel_contents_axioms op _ wf_example_elf])
       (simp_all add: example_elf_world_def)
qed

end
