(* ===== verification/Slots.thy ===== *)
theory Slots
  imports Main
begin

text \<open>
  Tables of slots: a list whose used entries carry distinct keys implements a map from keys to
  entries. Replacing a slot is then an update of the map, filling a free slot an insertion,
  freeing a slot a deletion.
\<close>

definition slot_map :: "('d \<Rightarrow> bool) \<Rightarrow> ('d \<Rightarrow> 'k) \<Rightarrow> 'd list \<Rightarrow> 'k \<rightharpoonup> 'd" where
  "slot_map used key t = map_of (map (\<lambda>d. (key d, d)) (filter used t))"

definition slots_unique :: "('d \<Rightarrow> bool) \<Rightarrow> ('d \<Rightarrow> 'k) \<Rightarrow> 'd list \<Rightarrow> bool" where
  "slots_unique used key t \<longleftrightarrow>
     (\<forall>i < length t. \<forall>j < length t.
        used (t ! i) \<and> used (t ! j) \<and> key (t ! i) = key (t ! j) \<longrightarrow> i = j)"

text \<open>The index of the first entry that satisfies \<open>P\<close>, counted from \<open>i\<close>.\<close>

fun first_slot :: "('d \<Rightarrow> bool) \<Rightarrow> nat \<Rightarrow> 'd list \<Rightarrow> nat option" where
  "first_slot P i [] = None"
| "first_slot P i (d # ds) = (if P d then Some i else first_slot P (Suc i) ds)"

lemma first_slot_None: "first_slot P i ds = None \<longleftrightarrow> (\<forall>d \<in> set ds. \<not> P d)"
  by (induction ds arbitrary: i) auto

lemma first_slot_Some:
  "first_slot P i ds = Some j \<Longrightarrow> i \<le> j \<and> j < i + length ds \<and> P (ds ! (j - i))"
  by (induction ds arbitrary: i) (fastforce simp: nth_Cons' split: if_splits)+

lemma first_slot_nth: "first_slot P 0 ds = Some j \<Longrightarrow> j < length ds \<and> P (ds ! j)"
  using first_slot_Some[of P 0 ds j] by simp

locale slots =
  fixes used :: "'d \<Rightarrow> bool"
    and key :: "'d \<Rightarrow> 'k"
    and free :: 'd
  assumes not_used_free: "\<not> used free"
begin

abbreviation smap :: "'d list \<Rightarrow> 'k \<rightharpoonup> 'd" where "smap \<equiv> slot_map used key"
abbreviation uniq :: "'d list \<Rightarrow> bool" where "uniq \<equiv> slots_unique used key"

lemma smap_Some:
  assumes "uniq t"
  shows "smap t k = Some d \<longleftrightarrow> (\<exists>i < length t. t ! i = d \<and> used d \<and> key d = k)" (is "_ \<longleftrightarrow> ?R")
proof
  assume "smap t k = Some d"
  then show ?R unfolding slot_map_def by (auto dest!: map_of_SomeD simp: in_set_conv_nth)
next
  assume ?R
  then obtain i where i: "i < length t" "t ! i = d" "used d" "key d = k" by blast
  then have "d \<in> set (filter used t)" by auto
  then have "k \<in> dom (smap t)"
    unfolding slot_map_def dom_map_of_conv_image_fst using i(4) by (auto simp: image_image)
  then obtain d' where d': "smap t k = Some d'" by blast
  then obtain j where j: "j < length t" "t ! j = d'" "used d'" "key d' = k"
    unfolding slot_map_def by (auto dest!: map_of_SomeD simp: in_set_conv_nth)
  have "i = j"
    using assms i j by (auto simp: slots_unique_def)
  with d' i j show "smap t k = Some d" by simp
qed

lemma smap_nth: "uniq t \<Longrightarrow> i < length t \<Longrightarrow> used (t ! i) \<Longrightarrow> smap t (key (t ! i)) = Some (t ! i)"
  by (auto simp: smap_Some)

lemma smap_None:
  "uniq t \<Longrightarrow> smap t k = None \<longleftrightarrow> (\<forall>i < length t. \<not> (used (t ! i) \<and> key (t ! i) = k))"
  by (metis not_Some_eq smap_Some)

text \<open>What the key does not tell apart from the slot it goes to keeps the keys unique.\<close>

lemma uniq_update:
  assumes "uniq t" and "i < length t" and "used d \<Longrightarrow> smap t (key d) \<noteq> None \<Longrightarrow> used (t ! i) \<and> key (t ! i) = key d"
  shows "uniq (t[i := d])"
  unfolding slots_unique_def
proof (intro allI impI)
  fix j k
  assume j: "j < length (t[i := d])" and k: "k < length (t[i := d])"
    and same: "used (t[i := d] ! j) \<and> used (t[i := d] ! k) \<and> key (t[i := d] ! j) = key (t[i := d] ! k)"
  have other: "l = i" if "l < length t" "used (t ! l)" "used d" "key (t ! l) = key d" for l
  proof -
    have "smap t (key d) \<noteq> None" using that assms(1) by (auto simp: smap_None)
    with assms that show "l = i" unfolding slots_unique_def by metis
  qed
  show "j = k"
  proof (cases "j = i \<or> k = i")
    case True
    with j k same other assms(2) show ?thesis by (auto simp: nth_list_update split: if_splits)
  next
    case False
    with j k same assms(1) show ?thesis by (auto simp: slots_unique_def)
  qed
qed

lemma smap_update:
  assumes "uniq t" and "i < length t" and "uniq (t[i := d])"
  shows "smap (t[i := d]) k =
    (if used d \<and> k = key d then Some d else if used (t ! i) \<and> k = key (t ! i) then None else smap t k)"
proof -
  have "smap (t[i := d]) k = Some e \<longleftrightarrow>
      (if used d \<and> k = key d then Some d else if used (t ! i) \<and> k = key (t ! i) then None
       else smap t k) = Some e" (is "_ \<longleftrightarrow> ?R = Some e") for e
  proof -
    have "smap (t[i := d]) k = Some e \<longleftrightarrow>
        (\<exists>j < length t. t[i := d] ! j = e \<and> used e \<and> key e = k)"
      using smap_Some[OF assms(3), of k e] by simp
    also have "\<dots> \<longleftrightarrow> (d = e \<and> used e \<and> key e = k) \<or> (\<exists>j < length t. j \<noteq> i \<and> t ! j = e \<and> used e \<and> key e = k)"
      using assms(2) by (auto simp: nth_list_update)
    also have "\<dots> \<longleftrightarrow> ?R = Some e"
    proof (cases "used d \<and> k = key d")
      case True
      have "j = i" if "j < length t" "t ! j = e" "used e" "key e = k" for j
        using assms(2,3) that True unfolding slots_unique_def
        by (metis length_list_update nth_list_update_eq nth_list_update_neq)
      with True show ?thesis by auto
    next
      case new: False
      show ?thesis
      proof (cases "used (t ! i) \<and> k = key (t ! i)")
        case True
        then have "j = i" if "j < length t" "used (t ! j)" "key (t ! j) = k" for j
          using assms(1,2) that unfolding slots_unique_def by metis
        with new True show ?thesis by auto
      next
        case False
        with new show ?thesis by (auto simp: smap_Some[OF assms(1)])
      qed
    qed
    finally show ?thesis .
  qed
  then show ?thesis by (metis not_Some_eq)
qed

text \<open>Insertion into a free slot, update in place, deletion.\<close>

lemma slot_insert:
  assumes "uniq t" and "i < length t" and "\<not> used (t ! i)" and "used d" and "smap t (key d) = None"
  shows "uniq (t[i := d]) \<and> smap (t[i := d]) = (smap t)(key d \<mapsto> d)"
proof -
  have "uniq (t[i := d])" using assms by (intro uniq_update) auto
  then show ?thesis using assms by (auto simp: smap_update)
qed

lemma slot_replace:
  assumes "uniq t" and "i < length t" and "used (t ! i)" and "used d" and "key d = key (t ! i)"
  shows "uniq (t[i := d]) \<and> smap (t[i := d]) = (smap t)(key (t ! i) \<mapsto> d)"
proof -
  have "uniq (t[i := d])" using assms by (intro uniq_update) auto
  then show ?thesis using assms by (auto simp: smap_update)
qed

lemma slot_delete:
  assumes "uniq t" and "i < length t" and "used (t ! i)"
  shows "uniq (t[i := free]) \<and> smap (t[i := free]) = (smap t)(key (t ! i) := None)"
proof -
  have "uniq (t[i := free])" using assms not_used_free by (intro uniq_update) auto
  then show ?thesis using assms not_used_free by (auto simp: smap_update)
qed

lemma slot_find:
  assumes "uniq t" and "\<And>d. d \<in> set t \<Longrightarrow> P d \<longleftrightarrow> used d \<and> key d = k"
  shows "map_option ((!) t) (first_slot P 0 t) = smap t k"
proof (cases "first_slot P 0 t")
  case None
  then have "smap t k = None"
    using assms by (auto simp: first_slot_None smap_None)
  with None show ?thesis by simp
next
  case (Some i)
  then have "i < length t" "P (t ! i)" using first_slot_nth by blast+
  then show ?thesis using Some assms smap_nth[OF assms(1), of i] by auto
qed

end

end
