(* ===== verification/Probe_Table.thy ===== *)
theory Probe_Table
  imports C_Strings Runtime Ref_Kernel Slots
begin

text \<open>
  The probe table of \<^verbatim>\<open>injector/probe_manager.c\<close> and its image in the state file: sixteen
  descriptors, a free one with process id 0. A \<open>struct probe_desc *\<close> into the table is the index
  of its slot. The table implements a map from process and function name to descriptor, and what
  is saved is what is loaded.
\<close>

section \<open>The state of the manager\<close>

text \<open>The world next to the static variable \<^verbatim>\<open>g_probe_table\<close>.\<close>

record 'w manager =
  m_world :: 'w
  g_probe_table :: "probe_desc list"

record lp_probe_spec =
  sp_pid :: pid_t
  sp_lib_name :: cstr
  sp_func_name :: cstr
  sp_target_addr_override :: u64
  sp_has_retprobe :: c_int

text \<open>A computation on the world, one on a slot.\<close>

definition in_world :: "('w, 'a) est \<Rightarrow> ('w manager, 'a) est" where
  "in_world m = (\<lambda>s. case m (m_world s) of (r, w) \<Rightarrow> (r, s\<lparr>m_world := w\<rparr>))"

definition get_slot :: "nat \<Rightarrow> ('w manager, probe_desc) est" where
  "get_slot i = (\<lambda>s. (Inr (g_probe_table s ! i), s))"

definition put_slot :: "nat \<Rightarrow> probe_desc \<Rightarrow> ('w manager, unit) est" where
  "put_slot i d = (\<lambda>s. (Inr (), s\<lparr>g_probe_table := (g_probe_table s)[i := d]\<rparr>))"

section \<open>The operations on the table\<close>

definition init_table :: "probe_desc list" where
  "init_table = map (\<lambda>i. zero_desc\<lparr>d_probe_id := of_nat i\<rparr>) [0..<LP_MAX_PROBES]"

definition lp_probe_manager_init :: "('w manager, unit) est" where
  "lp_probe_manager_init = (\<lambda>s. (Inr (), s\<lparr>g_probe_table := init_table\<rparr>))"

text \<open>\<open>snprintf(field, n, "%s", name)\<close> into a field of zeros.\<close>

definition name_field :: "nat \<Rightarrow> cstr \<Rightarrow> u8 list" where
  "name_field n name = (let s = take (n - 1) name in s @ replicate (n - length s) 0)"

text \<open>\<open>strncmp(field, name, n) == 0\<close> for a field of \<open>n\<close> bytes.\<close>

definition strncmp_eq :: "nat \<Rightarrow> u8 list \<Rightarrow> cstr \<Rightarrow> bool" where
  "strncmp_eq n field name \<longleftrightarrow> take n (cstr_of field @ [0]) = take n (name @ [0])"

definition new_desc :: "nat \<Rightarrow> lp_probe_spec \<Rightarrow> probe_desc" where
  "new_desc i spec =
     zero_desc\<lparr>d_probe_id := of_nat i, d_pid := sp_pid spec, d_has_retprobe := sp_has_retprobe spec,
       d_enabled := 1, d_lib_name := name_field LP_MAX_NAME (sp_lib_name spec),
       d_func_name := name_field LP_MAX_NAME (sp_func_name spec)\<rparr>"

text \<open>The loops stop at the first index below \<open>LP_MAX_PROBES\<close> that qualifies.\<close>

definition lp_probe_manager_alloc :: "lp_probe_spec \<Rightarrow> ('w manager, nat) est" where
  "lp_probe_manager_alloc spec = (\<lambda>s.
     case first_slot (\<lambda>d. d_pid d = 0) 0 (take LP_MAX_PROBES (g_probe_table s)) of
       None \<Rightarrow> (Inl ENOSPC, s)
     | Some i \<Rightarrow> (Inr i, s\<lparr>g_probe_table := (g_probe_table s)[i := new_desc i spec]\<rparr>))"

definition lp_probe_manager_find :: "pid_t \<Rightarrow> cstr \<Rightarrow> probe_desc list \<Rightarrow> nat option" where
  "lp_probe_manager_find pid func_name table =
     first_slot (\<lambda>d. d_pid d = pid \<and> strncmp_eq LP_MAX_NAME (d_func_name d) func_name) 0
       (take LP_MAX_PROBES table)"

definition lp_probe_manager_at :: "c_int \<Rightarrow> errno + nat" where
  "lp_probe_manager_at index =
     (if sint index < 0 \<or> int LP_MAX_PROBES \<le> sint index then Inl EINVAL
      else Inr (nat (sint index)))"

definition lp_probe_manager_remove :: "nat option \<Rightarrow> ('w manager, unit) est" where
  "lp_probe_manager_remove desc =
     (case desc of None \<Rightarrow> retE () | Some i \<Rightarrow> put_slot i zero_desc)"

section \<open>The state file\<close>

definition LP_STATE_FILE :: cstr where "LP_STATE_FILE = ascii ''/tmp/lightprobe_state.bin''"
definition LP_STATE_MAGIC :: u32 where "LP_STATE_MAGIC = 0x4C505442"
definition LP_STATE_VERSION :: u32 where "LP_STATE_VERSION = 1"

definition sizeof_probe_desc :: nat where "sizeof_probe_desc = 384"

text \<open>The last four bytes are padding.\<close>

definition enc_desc :: "probe_desc \<Rightarrow> u8 list" where
  "enc_desc d =
     le32 (d_probe_id d) @ le32 (d_pid d) @ le64 (d_target_addr d) @ le64 (d_trampoline_addr d) @
     le64 (d_entry_stub_addr d) @ le64 (d_ret_stub_addr d) @ le64 (d_config_addr d) @
     le64 (d_event_buffer_addr d) @ le64 (d_shadow_stack_addr d) @ le64 (d_runtime_base_addr d) @
     le64 (d_runtime_size d) @ d_original_code d @ le32 (d_original_len d) @ le32 (d_enabled d) @
     le32 (d_has_retprobe d) @ d_lib_name d @ d_func_name d @ [0, 0, 0, 0]"

definition dec_desc :: "u8 list \<Rightarrow> probe_desc" where
  "dec_desc bs =
     \<lparr> d_probe_id = le_word (take 4 bs), d_pid = le_word (take 4 (drop 4 bs)),
       d_target_addr = le_word (take 8 (drop 8 bs)),
       d_trampoline_addr = le_word (take 8 (drop 16 bs)),
       d_entry_stub_addr = le_word (take 8 (drop 24 bs)),
       d_ret_stub_addr = le_word (take 8 (drop 32 bs)),
       d_config_addr = le_word (take 8 (drop 40 bs)),
       d_event_buffer_addr = le_word (take 8 (drop 48 bs)),
       d_shadow_stack_addr = le_word (take 8 (drop 56 bs)),
       d_runtime_base_addr = le_word (take 8 (drop 64 bs)),
       d_runtime_size = le_word (take 8 (drop 72 bs)),
       d_original_code = take 32 (drop 80 bs), d_original_len = le_word (take 4 (drop 112 bs)),
       d_enabled = le_word (take 4 (drop 116 bs)),
       d_has_retprobe = le_word (take 4 (drop 120 bs)),
       d_lib_name = take 128 (drop 124 bs), d_func_name = take 128 (drop 252 bs) \<rparr>"

interpretation desc_codec: byte_codec enc_desc dec_desc wf_desc sizeof_probe_desc
  by unfold_locales
     (simp_all add: enc_desc_def dec_desc_def wf_desc_def sizeof_probe_desc_def lp_sizes)

definition sizeof_state_file :: nat where
  "sizeof_state_file = 8 + LP_MAX_PROBES * sizeof_probe_desc"

definition enc_state :: "probe_desc list \<Rightarrow> u8 list" where
  "enc_state table = le32 LP_STATE_MAGIC @ le32 LP_STATE_VERSION @ concat (map enc_desc table)"

definition dec_probes :: "u8 list \<Rightarrow> probe_desc list" where
  "dec_probes bs =
     map (\<lambda>i. dec_desc (take sizeof_probe_desc (drop (i * sizeof_probe_desc) (drop 8 bs))))
       [0..<LP_MAX_PROBES]"

definition lp_probe_manager_load :: "'w kernel \<Rightarrow> ('w manager, unit) est" where
  "lp_probe_manager_load K = (\<lambda>s.
     case c_fopen_r K LP_STATE_FILE (m_world s) of
       (Inl e, w) \<Rightarrow>
         if e = ENOENT then lp_probe_manager_init (s\<lparr>m_world := w\<rparr>)
         else (Inl e, s\<lparr>m_world := w\<rparr>)
     | (Inr (fp, bytes), w) \<Rightarrow>
         (case c_fclose K fp w of
            (Inl e, w) \<Rightarrow> (Inl e, s\<lparr>m_world := w\<rparr>)
          | (Inr _, w) \<Rightarrow>
              if length bytes < sizeof_state_file then (Inl EIO, s\<lparr>m_world := w\<rparr>)
              else if le_word (take 4 bytes) \<noteq> LP_STATE_MAGIC \<or>
                      le_word (take 4 (drop 4 bytes)) \<noteq> LP_STATE_VERSION
              then (Inl EINVAL, s\<lparr>m_world := w\<rparr>)
              else (Inr (), \<lparr>m_world = w, g_probe_table = dec_probes bytes\<rparr>)))"

definition lp_probe_manager_save :: "'w kernel \<Rightarrow> ('w manager, unit) est" where
  "lp_probe_manager_save K = (\<lambda>s.
     case c_fopen_w K LP_STATE_FILE (m_world s) of
       (Inl e, w) \<Rightarrow> (Inl e, s\<lparr>m_world := w\<rparr>)
     | (Inr fp, w) \<Rightarrow>
         (case c_fwrite1 K fp (enc_state (g_probe_table s)) w of
            (nwritten, w) \<Rightarrow>
              (case c_fclose K fp w of
                 (Inl e, w) \<Rightarrow> (Inl e, s\<lparr>m_world := w\<rparr>)
               | (Inr _, w) \<Rightarrow>
                   (if nwritten \<noteq> 1 then Inl EIO else Inr (), s\<lparr>m_world := w\<rparr>))))"

section \<open>The table as a map\<close>

text \<open>
  The key of a used slot is the process and the function. Names shorter than a field come back
  from it as they went in.
\<close>

type_synonym probe_key = "pid_t \<times> cstr"

definition used_desc :: "probe_desc \<Rightarrow> bool" where
  "used_desc d \<longleftrightarrow> d_pid d \<noteq> 0"

definition probe_key :: "probe_desc \<Rightarrow> probe_key" where
  "probe_key d = (d_pid d, cstr_of (d_func_name d))"

definition proper_name :: "cstr \<Rightarrow> bool" where
  "proper_name name \<longleftrightarrow> length name < LP_MAX_NAME \<and> 0 \<notin> set name"

definition spec_key :: "lp_probe_spec \<Rightarrow> probe_key" where
  "spec_key spec = (sp_pid spec, sp_func_name spec)"

definition proper_spec :: "lp_probe_spec \<Rightarrow> bool" where
  "proper_spec spec \<longleftrightarrow> sp_pid spec \<noteq> 0 \<and> proper_name (sp_func_name spec)"

definition probe_map :: "probe_desc list \<Rightarrow> probe_key \<rightharpoonup> probe_desc" where
  "probe_map = slot_map used_desc probe_key"

text \<open>
  The invariant of the table: sixteen descriptors whose arrays have their declared lengths, every
  used one with its index as probe id and a terminated function name, no two for the same function.
\<close>

definition slot_ok :: "nat \<Rightarrow> probe_desc \<Rightarrow> bool" where
  "slot_ok i d \<longleftrightarrow> wf_desc d \<and>
     (used_desc d \<longrightarrow> d_probe_id d = of_nat i \<and> proper_name (cstr_of (d_func_name d)))"

definition table_inv :: "probe_desc list \<Rightarrow> bool" where
  "table_inv t \<longleftrightarrow> length t = LP_MAX_PROBES \<and> (\<forall>i < length t. slot_ok i (t ! i)) \<and>
     slots_unique used_desc probe_key t"

interpretation probes: slots used_desc probe_key zero_desc
  by unfold_locales (simp add: used_desc_def zero_desc_def)

lemma cstr_of_field: "0 \<notin> set name \<Longrightarrow> cstr_of (name_field n name) = take (n - 1) name"
proof -
  assume "0 \<notin> set name"
  then have "\<forall>c \<in> set (take (n - 1) name). c \<noteq> 0" by (auto dest: in_set_takeD)
  then show ?thesis
    by (cases "n - length (take (n - 1) name)")
       (simp_all add: cstr_of_def name_field_def Let_def takeWhile_append2)
qed

lemma length_name_field: "0 < n \<Longrightarrow> length (name_field n name) = n"
  by (simp add: name_field_def Let_def)

lemma cstr_of_no_zero: "0 \<notin> set (cstr_of s)"
  by (auto simp: cstr_of_def dest: set_takeWhileD)

lemma strncmp_eq_iff:
  assumes "proper_name name" and "length (cstr_of field) < LP_MAX_NAME"
  shows "strncmp_eq LP_MAX_NAME field name \<longleftrightarrow> cstr_of field = name"
proof -
  have "take (LP_MAX_NAME - length name) [0] = [0 :: u8]"
    using assms(1) by (cases "LP_MAX_NAME - length name") (auto simp: proper_name_def)
  with assms show ?thesis by (simp add: strncmp_eq_def proper_name_def)
qed

lemma new_desc_simps:
  assumes "proper_spec spec"
  shows "used_desc (new_desc i spec)" and "probe_key (new_desc i spec) = spec_key spec"
    and "slot_ok i (new_desc i spec)"
  using assms
  by (auto simp: used_desc_def new_desc_def probe_key_def spec_key_def proper_spec_def proper_name_def
      slot_ok_def wf_desc_def zero_desc_def cstr_of_field length_name_field lp_sizes)

lemma slot_ok_zero: "slot_ok i zero_desc"
  by (simp add: slot_ok_def used_desc_def zero_desc_def flip: zero_desc_def) (simp add: zero_desc_def)

lemma table_inv_init: "table_inv init_table"
  by (auto simp: table_inv_def init_table_def slot_ok_def wf_desc_def used_desc_def zero_desc_def
      slots_unique_def lp_sizes)

lemma probe_map_init: "probe_map init_table = Map.empty"
proof
  fix k
  have "slots_unique used_desc probe_key init_table" using table_inv_init by (simp add: table_inv_def)
  then show "probe_map init_table k = None"
    unfolding probe_map_def by (auto simp: probes.smap_None init_table_def used_desc_def zero_desc_def)
qed

text \<open>Searching the table is looking up the map.\<close>

lemma find_refines:
  assumes "table_inv t" and "pid \<noteq> 0" and "proper_name name"
  shows "map_option ((!) t) (lp_probe_manager_find pid name t) = probe_map t (pid, name)"
proof -
  have "d_pid d = pid \<and> strncmp_eq LP_MAX_NAME (d_func_name d) name \<longleftrightarrow>
      used_desc d \<and> probe_key d = (pid, name)" if "d \<in> set t" for d
  proof (cases "used_desc d")
    case True
    with that assms(1) have "length (cstr_of (d_func_name d)) < LP_MAX_NAME"
      by (auto simp: table_inv_def slot_ok_def in_set_conv_nth proper_name_def)
    with True assms show ?thesis by (auto simp: probe_key_def strncmp_eq_iff)
  next
    case False
    with assms(2) show ?thesis by (auto simp: used_desc_def)
  qed
  then show ?thesis
    using assms(1) probes.slot_find[of t] by (simp add: lp_probe_manager_find_def probe_map_def table_inv_def)
qed

lemma find_valid:
  assumes "table_inv t" and "lp_probe_manager_find pid name t = Some i" and "pid \<noteq> 0"
  shows "i < LP_MAX_PROBES \<and> used_desc (t ! i)"
  using assms first_slot_nth[of _ "take LP_MAX_PROBES t" i]
  by (auto simp: lp_probe_manager_find_def table_inv_def used_desc_def)

text \<open>Filling a slot, changing its contents and freeing it.\<close>

lemma table_insert:
  assumes "table_inv t" and "i < LP_MAX_PROBES" and "\<not> used_desc (t ! i)" and "used_desc d"
    and "slot_ok i d" and "probe_map t (probe_key d) = None"
  shows "table_inv (t[i := d]) \<and> probe_map (t[i := d]) = (probe_map t)(probe_key d \<mapsto> d)"
  using assms probes.slot_insert[of t i d]
  by (auto simp: table_inv_def probe_map_def nth_list_update)

lemma table_replace:
  assumes "table_inv t" and "i < LP_MAX_PROBES" and "used_desc (t ! i)" and "used_desc d"
    and "slot_ok i d" and "probe_key d = probe_key (t ! i)"
  shows "table_inv (t[i := d]) \<and> probe_map (t[i := d]) = (probe_map t)(probe_key (t ! i) \<mapsto> d)"
  using assms probes.slot_replace[of t i d]
  by (auto simp: table_inv_def probe_map_def nth_list_update)

lemma table_delete:
  assumes "table_inv t" and "i < LP_MAX_PROBES" and "used_desc (t ! i)"
  shows "table_inv (t[i := zero_desc]) \<and>
    probe_map (t[i := zero_desc]) = (probe_map t)(probe_key (t ! i) := None)"
  using assms probes.slot_delete[of t i] slot_ok_zero
  by (auto simp: table_inv_def probe_map_def nth_list_update)

section \<open>Saving and loading\<close>

lemma dec_enc_state:
  assumes "\<forall>d \<in> set t. wf_desc d" and "length t = LP_MAX_PROBES"
  shows "dec_probes (enc_state t) = t" and "length (enc_state t) = sizeof_state_file"
    and "le_word (take 4 (enc_state t)) = LP_STATE_MAGIC"
    and "le_word (take 4 (drop 4 (enc_state t))) = LP_STATE_VERSION"
proof -
  have "drop 8 (enc_state t) = concat (map enc_desc t)" by (simp add: enc_state_def)
  then show "dec_probes (enc_state t) = t"
    unfolding dec_probes_def using assms desc_codec.dec_array[of t LP_MAX_PROBES] by simp
  show "length (enc_state t) = sizeof_state_file"
    using assms desc_codec.length_concat_enc[of t] by (simp add: enc_state_def sizeof_state_file_def)
qed (simp_all add: enc_state_def)

lemma load_saved:
  assumes "c_fopen_r K LP_STATE_FILE (m_world s) = (Inr (fp, enc_state t), w)"
    and "\<forall>d \<in> set t. wf_desc d" and "length t = LP_MAX_PROBES"
    and "lp_probe_manager_load K s = (r, s')"
  shows "g_probe_table s' = (if \<exists>u. r = Inr u then t else g_probe_table s)"
  using assms(1,4) dec_enc_state[OF assms(2,3)]
  by (auto simp: lp_probe_manager_load_def split: prod.splits sum.splits)

lemma save_table: "lp_probe_manager_save K s = (r, s') \<Longrightarrow> g_probe_table s' = g_probe_table s"
  by (auto simp: lp_probe_manager_save_def split: prod.splits sum.splits)

context kernel_store
begin

lemma save_stored:
  assumes "lp_probe_manager_save K s = (Inr u, s1)"
  shows "contents (m_world s1) LP_STATE_FILE = Some (enc_state (g_probe_table s))"
  using assms stored
  by (auto simp: lp_probe_manager_save_def split: prod.splits sum.splits if_splits)

lemma load_stored:
  assumes "contents (m_world s) LP_STATE_FILE = Some (enc_state t)"
    and "\<forall>d \<in> set t. wf_desc d" and "length t = LP_MAX_PROBES" and "lp_probe_manager_load K s = (Inr v, s1)"
  shows "g_probe_table s1 = t"
proof -
  obtain q w where op: "c_fopen_r K LP_STATE_FILE (m_world s) = (q, w)" by fastforce
  have "q \<noteq> Inl e" for e
    using op assms(1,4) missing[of LP_STATE_FILE "m_world s" w]
    by (cases "e = ENOENT") (auto simp: lp_probe_manager_load_def)
  then obtain fp bs where q: "q = Inr (fp, bs)" by (cases q) auto
  with op assms(1) have "c_fopen_r K LP_STATE_FILE (m_world s) = (Inr (fp, enc_state t), w)"
    using loaded by fastforce
  from load_saved[OF this assms(2-4)] show ?thesis by simp
qed

end

section \<open>Properties\<close>

text \<open>
  C32: what \<open>lp_probe_manager_save\<close> wrote is what \<open>lp_probe_manager_load\<close> reads: as long as the
  state file is left alone, loading it, in whatever process, gives the saved table.
\<close>

theorem save_load_roundtrip:
  assumes "kernel_store K contents"
    and "lp_probe_manager_save K s = (Inr u, s1)" and "lp_probe_manager_load K s2 = (Inr v, s3)"
    and "contents (m_world s2) LP_STATE_FILE = contents (m_world s1) LP_STATE_FILE"
    and "\<forall>d \<in> set (g_probe_table s). wf_desc d" and "length (g_probe_table s) = LP_MAX_PROBES"
  shows "g_probe_table s3 = g_probe_table s"
  using kernel_store.save_stored[OF assms(1,2)] assms(4)
  by (intro kernel_store.load_stored[OF assms(1) _ assms(5,6,3)]) simp

text \<open>
  C33: looking a function up in the table finds its descriptor exactly when the map that the
  table stands for has one, for every process and every name that fits a descriptor.
\<close>

theorem find_looks_up_map:
  assumes "table_inv t" and "pid \<noteq> 0" and "proper_name name"
  shows "map_option ((!) t) (lp_probe_manager_find pid name t) = probe_map t (pid, name)"
  using assms by (rule find_refines)

text \<open>
  A name of 128 bytes or more is never found: it is cut to 127 bytes when a descriptor is
  allocated and compared in full length afterwards, so that the probe on such a function can be
  attached again, and can be neither detached nor switched.
\<close>

theorem long_name_never_found:
  assumes "table_inv t" and "pid \<noteq> 0" and "LP_MAX_NAME \<le> length name" and "0 \<notin> set name"
  shows "lp_probe_manager_find pid name t = None"
proof -
  have "\<not> (d_pid d = pid \<and> strncmp_eq LP_MAX_NAME (d_func_name d) name)" if "d \<in> set t" for d
  proof
    assume d: "d_pid d = pid \<and> strncmp_eq LP_MAX_NAME (d_func_name d) name"
    with that assms(1,2) have short: "length (cstr_of (d_func_name d)) < LP_MAX_NAME"
      by (auto simp: table_inv_def slot_ok_def used_desc_def in_set_conv_nth proper_name_def)
    then have "take LP_MAX_NAME (cstr_of (d_func_name d) @ [0]) = cstr_of (d_func_name d) @ [0]" by simp
    with d assms(3) have "take LP_MAX_NAME name = cstr_of (d_func_name d) @ [0]"
      by (simp add: strncmp_eq_def)
    then have "0 \<in> set (take LP_MAX_NAME name)" by simp
    with assms(4) show False by (auto dest: in_set_takeD)
  qed
  then show ?thesis
    using assms(1) by (simp add: lp_probe_manager_find_def table_inv_def first_slot_None)
qed

section \<open>The table at work\<close>

definition example_desc :: probe_desc where
  "example_desc = zero_desc\<lparr>d_probe_id := 0, d_pid := 7, d_func_name := name_field LP_MAX_NAME (ascii ''f'')\<rparr>"

definition example_table :: "probe_desc list" where
  "example_table = init_table[0 := example_desc]"

lemma example_table_inv: "table_inv example_table \<and> probe_map example_table = [(7, ascii ''f'') \<mapsto> example_desc]"
proof -
  have f: "proper_name (ascii ''f'')" by code_simp
  then have name: "cstr_of (name_field LP_MAX_NAME (ascii ''f'')) = ascii ''f''"
    by (auto simp: cstr_of_field proper_name_def)
  then have "slot_ok 0 example_desc" "used_desc example_desc" "probe_key example_desc = (7, ascii ''f'')"
    using f by (simp_all add: example_desc_def slot_ok_def wf_desc_def used_desc_def zero_desc_def
        probe_key_def length_name_field lp_sizes)
  moreover have "\<not> used_desc (init_table ! 0)"
    by (simp add: init_table_def used_desc_def zero_desc_def LP_MAX_PROBES_def)
  ultimately show ?thesis
    using table_insert[OF table_inv_init, of 0 example_desc] probe_map_init
    by (simp add: example_table_def LP_MAX_PROBES_def)
qed

lemma find_looks_up_map_witness:
  "map_option ((!) example_table) (lp_probe_manager_find 7 (ascii ''f'') example_table) = Some example_desc"
proof -
  have "proper_name (ascii ''f'')" by code_simp
  with find_looks_up_map[of example_table 7 "ascii ''f''"] example_table_inv show ?thesis by simp
qed

lemma long_name_never_found_witness:
  "lp_probe_manager_find 7 (replicate 128 0x66) example_table = None"
  using example_table_inv by (intro long_name_never_found) (auto simp: LP_MAX_NAME_def)

definition example_manager :: "ref_world manager" where
  "example_manager = \<lparr>m_world = ref_init, g_probe_table = example_table\<rparr>"

lemma save_load_roundtrip_witness:
  "let (r, s) = lp_probe_manager_save ref_kernel example_manager;
       (r', s') = lp_probe_manager_load ref_kernel \<lparr>m_world = m_world s, g_probe_table = []\<rparr>
   in r = Inr () \<and> r' = Inr () \<and> g_probe_table s' = example_table"
proof -
  let ?file = "enc_state example_table"
  have wf: "\<forall>d \<in> set example_table. wf_desc d" and len: "length example_table = LP_MAX_PROBES"
    using example_table_inv by (auto simp: table_inv_def slot_ok_def in_set_conv_nth)
  obtain r s where save: "lp_probe_manager_save ref_kernel example_manager = (r, s)" by fastforce
  then have r: "r = Inr ()" and on_disk: "map_of (rw_files (m_world s)) LP_STATE_FILE = Some ?file"
    by (auto simp: lp_probe_manager_save_def example_manager_def ref_kernel_def ref_fwrite_def
        ref_init_def)
  obtain r' s' where
    load: "lp_probe_manager_load ref_kernel \<lparr>m_world = m_world s, g_probe_table = []\<rparr> = (r', s')"
    by fastforce
  then have r': "r' = Inr ()"
    using on_disk dec_enc_state[OF wf len] by (auto simp: lp_probe_manager_load_def ref_kernel_def)
  have "g_probe_table s' = g_probe_table example_manager"
    using wf len
    by (intro save_load_roundtrip[OF ref_store.kernel_store_axioms save[unfolded r] load[unfolded r']])
       (simp_all add: example_manager_def)
  with save load r r' show ?thesis by (simp add: example_manager_def)
qed

end
