(* ===== verification/Code_Writer.thy ===== *)
theory Code_Writer
  imports Runtime
begin

text \<open>
  The byte emitter of \<^verbatim>\<open>injector/trampoline_x86_64.c\<close>: \<^verbatim>\<open>struct code_writer\<close> and the
  \<^verbatim>\<open>emit_*\<close> helpers. The buffer is modelled by the bytes written so far, so that the C
  field \<open>len\<close> is their number; a chain \<^verbatim>\<open>emit_a(...) < 0 || emit_b(...) < 0 || ...\<close> is a
  list of emitters run up to the first failure.
\<close>

record code_writer =
  cw_buf :: "u8 list"
  cw_cap :: nat

definition cw_len :: "code_writer \<Rightarrow> nat" where
  "cw_len w = length (cw_buf w)"

definition cw_new :: "nat \<Rightarrow> code_writer" where
  "cw_new buf_len = \<lparr>cw_buf = [], cw_cap = buf_len\<rparr>"

type_synonym emitter = "code_writer \<Rightarrow> errno + code_writer"

definition emit_bytes :: "u8 list \<Rightarrow> emitter" where
  "emit_bytes bytes w =
     (if cw_cap w < cw_len w + length bytes then Inl ENOSPC
      else Inr (w\<lparr>cw_buf := cw_buf w @ bytes\<rparr>))"

fun emits :: "emitter list \<Rightarrow> emitter" where
  "emits [] w = Inr w"
| "emits (f # fs) w = bindR (f w) (emits fs)"

definition emit_u32 :: "u32 \<Rightarrow> emitter" where
  "emit_u32 value = emit_bytes (le32 value)"

definition emit_u64 :: "u64 \<Rightarrow> emitter" where
  "emit_u64 value = emit_bytes (le64 value)"

definition emit_movabs_r10 :: "u64 \<Rightarrow> emitter" where
  "emit_movabs_r10 value = emits [emit_bytes [0x49, 0xBA], emit_u64 value]"

definition emit_abs_jmp_r11_preserve :: "u64 \<Rightarrow> emitter" where
  "emit_abs_jmp_r11_preserve target =
     emits [emit_bytes [0x41, 0x53, 0x49, 0xBB],
            emit_u64 target,
            emit_bytes [0x4C, 0x87, 0x1C, 0x24, 0xC3]]"

definition emit_mov_rax_from_rsp_disp8 :: "u8 \<Rightarrow> emitter" where
  "emit_mov_rax_from_rsp_disp8 disp = emit_bytes [0x48, 0x8B, 0x44, 0x24, disp]"

definition emit_mov_mr8_disp8_rax :: "u8 \<Rightarrow> emitter" where
  "emit_mov_mr8_disp8_rax disp = emit_bytes [0x49, 0x89, 0x40, disp]"

definition emit_mov_mr8_disp8_imm32 :: "u8 \<Rightarrow> u32 \<Rightarrow> emitter" where
  "emit_mov_mr8_disp8_imm32 disp value = emits [emit_bytes [0x41, 0xC7, 0x40, disp], emit_u32 value]"

definition emit_mov_mr8_disp8_imm64_zero :: "u8 \<Rightarrow> emitter" where
  "emit_mov_mr8_disp8_imm64_zero disp = emits [emit_bytes [0x49, 0xC7, 0x40, disp], emit_u32 0]"

text \<open>\<open>memcpy(w->buf + off, &rel32, 4)\<close>: an earlier placeholder is overwritten.\<close>

definition patch_rel32 :: "nat \<Rightarrow> u32 \<Rightarrow> code_writer \<Rightarrow> code_writer" where
  "patch_rel32 off value w =
     w\<lparr>cw_buf := take off (cw_buf w) @ le32 value @ drop (off + 4) (cw_buf w)\<rparr>"

text \<open>\<open>(int32_t)(label - (imm + sizeof(uint32_t)))\<close>, computed on \<open>size_t\<close>.\<close>

definition rel32_to :: "nat \<Rightarrow> nat \<Rightarrow> u32" where
  "rel32_to label_off imm_off = ucast ((of_nat label_off :: u64) - of_nat (imm_off + 4))"

text \<open>\<open>offsetof(struct probe_event, \<dots>)\<close> as the byte displacements of the stubs.\<close>

definition off_timestamp :: u8 where "off_timestamp = 0"
definition off_pid :: u8 where "off_pid = 8"
definition off_tid :: u8 where "off_tid = 12"
definition off_probe_id :: u8 where "off_probe_id = 16"
definition off_event_type :: u8 where "off_event_type = 20"
definition off_args :: u8 where "off_args = 24"
definition off_retval :: u8 where "off_retval = 72"
definition off_duration :: u8 where "off_duration = 80"

lemmas event_offsets = off_timestamp_def off_pid_def off_tid_def off_probe_id_def
  off_event_type_def off_args_def off_retval_def off_duration_def

section \<open>Evaluating a generator\<close>

text \<open>
  \<open>emit_simps\<close> merges a chain of emitters into one \<open>emit_bytes\<close>; \<open>emit_at\<close> evaluates
  emitters and jump fix-ups at a given buffer.
\<close>

named_theorems emit_simps \<open>merge a chain of emitters\<close>
named_theorems emit_at \<open>evaluate emitters at a given buffer\<close>

lemma emits_merge [emit_simps]:
  "emits (emit_bytes xs # emit_bytes ys # fs) = emits (emit_bytes (xs @ ys) # fs)"
  "emits (emit_bytes xs # emit_u32 v # fs) = emits (emit_bytes (xs @ le32 v) # fs)"
  "emits (emit_bytes xs # emit_u64 u # fs) = emits (emit_bytes (xs @ le64 u) # fs)"
  by (rule ext, auto simp: emit_bytes_def emit_u32_def emit_u64_def cw_len_def)+

lemma emits_single [emit_simps]: "emits [f] = f"
proof
  fix w show "emits [f] w = f w" by (cases "f w") simp_all
qed

lemma emits_flat [emit_simps]: "emits (emits gs # fs) = emits (gs @ fs)"
proof (induction gs)
  case Nil
  show ?case by (rule ext) simp
next
  case (Cons g gs)
  have "bindR (bindR (g w) (emits gs)) (emits fs) = bindR (g w) (emits (gs @ fs))" for w
    using fun_cong[OF Cons.IH] by (cases "g w") simp_all
  then show ?case by (intro ext) simp
qed

lemma emits_u32_first:
  "emits (emit_u32 v # fs) w = bindR (emit_u32 v w) (emits fs)"
  by simp

lemmas emit_helpers [emit_simps] = emit_movabs_r10_def emit_abs_jmp_r11_preserve_def
  emit_mov_rax_from_rsp_disp8_def emit_mov_mr8_disp8_rax_def emit_mov_mr8_disp8_imm32_def
  emit_mov_mr8_disp8_imm64_zero_def

lemma emit_bytes_at [emit_at]:
  "emit_bytes bs \<lparr>cw_buf = buf, cw_cap = cap\<rparr> =
     (if cap < length buf + length bs then Inl ENOSPC
      else Inr \<lparr>cw_buf = buf @ bs, cw_cap = cap\<rparr>)"
  by (simp add: emit_bytes_def cw_len_def)

lemma emit_u32_at [emit_at]:
  "emit_u32 v \<lparr>cw_buf = buf, cw_cap = cap\<rparr> =
     (if cap < length buf + 4 then Inl ENOSPC
      else Inr \<lparr>cw_buf = buf @ le32 v, cw_cap = cap\<rparr>)"
  by (simp add: emit_u32_def emit_bytes_def cw_len_def)

lemma patch_rel32_at:
  "patch_rel32 off v \<lparr>cw_buf = buf, cw_cap = cap\<rparr> =
     \<lparr>cw_buf = take off buf @ le32 v @ drop (off + 4) buf, cw_cap = cap\<rparr>"
  by (simp add: patch_rel32_def)

lemma cw_len_at [emit_at]: "cw_len \<lparr>cw_buf = buf, cw_cap = cap\<rparr> = length buf"
  by (simp add: cw_len_def)

text \<open>The simplifier evaluates a generator step by step when it does not enter what follows a step.\<close>

lemma bindR_cong: "r = r' \<Longrightarrow> bindR r f = bindR r' f"
  by simp

end
