(* ===== verification/Stub_Builder.thy ===== *)
theory Stub_Builder
  imports Code_Writer
begin

text \<open>
  The machine-code generators of \<^verbatim>\<open>injector/trampoline_x86_64.c\<close>: trampoline, entry stub and
  return stub. Every emitted byte string and every recorded offset is the code's; the byte
  strings carry their assembly as the C identifiers do.
\<close>

section \<open>The trampoline\<close>

definition lp_x86_64_build_trampoline :: "probe_desc \<Rightarrow> u64 \<Rightarrow> nat \<Rightarrow> errno + u8 list" where
  "lp_x86_64_build_trampoline desc resume_addr buf_len =
     (let len = sint (d_original_len desc) in
      if len \<le> 0 \<or> int LP_MAX_ORIGINAL_CODE < len then Inl EINVAL
      else bindR (emits [emit_bytes (take (nat len) (d_original_code desc)),
                         emit_abs_jmp_r11_preserve resume_addr] (cw_new buf_len))
             (\<lambda>w. Inr (cw_buf w)))"

section \<open>The entry stub\<close>

text \<open>Thread id and time of the entry event.\<close>

definition ins_entry_time :: "emitter list" where
  "ins_entry_time =
     [emit_bytes [0x48, 0x83, 0xEC, 0x10],                         \<comment> \<open>sub rsp, 16\<close>
      emit_bytes [0xB8, 0xBA, 0x00, 0x00, 0x00],                   \<comment> \<open>mov eax, SYS_gettid\<close>
      emit_bytes [0x0F, 0x05],                                     \<comment> \<open>syscall\<close>
      emit_bytes [0x41, 0x89, 0x40, off_tid],                      \<comment> \<open>mov [r8+tid], eax\<close>
      emit_bytes [0xB8, 0xE4, 0x00, 0x00, 0x00],                   \<comment> \<open>mov eax, SYS_clock_gettime\<close>
      emit_bytes [0x31, 0xFF],                                     \<comment> \<open>xor edi, edi\<close>
      emit_bytes [0x48, 0x89, 0xE6],                               \<comment> \<open>mov rsi, rsp\<close>
      emit_bytes [0x0F, 0x05],                                     \<comment> \<open>syscall\<close>
      emit_bytes [0x48, 0x8B, 0x04, 0x24],                         \<comment> \<open>mov rax, [rsp]\<close>
      emit_bytes [0x48, 0x69, 0xC0, 0x00, 0xCA, 0x9A, 0x3B],       \<comment> \<open>imul rax, 1000000000\<close>
      emit_bytes [0x48, 0x03, 0x44, 0x24, 0x08],                   \<comment> \<open>add rax, [rsp+8]\<close>
      emit_bytes [0x49, 0x89, 0x40, off_timestamp],                \<comment> \<open>mov [r8+timestamp], rax\<close>
      emit_bytes [0x48, 0x83, 0xC4, 0x10]]"

definition emit_entry_timestamp_and_tid :: "code_writer \<Rightarrow> errno + (code_writer \<times> nat)" where
  "emit_entry_timestamp_and_tid w =
     bindR (emits ins_entry_time w)
     (\<lambda>w. Inr (w, cw_len w))"

text \<open>The search for the slot of the thread: test, loop bound, load, claim.\<close>

definition ins_scan_init :: "probe_desc \<Rightarrow> emitter list" where
  "ins_scan_init desc =
     [emit_bytes [0x49, 0xB9],                                     \<comment> \<open>movabs r9, shadow\<close>
      emit_u64 (d_shadow_stack_addr desc),
      emit_bytes [0x4D, 0x85, 0xC9],                               \<comment> \<open>test r9, r9\<close>
      emit_bytes [0x0F, 0x84]]"

definition ins_scan_clear :: "emitter list" where
  "ins_scan_clear =
     [emit_bytes [0x31, 0xDB]]"

definition ins_scan_bound :: "emitter list" where
  "ins_scan_bound =
     [emit_bytes [0x48, 0x81, 0xFB],                               \<comment> \<open>cmp rbx, threads\<close>
      emit_u32 (of_nat LP_SHADOW_STACK_THREADS),
      emit_bytes [0x0F, 0x83]]"

definition ins_scan_load :: "emitter list" where
  "ins_scan_load =
     [emit_bytes [0x49, 0x89, 0xDB],                               \<comment> \<open>mov r11, rbx\<close>
      emit_bytes [0x4D, 0x69, 0xDB],                               \<comment> \<open>imul r11, entry_size\<close>
      emit_u32 (of_nat sizeof_lp_shadow_stack_entry),
      emit_bytes [0x4F, 0x8D, 0x1C, 0x19],                         \<comment> \<open>lea r11, [r9+r11]\<close>
      emit_bytes [0x41, 0x8B, 0x0B],                               \<comment> \<open>mov ecx, [r11]\<close>
      emit_bytes [0x85, 0xC9],                                     \<comment> \<open>test ecx, ecx\<close>
      emit_bytes [0x0F, 0x84]]"

definition ins_scan_cmp :: "emitter list" where
  "ins_scan_cmp =
     [emit_bytes [0x41, 0x3B, 0x48, off_tid],                      \<comment> \<open>cmp ecx, [r8+tid]\<close>
      emit_bytes [0x0F, 0x84]]"

definition ins_scan_claim :: "emitter list" where
  "ins_scan_claim =
     [emit_bytes [0x31, 0xC0],                                     \<comment> \<open>xor eax, eax\<close>
      emit_bytes [0x41, 0x8B, 0x50, off_tid],                      \<comment> \<open>mov edx, [r8+tid]\<close>
      emit_bytes [0xF0, 0x41, 0x0F, 0xB1, 0x13],                   \<comment> \<open>lock cmpxchg [r11], edx\<close>
      emit_bytes [0x0F, 0x84]]"

definition ins_scan_race :: "emitter list" where
  "ins_scan_race =
     [emit_bytes [0x41, 0x3B, 0x40, off_tid],                      \<comment> \<open>cmp eax, [r8+tid]\<close>
      emit_bytes [0x0F, 0x84]]"

text \<open>The push on the slot found.\<close>

definition ins_push_check :: "emitter list" where
  "ins_push_check =
     [emit_bytes [0x41, 0x8B, 0x40, off_tid],                      \<comment> \<open>mov eax, [r8+tid]\<close>
      emit_bytes [0x41, 0x8B, 0x4B, 0x04],                         \<comment> \<open>mov ecx, [r11+4]\<close>
      emit_bytes [0x83, 0xF9, of_nat LP_SHADOW_STACK_DEPTH],       \<comment> \<open>cmp ecx, depth\<close>
      emit_bytes [0x0F, 0x83]]"

definition ins_push_body :: "probe_desc \<Rightarrow> emitter list" where
  "ins_push_body desc =
     [emit_bytes [0x48, 0x8B, 0x94, 0x24, 0x80, 0x00, 0x00, 0x00], \<comment> \<open>mov rdx, [rsp+0x80]\<close>
      emit_bytes [0x49, 0x89, 0x54, 0xCB, 0x08],                   \<comment> \<open>mov [r11+rcx*8+8], rdx\<close>
      emit_bytes [0x49, 0x8B, 0x50, off_timestamp],                \<comment> \<open>mov rdx, [r8+timestamp]\<close>
      emit_bytes [0x49, 0x89, 0x94, 0xCB, 0x08, 0x02, 0x00, 0x00], \<comment> \<open>mov [r11+rcx*8+0x208], rdx\<close>
      emit_bytes [0xFF, 0xC1],                                     \<comment> \<open>inc ecx\<close>
      emit_bytes [0x41, 0x89, 0x4B, 0x04],                         \<comment> \<open>mov [r11+4], ecx\<close>
      emit_bytes [0x48, 0xBA],                                     \<comment> \<open>movabs rdx, ret_stub\<close>
      emit_u64 (d_ret_stub_addr desc),
      emit_bytes [0x48, 0x89, 0x94, 0x24, 0x80, 0x00, 0x00, 0x00], \<comment> \<open>mov [rsp+0x80], rdx\<close>
      emit_bytes [0xE9]]"

text \<open>The end of both search loops.\<close>

definition ins_next :: "emitter list" where
  "ins_next =
     [emit_bytes [0x48, 0xFF, 0xC3], emit_bytes [0xE9]]"

text \<open>The offsets that \<open>emit_entry_retprobe_push\<close> records for its jump fix-ups.\<close>

record scan_offsets =
  jz_no_ret_imm :: nat
  loop_start :: nat
  jae_loop_no_ret_imm :: nat
  jz_try_claim_imm :: nat
  jz_existing_found_imm :: nat
  jmp_next_existing_imm :: nat
  try_claim_label :: nat
  jz_found_imm :: nat
  jz_claim_race_found_imm :: nat
  jmp_next_claim_imm :: nat

text \<open>The search for the thread's shadow-stack slot, claiming a free one.\<close>

definition emit_retprobe_scan ::
    "probe_desc \<Rightarrow> code_writer \<Rightarrow> errno + (code_writer \<times> scan_offsets)" where
  "emit_retprobe_scan desc w =
     bindR (emits (ins_scan_init desc) w) (\<lambda>w.
     let jz_no_ret = cw_len w in
     bindR (emits (emit_u32 0 # ins_scan_clear) w) (\<lambda>w.
     let loop = cw_len w in
     bindR (emits ins_scan_bound w) (\<lambda>w.
     let jae_loop = cw_len w in
     bindR (emits (emit_u32 0 # ins_scan_load) w) (\<lambda>w.
     let jz_try_claim = cw_len w in
     bindR (emits (emit_u32 0 # ins_scan_cmp) w) (\<lambda>w.
     let jz_existing = cw_len w in
     bindR (emits [emit_u32 0, emit_bytes [0xE9]] w) (\<lambda>w.            \<comment> \<open>jmp next\<close>
     let jmp_next_existing = cw_len w in
     bindR (emit_u32 0 w) (\<lambda>w.
     let try_claim = cw_len w in
     bindR (emits ins_scan_claim w) (\<lambda>w.
     let jz_found = cw_len w in
     bindR (emits (emit_u32 0 # ins_scan_race) w) (\<lambda>w.
     let jz_race = cw_len w in
     bindR (emits [emit_u32 0, emit_bytes [0xE9]] w) (\<lambda>w.            \<comment> \<open>jmp next\<close>
     let jmp_next_claim = cw_len w in
     bindR (emit_u32 0 w) (\<lambda>w.
     Inr (w, \<lparr> jz_no_ret_imm = jz_no_ret, loop_start = loop, jae_loop_no_ret_imm = jae_loop,
               jz_try_claim_imm = jz_try_claim, jz_existing_found_imm = jz_existing,
               jmp_next_existing_imm = jmp_next_existing, try_claim_label = try_claim,
               jz_found_imm = jz_found, jz_claim_race_found_imm = jz_race,
               jmp_next_claim_imm = jmp_next_claim \<rparr>))))))))))))"

text \<open>
  The push on the slot found: the result is the two recorded offsets \<open>jae_depth_no_ret_imm\<close>
  and \<open>jmp_done_imm\<close>.
\<close>

definition emit_retprobe_found ::
    "probe_desc \<Rightarrow> code_writer \<Rightarrow> errno + (code_writer \<times> nat \<times> nat)" where
  "emit_retprobe_found desc w =
     bindR (emits ins_push_check w) (\<lambda>w.
     let jae_depth = cw_len w in
     bindR (emits (emit_u32 0 # ins_push_body desc) w) (\<lambda>w.
     let jmp_done = cw_len w in
     bindR (emit_u32 0 w) (\<lambda>w. Inr (w, jae_depth, jmp_done))))"

definition emit_entry_retprobe_push :: "probe_desc \<Rightarrow> nat \<Rightarrow> code_writer \<Rightarrow> errno + code_writer" where
  "emit_entry_retprobe_push desc timestamp_done_offset w =
     (if d_has_retprobe desc = 0 \<or> timestamp_done_offset = 0 then Inr w
      else
        bindR (emit_retprobe_scan desc w) (\<lambda>(w, so).
        let found_label = cw_len w in
        bindR (emit_retprobe_found desc w) (\<lambda>(w, jae_depth_no_ret_imm, jmp_done_imm).
        let next_label = cw_len w in
        bindR (emits ins_next w) (\<lambda>w.
        let jnz_loop_imm = cw_len w in
        bindR (emit_u32 0 w) (\<lambda>w.
        let no_ret_label = cw_len w;
            done_label = cw_len w;
            w = patch_rel32 (jz_no_ret_imm so) (rel32_to no_ret_label (jz_no_ret_imm so)) w;
            w = patch_rel32 (jz_try_claim_imm so) (rel32_to (try_claim_label so) (jz_try_claim_imm so)) w;
            w = patch_rel32 (jz_existing_found_imm so) (rel32_to found_label (jz_existing_found_imm so)) w;
            w = patch_rel32 (jz_found_imm so) (rel32_to found_label (jz_found_imm so)) w;
            w = patch_rel32 (jz_claim_race_found_imm so) (rel32_to found_label (jz_claim_race_found_imm so)) w;
            w = patch_rel32 (jmp_next_existing_imm so) (rel32_to next_label (jmp_next_existing_imm so)) w;
            w = patch_rel32 (jmp_next_claim_imm so) (rel32_to next_label (jmp_next_claim_imm so)) w;
            w = patch_rel32 (jae_loop_no_ret_imm so) (rel32_to no_ret_label (jae_loop_no_ret_imm so)) w;
            w = patch_rel32 jae_depth_no_ret_imm (rel32_to no_ret_label jae_depth_no_ret_imm) w;
            w = patch_rel32 jnz_loop_imm (rel32_to (loop_start so) jnz_loop_imm) w;
            w = patch_rel32 jmp_done_imm (rel32_to done_label jmp_done_imm) w
        in Inr w)))))"

text \<open>\<open>saved_arg_offsets\<close>: where the saved argument registers lie above \<open>rsp\<close>.\<close>

definition saved_arg_offsets :: "u8 list" where
  "saved_arg_offsets = [72, 80, 88, 96, 56, 48]"

text \<open>The pieces of the entry stub.\<close>

definition ins_entry_head :: "probe_desc \<Rightarrow> emitter list" where
  "ins_entry_head desc =
     [emit_bytes [0x9C,                                            \<comment> \<open>pushfq\<close>
                  0x50, 0x53, 0x51, 0x52,                          \<comment> \<open>push rax, rbx, rcx, rdx\<close>
                  0x56, 0x57, 0x55,                                \<comment> \<open>push rsi, rdi, rbp\<close>
                  0x41, 0x50, 0x41, 0x51,                          \<comment> \<open>push r8, r9\<close>
                  0x41, 0x52, 0x41, 0x53,                          \<comment> \<open>push r10, r11\<close>
                  0x41, 0x54, 0x41, 0x55,                          \<comment> \<open>push r12, r13\<close>
                  0x41, 0x56, 0x41, 0x57],                         \<comment> \<open>push r14, r15\<close>
      emit_movabs_r10 (d_config_addr desc)]"

definition ins_cmp_enabled :: "emitter list" where
  "ins_cmp_enabled =
     [emit_bytes [0x41, 0x83, 0x3A, 0x00],                         \<comment> \<open>cmp dword [r10], 0\<close>
      emit_bytes [0x0F, 0x84]]"

definition ins_event_slot :: "emitter list" where
  "ins_event_slot =
     [emit_bytes [0x4D, 0x8B, 0x5A, 0x08],                         \<comment> \<open>mov r11, [r10+8]\<close>
      emit_bytes [0xB8, 0x01, 0x00, 0x00, 0x00],                   \<comment> \<open>mov eax, 1\<close>
      emit_bytes [0xF0, 0x49, 0x0F, 0xC1, 0x03],                   \<comment> \<open>lock xadd [r11], rax\<close>
      emit_bytes [0x25, 0xFF, 0x0F, 0x00, 0x00],                   \<comment> \<open>and eax, 0xFFF\<close>
      emit_bytes [0x49, 0x89, 0xC0],                               \<comment> \<open>mov r8, rax\<close>
      emit_bytes [0x49, 0xC1, 0xE0, 0x06],                         \<comment> \<open>shl r8, 6\<close>
      emit_bytes [0x49, 0x89, 0xC1],                               \<comment> \<open>mov r9, rax\<close>
      emit_bytes [0x49, 0xC1, 0xE1, 0x04],                         \<comment> \<open>shl r9, 4\<close>
      emit_bytes [0x4D, 0x01, 0xC8],                               \<comment> \<open>add r8, r9\<close>
      emit_bytes [0x49, 0x89, 0xC1],                               \<comment> \<open>mov r9, rax\<close>
      emit_bytes [0x49, 0xC1, 0xE1, 0x03],                         \<comment> \<open>shl r9, 3\<close>
      emit_bytes [0x4D, 0x01, 0xC8],                               \<comment> \<open>add r8, r9\<close>
      emit_bytes [0x4F, 0x8D, 0x44, 0x03, 0x10]]"

definition ins_entry_ids :: "probe_desc \<Rightarrow> emitter list" where
  "ins_entry_ids desc =
     [emit_mov_mr8_disp8_imm32 off_pid (d_pid desc),
      emit_mov_mr8_disp8_imm32 off_probe_id (d_probe_id desc),
      emit_mov_mr8_disp8_imm32 off_event_type PROBE_EVENT_ENTRY]"

definition ins_entry_args :: "emitter list" where
  "ins_entry_args =
     (concat (map (\<lambda>i.
      [emit_mov_rax_from_rsp_disp8 (saved_arg_offsets ! i),
       emit_mov_mr8_disp8_rax (off_args + of_nat i * 8)]) [0..<6]))"

definition ins_entry_zero :: "emitter list" where
  "ins_entry_zero =
     [emit_mov_mr8_disp8_imm64_zero off_retval,
      emit_mov_mr8_disp8_imm64_zero off_duration]"

definition ins_entry_tail :: "probe_desc \<Rightarrow> emitter list" where
  "ins_entry_tail desc =
     [emit_bytes [0x41, 0x5F, 0x41, 0x5E,                          \<comment> \<open>pop r15, r14\<close>
                  0x41, 0x5D, 0x41, 0x5C,                          \<comment> \<open>pop r13, r12\<close>
                  0x41, 0x5B, 0x41, 0x5A,                          \<comment> \<open>pop r11, r10\<close>
                  0x41, 0x59, 0x41, 0x58,                          \<comment> \<open>pop r9, r8\<close>
                  0x5D, 0x5F, 0x5E,                                \<comment> \<open>pop rbp, rdi, rsi\<close>
                  0x5A, 0x59, 0x5B, 0x58,                          \<comment> \<open>pop rdx, rcx, rbx, rax\<close>
                  0x9D],                                           \<comment> \<open>popfq\<close>
      emit_abs_jmp_r11_preserve (d_trampoline_addr desc)]"

definition lp_x86_64_build_entry_stub :: "probe_desc \<Rightarrow> nat \<Rightarrow> errno + u8 list" where
  "lp_x86_64_build_entry_stub desc buf_len =
     bindR (emits (ins_entry_head desc) (cw_new buf_len)) (\<lambda>w.
     bindR (emits ins_cmp_enabled w) (\<lambda>w.
     let je_imm_offset = cw_len w in
     bindR (emits (emit_u32 0 # ins_event_slot) w) (\<lambda>w.
     bindR (emits (ins_entry_ids desc) w) (\<lambda>w.
     bindR (emits ins_entry_args w) (\<lambda>w.
     bindR (emit_entry_timestamp_and_tid w) (\<lambda>(w, timestamp_done_offset).
     bindR (emits ins_entry_zero w) (\<lambda>w.
     bindR (emit_entry_retprobe_push desc timestamp_done_offset w) (\<lambda>w.
     let w = patch_rel32 je_imm_offset (rel32_to (cw_len w) je_imm_offset) w in
     bindR (emits (ins_entry_tail desc) w) (\<lambda>w.
     Inr (cw_buf w))))))))))"

section \<open>The return stub\<close>

text \<open>The pieces of the return stub.\<close>

definition ins_ret_tid :: "emitter list" where
  "ins_ret_tid =
     [emit_bytes [0xB8, 0xBA, 0x00, 0x00, 0x00],                   \<comment> \<open>mov eax, SYS_gettid\<close>
      emit_bytes [0x0F, 0x05],                                     \<comment> \<open>syscall\<close>
      emit_bytes [0x41, 0x89, 0xC0],                               \<comment> \<open>mov r8d, eax\<close>
      emit_bytes [0x31, 0xDB]]"

definition ins_ret_load :: "emitter list" where
  "ins_ret_load =
     [emit_bytes [0x49, 0x89, 0xDB],                               \<comment> \<open>mov r11, rbx\<close>
      emit_bytes [0x4D, 0x69, 0xDB],                               \<comment> \<open>imul r11, entry_size\<close>
      emit_u32 (of_nat sizeof_lp_shadow_stack_entry),
      emit_bytes [0x4F, 0x8D, 0x1C, 0x1A],                         \<comment> \<open>lea r11, [r10+r11]\<close>
      emit_bytes [0x41, 0x8B, 0x0B],                               \<comment> \<open>mov ecx, [r11]\<close>
      emit_bytes [0x44, 0x39, 0xC1],                               \<comment> \<open>cmp ecx, r8d\<close>
      emit_bytes [0x0F, 0x84]]"

definition ins_pop_check :: "emitter list" where
  "ins_pop_check =
     [emit_bytes [0x41, 0x8B, 0x4B, 0x04],                         \<comment> \<open>mov ecx, [r11+4]\<close>
      emit_bytes [0x85, 0xC9],                                     \<comment> \<open>test ecx, ecx\<close>
      emit_bytes [0x0F, 0x84]]"

definition ins_pop_body :: "probe_desc \<Rightarrow> emitter list" where
  "ins_pop_body desc =
     [emit_bytes [0xFF, 0xC9],                                     \<comment> \<open>dec ecx\<close>
      emit_bytes [0x41, 0x89, 0x4B, 0x04],                         \<comment> \<open>mov [r11+4], ecx\<close>
      emit_bytes [0x49, 0x8B, 0x54, 0xCB, 0x08],                   \<comment> \<open>mov rdx, [r11+rcx*8+8]\<close>
      emit_bytes [0x48, 0x89, 0x54, 0x24, 0x08],                   \<comment> \<open>mov [rsp+8], rdx\<close>
      emit_bytes [0x4C, 0x89, 0xDB],                               \<comment> \<open>mov rbx, r11\<close>
      emit_bytes [0x49, 0x89, 0xCC],                               \<comment> \<open>mov r12, rcx\<close>
      emit_bytes [0x49, 0xBA],                                     \<comment> \<open>movabs r10, config\<close>
      emit_u64 (d_config_addr desc),
      emit_bytes [0x4D, 0x8B, 0x52, 0x08],                         \<comment> \<open>mov r10, [r10+8]\<close>
      emit_bytes [0xB8, 0x01, 0x00, 0x00, 0x00],                   \<comment> \<open>mov eax, 1\<close>
      emit_bytes [0xF0, 0x49, 0x0F, 0xC1, 0x02],                   \<comment> \<open>lock xadd [r10], rax\<close>
      emit_bytes [0x25, 0xFF, 0x0F, 0x00, 0x00],                   \<comment> \<open>and eax, 0xFFF\<close>
      emit_bytes [0x49, 0x89, 0xC0],                               \<comment> \<open>mov r8, rax\<close>
      emit_bytes [0x49, 0xC1, 0xE0, 0x06],                         \<comment> \<open>shl r8, 6\<close>
      emit_bytes [0x49, 0x89, 0xC1],                               \<comment> \<open>mov r9, rax\<close>
      emit_bytes [0x49, 0xC1, 0xE1, 0x04],                         \<comment> \<open>shl r9, 4\<close>
      emit_bytes [0x4D, 0x01, 0xC8],                               \<comment> \<open>add r8, r9\<close>
      emit_bytes [0x49, 0x89, 0xC1],                               \<comment> \<open>mov r9, rax\<close>
      emit_bytes [0x49, 0xC1, 0xE1, 0x03],                         \<comment> \<open>shl r9, 3\<close>
      emit_bytes [0x4D, 0x01, 0xC8],                               \<comment> \<open>add r8, r9\<close>
      emit_bytes [0x4F, 0x8D, 0x44, 0x02, 0x10],                   \<comment> \<open>lea r8, [r10+r8+0x10]\<close>
      emit_mov_mr8_disp8_imm32 off_pid (d_pid desc),
      emit_bytes [0x8B, 0x13],                                     \<comment> \<open>mov edx, [rbx]\<close>
      emit_bytes [0x41, 0x89, 0x50, off_tid],                      \<comment> \<open>mov [r8+tid], edx\<close>
      emit_mov_mr8_disp8_imm32 off_probe_id (d_probe_id desc),
      emit_mov_mr8_disp8_imm32 off_event_type PROBE_EVENT_RETURN,
      emit_mov_mr8_disp8_imm64_zero off_args,
      emit_mov_mr8_disp8_imm64_zero (off_args + 8),
      emit_mov_mr8_disp8_imm64_zero (off_args + 16),
      emit_mov_mr8_disp8_imm64_zero (off_args + 24),
      emit_mov_mr8_disp8_imm64_zero (off_args + 32),
      emit_mov_mr8_disp8_imm64_zero (off_args + 40),
      emit_bytes [0x48, 0x8B, 0x54, 0x24, 0x50],                   \<comment> \<open>mov rdx, [rsp+0x50]\<close>
      emit_bytes [0x49, 0x89, 0x50, off_retval],                   \<comment> \<open>mov [r8+retval], rdx\<close>
      emit_bytes [0x48, 0x83, 0xEC, 0x10],                         \<comment> \<open>sub rsp, 16\<close>
      emit_bytes [0xB8, 0xE4, 0x00, 0x00, 0x00],                   \<comment> \<open>mov eax, SYS_clock_gettime\<close>
      emit_bytes [0x31, 0xFF],                                     \<comment> \<open>xor edi, edi\<close>
      emit_bytes [0x48, 0x89, 0xE6],                               \<comment> \<open>mov rsi, rsp\<close>
      emit_bytes [0x0F, 0x05],                                     \<comment> \<open>syscall\<close>
      emit_bytes [0x48, 0x8B, 0x04, 0x24],                         \<comment> \<open>mov rax, [rsp]\<close>
      emit_bytes [0x48, 0x69, 0xC0, 0x00, 0xCA, 0x9A, 0x3B],       \<comment> \<open>imul rax, 1000000000\<close>
      emit_bytes [0x48, 0x03, 0x44, 0x24, 0x08],                   \<comment> \<open>add rax, [rsp+8]\<close>
      emit_bytes [0x48, 0x83, 0xC4, 0x10],                         \<comment> \<open>add rsp, 16\<close>
      emit_bytes [0x49, 0x89, 0x40, off_timestamp],                \<comment> \<open>mov [r8+timestamp], rax\<close>
      emit_bytes [0x4A, 0x8B, 0x94, 0xE3, 0x08, 0x02, 0x00, 0x00], \<comment> \<open>mov rdx, [rbx+r12*8+0x208]\<close>
      emit_bytes [0x48, 0x29, 0xD0],                               \<comment> \<open>sub rax, rdx\<close>
      emit_bytes [0x49, 0x89, 0x40, off_duration],                 \<comment> \<open>mov [r8+duration], rax\<close>
      emit_bytes [0x41, 0x5C,                                      \<comment> \<open>pop r12\<close>
                  0x41, 0x5B, 0x41, 0x5A,                          \<comment> \<open>pop r11, r10\<close>
                  0x41, 0x59, 0x41, 0x58,                          \<comment> \<open>pop r9, r8\<close>
                  0x5F, 0x5E,                                      \<comment> \<open>pop rdi, rsi\<close>
                  0x5A, 0x59, 0x5B,                                \<comment> \<open>pop rdx, rcx, rbx\<close>
                  0x58,                                            \<comment> \<open>pop rax\<close>
                  0x9D],                                           \<comment> \<open>popfq\<close>
      emit_bytes [0x41, 0xFF, 0xE3]]"

definition ins_ret_head :: "probe_desc \<Rightarrow> emitter list" where
  "ins_ret_head desc =
     [emit_bytes [0x9C,                                         \<comment> \<open>pushfq\<close>
                  0x50,                                         \<comment> \<open>push rax\<close>
                  0x53, 0x51, 0x52,                             \<comment> \<open>push rbx, rcx, rdx\<close>
                  0x56, 0x57,                                   \<comment> \<open>push rsi, rdi\<close>
                  0x41, 0x50, 0x41, 0x51,                       \<comment> \<open>push r8, r9\<close>
                  0x41, 0x52, 0x41, 0x53,                       \<comment> \<open>push r10, r11\<close>
                  0x41, 0x54],                                  \<comment> \<open>push r12\<close>
      emit_movabs_r10 (d_shadow_stack_addr desc)]"

text \<open>The recorded offsets of \<open>lp_x86_64_build_ret_stub\<close>'s search loop.\<close>

record ret_offsets =
  ret_loop_start :: nat
  ret_jae_loop_fallback_imm :: nat
  ret_jz_found_imm :: nat
  ret_jmp_next_imm :: nat

definition emit_ret_scan :: "code_writer \<Rightarrow> errno + (code_writer \<times> ret_offsets)" where
  "emit_ret_scan w =
     bindR (emits ins_ret_tid w) (\<lambda>w.
     let loop = cw_len w in
     bindR (emits ins_scan_bound w) (\<lambda>w.
     let jae = cw_len w in
     bindR (emits (emit_u32 0 # ins_ret_load) w) (\<lambda>w.
     let jz = cw_len w in
     bindR (emits [emit_u32 0, emit_bytes [0xE9]] w) (\<lambda>w.            \<comment> \<open>jmp next\<close>
     let jmp = cw_len w in
     bindR (emit_u32 0 w) (\<lambda>w.
     Inr (w, \<lparr> ret_loop_start = loop, ret_jae_loop_fallback_imm = jae,
               ret_jz_found_imm = jz, ret_jmp_next_imm = jmp \<rparr>))))))"

text \<open>The pop and the return event; the result records \<open>jz_empty_fallback_imm\<close>.\<close>

definition emit_ret_found :: "probe_desc \<Rightarrow> code_writer \<Rightarrow> errno + (code_writer \<times> nat)" where
  "emit_ret_found desc w =
     bindR (emits ins_pop_check w) (\<lambda>w.
     let jz_empty = cw_len w in
     bindR (emits (emit_u32 0 # ins_pop_body desc) w) (\<lambda>w.
     Inr (w, jz_empty)))"

definition lp_x86_64_build_ret_stub :: "probe_desc \<Rightarrow> nat \<Rightarrow> errno + u8 list" where
  "lp_x86_64_build_ret_stub desc buf_len =
     (if d_shadow_stack_addr desc = 0 then Inl EINVAL
      else
        bindR (emits (ins_ret_head desc) (cw_new buf_len)) (\<lambda>w.
        bindR (emit_ret_scan w) (\<lambda>(w, ro).
        let found_label = cw_len w in
        bindR (emit_ret_found desc w) (\<lambda>(w, jz_empty_fallback_imm).
        let next_label = cw_len w in
        bindR (emits ins_next w) (\<lambda>w.
        let jmp_loop_imm = cw_len w in
        bindR (emit_u32 0 w) (\<lambda>w.
        let fallback_label = cw_len w in
        bindR (emit_bytes [0x0F, 0x0B] w) (\<lambda>w.                       \<comment> \<open>ud2\<close>
        let w = patch_rel32 (ret_jz_found_imm ro) (rel32_to found_label (ret_jz_found_imm ro)) w;
            w = patch_rel32 (ret_jmp_next_imm ro) (rel32_to next_label (ret_jmp_next_imm ro)) w;
            w = patch_rel32 jmp_loop_imm (rel32_to (ret_loop_start ro) jmp_loop_imm) w;
            w = patch_rel32 (ret_jae_loop_fallback_imm ro)
                  (rel32_to fallback_label (ret_jae_loop_fallback_imm ro)) w;
            w = patch_rel32 jz_empty_fallback_imm (rel32_to fallback_label jz_empty_fallback_imm) w
        in Inr (cw_buf w))))))))"

end
