(* ===== verification/Patch.thy ===== *)
theory Patch
  imports Insn_Length Ref_Kernel Stub_Builder
begin

text \<open>
  \<^verbatim>\<open>injector/patch_x86_64.c\<close>: the relative jump that replaces the first instructions of the probed
  function, the copy of these instructions that is kept in the descriptor, and their return.
\<close>

section \<open>The operations\<close>

definition LP_X86_64_JMP_REL32_SIZE :: nat where "LP_X86_64_JMP_REL32_SIZE = 5"

text \<open>
  The difference is taken in \<open>int64_t\<close>; when it does not fit, the C program has no defined
  behaviour.
\<close>

definition lp_x86_64_make_rel_jmp :: "u64 \<Rightarrow> u64 \<Rightarrow> errno + u8 list" where
  "lp_x86_64_make_rel_jmp from_addr to_addr =
     (let rel = sint to_addr - sint (from_addr + of_nat LP_X86_64_JMP_REL32_SIZE) in
      if rel < - (2 ^ 63) \<or> 2 ^ 63 \<le> rel then Inl UNDEFINED
      else if rel < - (2 ^ 31) \<or> 2 ^ 31 - 1 < rel then Inl ERANGE
      else Inr (0xE9 # le32 (word_of_int rel)))"

definition lp_x86_64_read_original_code ::
    "'w kernel \<Rightarrow> pid_t \<Rightarrow> probe_desc \<Rightarrow> c_int \<Rightarrow> ('w, probe_desc) est" where
  "lp_x86_64_read_original_code K pid desc min_len =
     (let min_len = (if sint min_len < int LP_X86_64_JMP_REL32_SIZE
                     then of_nat LP_X86_64_JMP_REL32_SIZE else min_len)
      in
        if int LP_MAX_ORIGINAL_CODE < sint min_len then raiseE EINVAL
        else
          bindE (lp_remote_read K pid (d_target_addr desc) OUT LP_MAX_ORIGINAL_CODE) (\<lambda>probe_code.
          bindE (liftE (lp_x86_64_calc_patch_len (Some probe_code) (nat (sint min_len)))) (\<lambda>patch_len.
          if LP_MAX_ORIGINAL_CODE < patch_len then raiseE EOVERFLOW
          else retE (desc\<lparr>
            d_original_code := take patch_len probe_code @ drop patch_len (d_original_code desc),
            d_original_len := of_nat patch_len\<rparr>))))"

definition lp_x86_64_patch_entry :: "'w kernel \<Rightarrow> pid_t \<Rightarrow> probe_desc \<Rightarrow> ('w, unit) est" where
  "lp_x86_64_patch_entry K pid desc =
     (if sint (d_original_len desc) < int LP_X86_64_JMP_REL32_SIZE then raiseE EINVAL
      else
        bindE (liftE (lp_x86_64_make_rel_jmp (d_target_addr desc) (d_entry_stub_addr desc))) (\<lambda>patch.
        lp_remote_write K pid (d_target_addr desc) (Some patch)))"

definition lp_x86_64_restore_entry :: "'w kernel \<Rightarrow> pid_t \<Rightarrow> probe_desc \<Rightarrow> ('w, unit) est" where
  "lp_x86_64_restore_entry K pid desc =
     (if sint (d_original_len desc) \<le> 0 \<or> int LP_MAX_ORIGINAL_CODE < sint (d_original_len desc)
      then raiseE EINVAL
      else lp_remote_write K pid (d_target_addr desc)
             (Some (take (nat (sint (d_original_len desc))) (d_original_code desc))))"

section \<open>The jump\<close>

lemma sint_diff_word: "word_of_int (sint (a :: 'a::len word) - sint b) = a - b"
  by simp

lemma scast_word_of_int32:
  assumes "- (2 ^ 31) \<le> r" and "r < 2 ^ 31"
  shows "scast (word_of_int r :: u32) = (word_of_int r :: u64)"
proof -
  have "sint (word_of_int r :: u32) = r"
    using assms by (simp add: signed_of_int signed_take_bit_int_eq_self)
  then show ?thesis by (simp add: scast_eq)
qed

lemma rel_jmp_target:
  assumes "lp_x86_64_make_rel_jmp a b = Inr out"
  shows "length out = 5 \<and> hd out = 0xE9 \<and> a + 5 + scast (le_word (tl out) :: u32) = b"
  using assms scast_word_of_int32[of "sint b - sint (a + 5)"]
  by (auto simp: lp_x86_64_make_rel_jmp_def Let_def LP_X86_64_JMP_REL32_SIZE_def sint_diff_word
      split: if_splits)

section \<open>The displaced instructions\<close>

text \<open>A descriptor holds the code \<open>code\<close> that patching its target displaces.\<close>

definition holds_code :: "probe_desc \<Rightarrow> u8 list \<Rightarrow> bool" where
  "holds_code d code \<longleftrightarrow>
     5 \<le> length code \<and> length code \<le> LP_MAX_ORIGINAL_CODE \<and>
     d_original_len d = of_nat (length code) \<and> take (length code) (d_original_code d) = code"

lemma sint_of_nat32: "n < 2 ^ 31 \<Longrightarrow> sint (of_nat n :: 32 word) = int n"
  by (simp add: signed_of_nat signed_take_bit_int_eq_self)

lemma holds_code_len:
  "holds_code d code \<Longrightarrow> sint (d_original_len d) = int (length code)"
  by (simp add: holds_code_def sint_of_nat32 LP_MAX_ORIGINAL_CODE_def)

lemma patch_len_bounds:
  assumes "lp_x86_64_calc_patch_len (Some code) n = Inr k"
  shows "n \<le> k \<and> k \<le> length code \<and> k \<le> LP_MAX_ORIGINAL_CODE"
proof -
  from assms calc_patch_loop_iff[of 0 code n k] obtain ns where "0 < n" and
    "patch_split code 0 n ns" "k = sum_list ns"
    by (auto simp: lp_x86_64_calc_patch_len_def split: if_splits)
  then show ?thesis
    using decodes_within[of code 0 ns] by (cases "ns = []") (auto simp: patch_split_def)
qed

lemma trampoline_bytes:
  "lp_x86_64_build_trampoline desc resume cap = Inr bs \<Longrightarrow>
   \<exists>jump. length jump = 17 \<and> bs = take (nat (sint (d_original_len desc))) (d_original_code desc) @ jump"
  by (auto simp: lp_x86_64_build_trampoline_def emit_abs_jmp_r11_preserve_def emit_u64_def Let_def
      emit_at cw_new_def split: if_splits)

section \<open>What the operations do to the target\<close>

lemma mem_write_restores:
  assumes "n \<le> 2 ^ 64" and "\<And>x. x \<notin> range64 a n \<Longrightarrow> m x = m' x"
  shows "mem_write m a (mem_read m' a n) = m'"
proof
  fix x
  show "mem_write m a (mem_read m' a n) x = m' x"
  proof (cases "x \<in> range64 a n")
    case True
    then show ?thesis
      using assms(1) by (simp add: mem_write_def in_range64 nth_mem_read)
  next
    case False
    then show ?thesis using assms by (simp add: mem_write_outside)
  qed
qed

context kernel_memory
begin

lemma read_original_ok:
  assumes "lp_x86_64_read_original_code K p d m w = (Inr d', w')"
  defines "found \<equiv> mem_read (mem w p) (d_target_addr d) LP_MAX_ORIGINAL_CODE"
  shows "\<exists>n. lp_x86_64_calc_patch_len (Some found) (nat (max 5 (sint m))) = Inr n \<and>
    d' = d\<lparr>d_original_code := take n found @ drop n (d_original_code d), d_original_len := of_nat n\<rparr> \<and>
    holds_code d' (take n found) \<and> mem w' p = mem w p"
proof -
  let ?m = "if sint m < 5 then 5 else m"
  have m: "nat (sint ?m) = nat (max 5 (sint m))" by simp
  from assms(1) obtain bs w1 n where rd: "remote_read K p (d_target_addr d) OUT LP_MAX_ORIGINAL_CODE w = (Inr bs, w1)"
    and n: "lp_x86_64_calc_patch_len (Some bs) (nat (sint ?m)) = Inr n" and w1: "w1 = w'"
    and d': "d' = d\<lparr>d_original_code := take n bs @ drop n (d_original_code d), d_original_len := of_nat n\<rparr>"
    by (auto simp: lp_x86_64_read_original_code_def lp_remote_read_def bindE_eq liftE_def retE_def
        raiseE_def LP_X86_64_JMP_REL32_SIZE_def Let_def split: if_splits)
  have bs: "bs = found" and mem: "mem w' p = mem w p"
    using rm.rread_ok[OF rd] w1 by (simp_all add: found_def)
  have "5 \<le> n" "n \<le> length bs" "n \<le> LP_MAX_ORIGINAL_CODE"
    using patch_len_bounds[OF n] by (auto split: if_splits)
  then have "holds_code d' (take n found)"
    using d' bs by (simp add: holds_code_def)
  then show ?thesis using n d' mem unfolding bs m by blast
qed

lemma read_original_fail:
  assumes "lp_x86_64_read_original_code K p d m w = (Inl e, w')"
  shows "mem w' p = mem w p"
  using assms rm.rread_fail[of p "d_target_addr d" LP_MAX_ORIGINAL_CODE w]
    rm.rread_ok[of p "d_target_addr d" LP_MAX_ORIGINAL_CODE w]
  by (auto simp: lp_x86_64_read_original_code_def lp_remote_read_def bindE_eq liftE_def retE_def
      raiseE_def Let_def split: if_splits)

lemma patch_entry_frame:
  assumes "lp_x86_64_patch_entry K p d w = (r, w')" and "x \<notin> range64 (d_target_addr d) 5"
  shows "mem w' p x = mem w p x"
proof (cases "\<exists>patch. \<not> sint (d_original_len d) < 5 \<and>
    lp_x86_64_make_rel_jmp (d_target_addr d) (d_entry_stub_addr d) = Inr patch")
  case False
  with assms(1) show ?thesis
    by (auto simp: lp_x86_64_patch_entry_def LP_X86_64_JMP_REL32_SIZE_def liftE_def raiseE_def
        bindE_def split: if_splits sum.splits)
next
  case True
  then obtain patch where
    patch: "lp_x86_64_make_rel_jmp (d_target_addr d) (d_entry_stub_addr d) = Inr patch" by blast
  then have "length patch = 5" using rel_jmp_target by blast
  then show ?thesis
    using assms True patch rm.rwrite_frame[of patch p "d_target_addr d" w r w' x]
    by (auto simp: lp_x86_64_patch_entry_def LP_X86_64_JMP_REL32_SIZE_def liftE_def bindE_def
        lp_remote_write_def)
qed

lemma patch_entry_ok:
  assumes "lp_x86_64_patch_entry K p d w = (Inr u, w')"
  shows "\<exists>patch. lp_x86_64_make_rel_jmp (d_target_addr d) (d_entry_stub_addr d) = Inr patch \<and>
    mem w' p = mem_write (mem w p) (d_target_addr d) patch"
proof -
  from assms obtain patch where
    patch: "lp_x86_64_make_rel_jmp (d_target_addr d) (d_entry_stub_addr d) = Inr patch"
    and wr: "remote_write K p (d_target_addr d) (Some patch) w = (Inr u, w')"
    by (auto simp: lp_x86_64_patch_entry_def liftE_def bindE_eq raiseE_def lp_remote_write_def
        split: if_splits)
  then show ?thesis
    using rm.rwrite_ok[OF _ wr] rel_jmp_target[OF patch] by auto
qed

lemma restore_entry_eq:
  "holds_code d code \<Longrightarrow> lp_x86_64_restore_entry K p d = remote_write K p (d_target_addr d) (Some code)"
  using holds_code_len[of d code]
  by (auto simp: lp_x86_64_restore_entry_def lp_remote_write_def holds_code_def)

lemma restore_entry_ok:
  assumes "holds_code d code" and "lp_x86_64_restore_entry K p d w = (Inr u, w')"
  shows "mem w' p = mem_write (mem w p) (d_target_addr d) code"
  using assms by (intro rm.rwrite_ok[of _ _ _ _ u])
    (auto simp: restore_entry_eq holds_code_def LP_MAX_ORIGINAL_CODE_def)

end

section \<open>Properties\<close>

text \<open>
  C29: the jump that \<open>lp_x86_64_make_rel_jmp\<close> encodes is five bytes long and reaches exactly the
  address asked for; it fails with \<open>ERANGE\<close> exactly when that address is further than a 32-bit
  displacement from the end of the jump.
\<close>

theorem rel_jmp_reaches_target:
  "case lp_x86_64_make_rel_jmp a b of
      Inr out \<Rightarrow> length out = 5 \<and> hd out = 0xE9 \<and> a + 5 + scast (le_word (tl out) :: u32) = b
    | Inl e \<Rightarrow> sint b - sint (a + 5) \<notin> {- (2 ^ 31) ..< 2 ^ 31} \<and>
        (e = ERANGE \<or> e = UNDEFINED \<and> sint b - sint (a + 5) \<notin> {- (2 ^ 63) ..< 2 ^ 63})"
  using rel_jmp_target[of a b]
  by (cases "lp_x86_64_make_rel_jmp a b")
     (auto simp: lp_x86_64_make_rel_jmp_def LP_X86_64_JMP_REL32_SIZE_def Let_def split: if_splits)

text \<open>
  C30: patching and restoring the entry of a function gives the target's memory back bit by bit:
  after a successful \<open>lp_x86_64_read_original_code\<close>, any attempt to patch and a successful
  \<open>lp_x86_64_restore_entry\<close> the memory is what it was before.
\<close>

theorem patch_restore_roundtrip:
  assumes "kernel_memory K mem" and "lp_x86_64_read_original_code K p d m w = (Inr d', w1)"
    and "lp_x86_64_patch_entry K p d' w1 = (r, w2)" and "lp_x86_64_restore_entry K p d' w2 = (Inr u, w3)"
  shows "mem w3 p = mem w p"
proof -
  let ?t = "d_target_addr d"
  from kernel_memory.read_original_ok[OF assms(1,2)] obtain n where
    d': "d_target_addr d' = ?t" and
    code: "holds_code d' (take n (mem_read (mem w p) ?t LP_MAX_ORIGINAL_CODE))" and
    w1: "mem w1 p = mem w p" by auto
  define k where "k = min n LP_MAX_ORIGINAL_CODE"
  have code: "holds_code d' (mem_read (mem w p) ?t k)" and k: "5 \<le> k" "k \<le> 32"
    using code by (auto simp: take_mem_read k_def holds_code_def LP_MAX_ORIGINAL_CODE_def)
  have "mem w2 p x = mem w p x" if "x \<notin> range64 ?t k" for x
    using kernel_memory.patch_entry_frame[OF assms(1,3), of x] that range64_sub[of 0 5 k ?t] k d' w1
    by auto
  moreover have "mem w3 p = mem_write (mem w2 p) ?t (mem_read (mem w p) ?t k)"
    using kernel_memory.restore_entry_ok[OF assms(1) code assms(4)] d' by simp
  ultimately show ?thesis
    using k by (simp add: mem_write_restores)
qed

text \<open>
  C31: the trampoline built for a descriptor whose code was just read begins with the displaced
  instructions, whole and in order: it decodes, from its first byte, to the lengths that the
  code in the target decodes to.
\<close>

theorem trampoline_keeps_instructions:
  assumes "kernel_memory K mem" and "lp_x86_64_read_original_code K p d m w = (Inr d', w1)"
    and "lp_x86_64_build_trampoline d' resume cap = Inr bs"
  shows "\<exists>ns. patch_split (mem_read (mem w p) (d_target_addr d) LP_MAX_ORIGINAL_CODE) 0
             (nat (max 5 (sint m))) ns \<and>
           decodes bs 0 ns \<and>
           take (sum_list ns) bs = mem_read (mem w p) (d_target_addr d) (sum_list ns) \<and>
           d_original_len d' = of_nat (sum_list ns)"
proof -
  let ?found = "mem_read (mem w p) (d_target_addr d) LP_MAX_ORIGINAL_CODE"
  from kernel_memory.read_original_ok[OF assms(1,2)] obtain n where
    n: "lp_x86_64_calc_patch_len (Some ?found) (nat (max 5 (sint m))) = Inr n" and
    len: "d_original_len d' = of_nat n" and code: "holds_code d' (take n ?found)" by auto
  have le: "n \<le> LP_MAX_ORIGINAL_CODE" using patch_len_bounds[OF n] by simp
  from n obtain ns where ns: "patch_split ?found 0 (nat (max 5 (sint m))) ns" "n = sum_list ns"
    using calc_patch_loop_iff[of 0 ?found "nat (max 5 (sint m))" n]
    by (auto simp: lp_x86_64_calc_patch_len_def split: if_splits)
  obtain jump where bs: "bs = take n ?found @ jump"
    using trampoline_bytes[OF assms(3)] holds_code_len[OF code] code le
    by (auto simp: holds_code_def)
  have "decodes bs 0 ns"
    unfolding bs using ns le by (intro decodes_displaced) (auto simp: patch_split_def)
  then show ?thesis
    using ns bs len le by (auto simp: take_mem_read min_def)
qed

section \<open>The operations at work\<close>

text \<open>A function that begins with \<open>push rbp; mov rbp, rsp; sub rsp, 16\<close>.\<close>

definition example_function :: "u8 list" where
  "example_function = [0x55, 0x48, 0x89, 0xE5, 0x48, 0x83, 0xEC, 0x10] @ replicate 24 0x90"

definition example_process :: ref_world where
  "example_process = ref_init\<lparr>rw_mem := mem_write (\<lambda>_. 0) 0x1000 example_function\<rparr>"

definition example_probe :: probe_desc where
  "example_probe = zero_desc\<lparr>d_pid := 7, d_target_addr := 0x1000, d_entry_stub_addr := 0x9000\<rparr>"

definition example_probe_read :: probe_desc where
  "example_probe_read =
     example_probe\<lparr>d_original_code := take 8 example_function @ replicate 24 0, d_original_len := 8\<rparr>"

lemma example_patch_len: "lp_x86_64_calc_patch_len (Some example_function) 5 = Inr 8"
  by code_simp

lemma example_read:
  "lp_x86_64_read_original_code ref_kernel 7 example_probe 5 example_process =
     (Inr example_probe_read, example_process)"
proof -
  have "mem_read (rw_mem example_process) 0x1000 32 = example_function"
    using mem_read_write_same[of example_function "\<lambda>_. 0" "0x1000"]
    by (simp add: example_process_def example_function_def)
  moreover have "lp_remote_read ref_kernel 7 0x1000 OUT 32 example_process =
      (Inr (mem_read (rw_mem example_process) 0x1000 32), example_process)"
    by (simp add: lp_remote_read_def remote_read_def ref_kernel_def example_process_def ref_init_def)
  ultimately show ?thesis
    by (simp add: lp_x86_64_read_original_code_def Let_def LP_X86_64_JMP_REL32_SIZE_def bindE_def
          LP_MAX_ORIGINAL_CODE_def liftE_def example_patch_len retE_def example_probe_def zero_desc_def
          example_probe_read_def)
qed

lemma patch_restore_roundtrip_witness:
  "let (r2, w2) = lp_x86_64_patch_entry ref_kernel 7 example_probe_read example_process;
       (r3, w3) = lp_x86_64_restore_entry ref_kernel 7 example_probe_read w2
   in r2 = Inr () \<and> rw_mem w2 0x1000 = 0xE9 \<and> r3 = Inr () \<and> rw_mem w3 = rw_mem example_process"
proof -
  obtain r2 w2 where p: "lp_x86_64_patch_entry ref_kernel 7 example_probe_read example_process = (r2, w2)"
    by fastforce
  obtain r3 w3 where r: "lp_x86_64_restore_entry ref_kernel 7 example_probe_read w2 = (r3, w3)"
    by fastforce
  have "r2 = Inr () \<and> rw_mem w2 0x1000 = 0xE9 \<and> rw_vm w2"
    using p by (simp add: lp_x86_64_patch_entry_def example_probe_read_def example_probe_def
        LP_X86_64_JMP_REL32_SIZE_def lp_x86_64_make_rel_jmp_def liftE_def bindE_def lp_remote_write_def
        remote_write_def ref_kernel_def example_process_def ref_init_def) (auto simp: mem_write_def)
  moreover from this have "r3 = Inr ()"
    using r by (simp add: lp_x86_64_restore_entry_def example_probe_read_def example_probe_def
        LP_MAX_ORIGINAL_CODE_def lp_remote_write_def remote_write_def ref_kernel_def
        example_function_def)
  ultimately show ?thesis
    using patch_restore_roundtrip[OF ref.kernel_memory_axioms example_read p, of "()" w3] r p by simp
qed

lemma trampoline_keeps_instructions_witness:
  "\<exists>bs. lp_x86_64_build_trampoline example_probe_read 0x1008 128 = Inr bs \<and>
     take 8 bs = take 8 example_function \<and> (\<exists>ns. decodes bs 0 ns \<and> 5 \<le> sum_list ns)"
proof -
  have "\<exists>bs. lp_x86_64_build_trampoline example_probe_read 0x1008 128 = Inr bs"
    by (simp add: lp_x86_64_build_trampoline_def example_probe_read_def example_probe_def
          LP_MAX_ORIGINAL_CODE_def emit_abs_jmp_r11_preserve_def emit_u64_def emit_at cw_new_def
          example_function_def)
  then obtain bs where bs: "lp_x86_64_build_trampoline example_probe_read 0x1008 128 = Inr bs" by blast
  from trampoline_keeps_instructions[OF ref.kernel_memory_axioms example_read bs]
  obtain ns where ns: "decodes bs 0 ns" "5 \<le> sum_list ns"
    by (auto simp: patch_split_def)
  obtain jump where "bs = take 8 (d_original_code example_probe_read) @ jump"
    using trampoline_bytes[OF bs] by (auto simp: example_probe_read_def)
  then have "take 8 bs = take 8 example_function"
    by (simp add: example_probe_read_def example_function_def)
  with bs ns show ?thesis by blast
qed

end
