(* ===== verification/Threads.thy ===== *)
theory Threads
  imports C_Strings Ref_Kernel "HOL-Library.Sublist"
begin

text \<open>
  \<^verbatim>\<open>controller/process_attach.c\<close> and \<^verbatim>\<open>controller/thread_control.c\<close>: attach to a process or to all
  its threads, and let them go again. Under the laws of the kernel, stopping all threads either
  stops them or rolls back, and resuming releases every thread that is listed.
\<close>

section \<open>One process\<close>

definition process_attach :: "'w kernel \<Rightarrow> pid_t \<Rightarrow> ('w, unit) est" where
  "process_attach K pid =
     (if sint pid \<le> 0 then raiseE EINVAL
      else
        bindE (ptrace_attach K pid) (\<lambda>_.
        bindE (on_fail (waitpid_wall K pid) (ignoreE (ptrace_detach K pid))) (\<lambda>status.
        if \<not> WIFSTOPPED status
        then bindE (ignoreE (ptrace_detach K pid)) (\<lambda>_. raiseE EBUSY)
        else retE ())))"

definition process_detach :: "'w kernel \<Rightarrow> pid_t \<Rightarrow> ('w, unit) est" where
  "process_detach K pid =
     (if sint pid \<le> 0 then raiseE EINVAL else ptrace_detach K pid)"

section \<open>All threads\<close>

definition attach_one_thread :: "'w kernel \<Rightarrow> pid_t \<Rightarrow> ('w, unit) est" where
  "attach_one_thread K tid =
     bindE (ptrace_attach K tid) (\<lambda>_.
     bindE (on_fail (waitpid_wall K tid) (ignoreE (ptrace_detach K tid))) (\<lambda>status.
     if \<not> WIFSTOPPED status
     then bindE (ignoreE (ptrace_detach K tid)) (\<lambda>_. raiseE EBUSY)
     else retE ()))"

fun detach_recorded_threads :: "'w kernel \<Rightarrow> pid_t list \<Rightarrow> 'w \<Rightarrow> 'w" where
  "detach_recorded_threads K [] w = w"
| "detach_recorded_threads K (tid # tids) w =
     detach_recorded_threads K tids (snd (ptrace_detach K tid w))"

definition task_path :: "pid_t \<Rightarrow> cstr" where
  "task_path pid = take 63 (ascii ''/proc/'' @ print_d pid @ ascii ''/task'')"

text \<open>The thread that a directory entry names, if it names one.\<close>

definition task_tid :: "cstr \<Rightarrow> pid_t option" where
  "task_tid d_name =
     (if d_name \<noteq> [] \<and> hd d_name = 46 then None
      else let tid = atoi d_name in if sint tid \<le> 0 then None else Some tid)"

definition MAX_ATTACHED :: nat where "MAX_ATTACHED = 4096"

text \<open>The loop of \<open>stop_all_threads\<close>; \<open>attached\<close> is the recorded part of \<^verbatim>\<open>attached_tids\<close>.\<close>

fun stop_loop :: "'w kernel \<Rightarrow> nat \<Rightarrow> cstr list \<Rightarrow> pid_t list \<Rightarrow> ('w, unit) est" where
  "stop_loop K dir [] attached w = (Inr (), sys_closedir K dir w)"
| "stop_loop K dir (d_name # entries) attached w =
     (case task_tid d_name of
        None \<Rightarrow> stop_loop K dir entries attached w
      | Some tid \<Rightarrow>
          if MAX_ATTACHED \<le> length attached
          then (Inl ENOSPC, detach_recorded_threads K attached (sys_closedir K dir w))
          else case attach_one_thread K tid w of
            (Inr _, w) \<Rightarrow> stop_loop K dir entries (attached @ [tid]) w
          | (Inl e, w) \<Rightarrow>
              if e = ESRCH then stop_loop K dir entries attached w
              else (Inl e, detach_recorded_threads K attached (sys_closedir K dir w)))"

definition stop_all_threads :: "'w kernel \<Rightarrow> pid_t \<Rightarrow> ('w, unit) est" where
  "stop_all_threads K pid =
     (if sint pid \<le> 0 then raiseE EINVAL
      else bindE (sys_opendir K (task_path pid)) (\<lambda>(dir, entries). stop_loop K dir entries []))"

text \<open>The loop of \<open>resume_all_threads\<close> keeps the first error other than \<open>ESRCH\<close>.\<close>

fun resume_loop :: "'w kernel \<Rightarrow> cstr list \<Rightarrow> errno option \<Rightarrow> 'w \<Rightarrow> errno option \<times> 'w" where
  "resume_loop K [] first_errno w = (first_errno, w)"
| "resume_loop K (d_name # entries) first_errno w =
     (case task_tid d_name of
        None \<Rightarrow> resume_loop K entries first_errno w
      | Some tid \<Rightarrow>
          (case ptrace_detach K tid w of
             (Inr _, w) \<Rightarrow> resume_loop K entries first_errno w
           | (Inl e, w) \<Rightarrow>
               resume_loop K entries
                 (if e \<noteq> ESRCH \<and> first_errno = None then Some e else first_errno) w))"

definition resume_all_threads :: "'w kernel \<Rightarrow> pid_t \<Rightarrow> ('w, unit) est" where
  "resume_all_threads K pid =
     (if sint pid \<le> 0 then raiseE EINVAL
      else bindE (sys_opendir K (task_path pid)) (\<lambda>(dir, entries) w.
        case resume_loop K entries None w of
          (first_errno, w) \<Rightarrow>
            (case first_errno of Some e \<Rightarrow> Inl e | None \<Rightarrow> Inr (), sys_closedir K dir w)))"

text \<open>The wrappers of \<^verbatim>\<open>controller_stub.c\<close>.\<close>

definition lp_attach_process :: "'w kernel \<Rightarrow> pid_t \<Rightarrow> ('w, unit) est" where
  "lp_attach_process K pid = process_attach K pid"

definition lp_detach_process :: "'w kernel \<Rightarrow> pid_t \<Rightarrow> ('w, unit) est" where
  "lp_detach_process K pid = process_detach K pid"

definition lp_stop_all_threads :: "'w kernel \<Rightarrow> pid_t \<Rightarrow> ('w, unit) est" where
  "lp_stop_all_threads K pid = stop_all_threads K pid"

definition lp_resume_all_threads :: "'w kernel \<Rightarrow> pid_t \<Rightarrow> ('w, unit) est" where
  "lp_resume_all_threads K pid = resume_all_threads K pid"

section \<open>What the loops preserve\<close>

text \<open>What the calls preserve, stopping and resuming all threads preserves.\<close>

lemma threads_preserve:
  assumes "\<And>t. preserves P (ptrace_attach K t)" and "\<And>t. preserves P (ptrace_detach K t)"
    and "\<And>t. preserves P (waitpid_wall K t)" and "\<And>path. preserves P (sys_opendir K path)"
    and "\<And>d w. P w \<Longrightarrow> P (sys_closedir K d w)"
  shows "preserves P (stop_all_threads K pid)" and "preserves P (resume_all_threads K pid)"
proof -
  have one: "preserves P (attach_one_thread K t)" for t
    unfolding attach_one_thread_def by (intro preserves assms)
  have detached: "P w \<Longrightarrow> P (detach_recorded_threads K tids w)" for tids w
    by (induction tids arbitrary: w) (auto dest: assms(2)[unfolded preserves_def, rule_format])
  have stop: "P w \<Longrightarrow> stop_loop K dir entries attached w = (r, w') \<Longrightarrow> P w'" for dir entries attached w r w'
  proof (induction entries arbitrary: attached w)
    case (Cons d ds)
    obtain q v where q: "attach_one_thread K (the (task_tid d)) w = (q, v)" by fastforce
    then have "P v" using one Cons.prems(1) preservesD by metis
    then show ?case
      using Cons q by (auto intro: detached assms(5) split: option.splits if_splits sum.splits)
  qed (auto intro: assms(5))
  have resume: "P w \<Longrightarrow> resume_loop K entries first w = (r, w') \<Longrightarrow> P w'" for entries first w r w'
  proof (induction entries arbitrary: first w)
    case (Cons d ds)
    obtain q v where q: "ptrace_detach K (the (task_tid d)) w = (q, v)" by fastforce
    then have "P v" using assms(2) Cons.prems(1) preservesD by metis
    then show ?case
      using Cons q by (auto split: option.splits sum.splits)
  qed simp
  show "preserves P (stop_all_threads K pid)"
    unfolding stop_all_threads_def
    by (intro preserves assms) (auto intro!: preservesI elim: stop)
  show "preserves P (resume_all_threads K pid)"
    unfolding resume_all_threads_def
    by (intro preserves assms)
       (auto intro!: preservesI assms(5) dest: resume split: prod.splits)
qed

section \<open>Which threads are stopped\<close>

text \<open>The threads of a listing, in its order.\<close>

definition listed :: "cstr list \<Rightarrow> pid_t list" where
  "listed entries = List.map_filter task_tid entries"

lemma listed_simps [simp]:
  "listed [] = []"
  "listed (d # ds) = (case task_tid d of None \<Rightarrow> listed ds | Some t \<Rightarrow> t # listed ds)"
  by (simp_all add: listed_def List.map_filter_simps split: option.split)

text \<open>The kernel names the directory of a thread by its number.\<close>

lemma task_tid_print: "0 < sint t \<Longrightarrow> task_tid (print_d t) = Some t"
proof -
  assume t: "0 < sint t"
  have "is_digit 10 (hd (print_d t))"
    using t by (simp add: print_d_def print_nat_digits[OF _ _ hd_in_set] print_nat_nonempty)
  then have "hd (print_d t) \<noteq> 46" by (auto simp: is_digit_def digit_val_def)
  then show ?thesis using t by (simp add: task_tid_def atoi_print_d)
qed

lemma task_tid_dots: "task_tid (ascii ''.'') = None" "task_tid (ascii ''..'') = None"
  by (simp_all add: task_tid_def ascii_def)

context kernel_threads
begin

lemma detach_recorded_stopped:
  "stopped (detach_recorded_threads K tids w) = stopped w - set tids"
proof (induction tids arbitrary: w)
  case (Cons t ts)
  have "stopped (snd (ptrace_detach K t w)) = stopped w - {t}"
    by (rule detach_stopped[of t w "fst (ptrace_detach K t w)"]) simp
  with Cons show ?case by auto
qed simp

lemma detach_ignored: "stopped (snd (ptrace_detach K t w)) = stopped w - {t}"
  by (rule detach_stopped[of t w "fst (ptrace_detach K t w)"]) simp

lemma attach_one_thread_stopped:
  assumes "attach_one_thread K t w = (r, w')"
  shows "case r of Inr _ \<Rightarrow> t \<notin> stopped w \<and> stopped w' = insert t (stopped w)
               | Inl e \<Rightarrow> stopped w' = stopped w"
proof -
  obtain q w1 where q: "ptrace_attach K t w = (q, w1)" by fastforce
  have st1: "stopped w1 = stopped w" using attach_stopped q by (rule keepsD)
  obtain s w2 where s: "waitpid_wall K t w1 = (s, w2)" by fastforce
  show ?thesis
  proof (cases q)
    case (Inl e)
    with assms q st1 show ?thesis by (auto simp: attach_one_thread_def bindE_def)
  next
    case attached: (Inr u)
    then have new: "stopped w - {t} = stopped w" "t \<notin> stopped w" using q attach_again by blast+
    note run = assms[unfolded attach_one_thread_def bindE_def on_fail_def q attached prod.case
      sum.case s]
    show ?thesis
    proof (cases s)
      case (Inl e)
      then have "stopped w2 = stopped w" using s st1 wait_failed by blast
      moreover from run Inl have "r = Inl e" "w' = snd (ignoreE (ptrace_detach K t) w2)" by auto
      ultimately show ?thesis by (simp add: ignoreE_def detach_ignored new)
    next
      case (Inr status)
      show ?thesis
      proof (cases "WIFSTOPPED status")
        case True
        with run Inr s st1 new wait_stopped[of t w1 status w2] show ?thesis
          by (auto simp: retE_def)
      next
        case False
        then have "stopped w2 = stopped w" using Inr s st1 wait_stopped[of t w1 status w2] by simp
        moreover from run Inr False have "r = Inl EBUSY" "w' = snd (ptrace_detach K t w2)"
          by (auto simp: raiseE_def ignoreE_def)
        ultimately show ?thesis by (simp add: detach_ignored new)
      qed
    qed
  qed
qed

text \<open>
  While the loop runs, what is stopped beyond the threads stopped before is recorded, within the
  bound of the array.
\<close>

definition gone :: "pid_t \<Rightarrow> bool" where
  "gone t \<longleftrightarrow> (\<exists>w w'. attach_one_thread K t w = (Inl ESRCH, w'))"

lemma stop_loop_stopped:
  assumes "stop_loop K dir entries attached w = (r, w')" and "length attached \<le> MAX_ATTACHED"
    and "stopped w = before \<union> set attached" and "before \<inter> set attached = {}"
  shows "case r of
      Inr _ \<Rightarrow> \<exists>tids. subseq tids (listed entries) \<and> length (attached @ tids) \<le> MAX_ATTACHED \<and>
                 stopped w' = before \<union> set (attached @ tids) \<and>
                 (\<forall>t \<in> set (listed entries) - set tids. gone t)
    | Inl e \<Rightarrow> stopped w' = before"
  using assms
proof (induction entries arbitrary: attached w)
  case Nil
  then show ?case by (auto simp: close_stopped intro!: exI[of _ "[]"])
next
  case (Cons d ds)
  show ?case
  proof (cases "task_tid d")
    case None
    then have "listed (d # ds) = listed ds" by simp
    moreover from None Cons.prems(1) have "stop_loop K dir ds attached w = (r, w')" by simp
    ultimately show ?thesis using Cons.IH[OF _ Cons.prems(2-4)] by (cases r) auto
  next
    case (Some t)
    have rollback: "stopped (detach_recorded_threads K attached (sys_closedir K dir v)) = before"
      if "stopped v = stopped w" for v
      using that Cons.prems(3,4) by (auto simp: detach_recorded_stopped close_stopped)
    show ?thesis
    proof (cases "MAX_ATTACHED \<le> length attached")
      case True
      with Some Cons.prems(1) rollback show ?thesis by auto
    next
      case room: False
      obtain q v where q: "attach_one_thread K t w = (q, v)" by fastforce
      show ?thesis
      proof (cases q)
        case (Inr u)
        have "t \<notin> stopped w" and "stopped v = insert t (stopped w)"
          using attach_one_thread_stopped[OF q] Inr by simp_all
        moreover have "stop_loop K dir ds (attached @ [t]) v = (r, w')"
          using Cons.prems(1) Some room q Inr by simp
        ultimately have post: "case r of
            Inr _ \<Rightarrow> \<exists>tids. subseq tids (listed ds) \<and> length ((attached @ [t]) @ tids) \<le> MAX_ATTACHED \<and>
                 stopped w' = before \<union> set ((attached @ [t]) @ tids) \<and>
                 (\<forall>t \<in> set (listed ds) - set tids. gone t)
          | Inl e \<Rightarrow> stopped w' = before"
          using room Cons.prems(2-4) by (intro Cons.IH) auto
        show ?thesis
        proof (cases r)
          case (Inr x)
          with post obtain tids where
            "subseq tids (listed ds)" "length ((attached @ [t]) @ tids) \<le> MAX_ATTACHED"
            "stopped w' = before \<union> set ((attached @ [t]) @ tids)"
            "\<forall>t \<in> set (listed ds) - set tids. gone t" by auto
          then show ?thesis
            unfolding Inr sum.case using Some by (intro exI[of _ "t # tids"]) auto
        qed (use post in simp)
      next
        case (Inl e)
        then have st: "stopped v = stopped w" using attach_one_thread_stopped[OF q] by simp
        show ?thesis
        proof (cases "e = ESRCH")
          case False
          with Some room q Inl Cons.prems(1) rollback[OF st] show ?thesis by auto
        next
          case True
          then have g: "gone t" using q Inl by (auto simp: gone_def)
          have "stop_loop K dir ds attached v = (r, w')"
            using Cons.prems(1) Some room q Inl True by simp
          from Cons.IH[OF this Cons.prems(2) _ Cons.prems(4)] st Cons.prems(3)
          show ?thesis
            using Some g by (cases r) (auto intro: list_emb_Cons)
        qed
      qed
    qed
  qed
qed

lemma resume_loop_stopped:
  "resume_loop K entries first w = (r, w') \<Longrightarrow> stopped w' = stopped w - set (listed entries)"
proof (induction entries arbitrary: first w)
  case (Cons d ds)
  show ?case
  proof (cases "task_tid d")
    case None
    with Cons show ?thesis by simp
  next
    case (Some t)
    obtain q v where q: "ptrace_detach K t w = (q, v)" by fastforce
    then have "stopped v = stopped w - {t}" by (rule detach_stopped)
    moreover from Cons.prems Some q obtain first' where "resume_loop K ds first' v = (r, w')"
      by (cases q) auto
    ultimately show ?thesis using Cons.IH Some by auto
  qed
qed simp

text \<open>Stopping and resuming as a whole.\<close>

lemma stop_all_stopped:
  assumes "stop_all_threads K pid w = (r, w')"
  shows "case r of
      Inl e \<Rightarrow> stopped w' = stopped w
    | Inr _ \<Rightarrow> \<exists>dir entries w1 tids. sys_opendir K (task_path pid) w = (Inr (dir, entries), w1) \<and>
        subseq tids (listed entries) \<and> length tids \<le> MAX_ATTACHED \<and>
        stopped w' = stopped w \<union> set tids \<and> (\<forall>t \<in> set (listed entries) - set tids. gone t)"
proof (cases "sys_opendir K (task_path pid) w")
  case (Pair q w1)
  have st: "stopped w1 = stopped w" using other_stopped(7) Pair by (rule keepsD)
  show ?thesis
  proof (cases "0 < sint pid \<and> (\<exists>d. q = Inr d)")
    case False
    with assms Pair st show ?thesis
      by (cases q) (auto simp: stop_all_threads_def bindE_def raiseE_def split: if_splits)
  next
    case True
    then obtain dir entries where q: "q = Inr (dir, entries)" by auto
    with True assms Pair have "stop_loop K dir entries [] w1 = (r, w')"
      by (simp add: stop_all_threads_def bindE_def)
    from stop_loop_stopped[OF this, of "stopped w"] st Pair q show ?thesis
      by (cases r) auto
  qed
qed

lemma resume_all_stopped:
  assumes "resume_all_threads K pid w = (r, w')"
    and "sys_opendir K (task_path pid) w = (Inr (dir, entries), w1)" and "0 < sint pid"
  shows "stopped w' = stopped w - set (listed entries)"
proof -
  obtain first v where loop: "resume_loop K entries None w1 = (first, v)" by fastforce
  with assms have w': "w' = sys_closedir K dir v"
    by (simp add: resume_all_threads_def bindE_def)
  have "stopped w1 = stopped w" using other_stopped(7) assms(2) by (rule keepsD)
  then show ?thesis using resume_loop_stopped[OF loop] close_stopped(2) w' by simp
qed

end

section \<open>Properties\<close>

text \<open>
  C27: \<open>stop_all_threads\<close> is all or nothing. When it succeeds, the threads stopped in addition
  are listed threads, at most 4096, and every listed thread that was not stopped had exited
  (\<open>ESRCH\<close>); when it fails, at whatever thread and for whatever reason, exactly the threads that
  were stopped before are stopped.
\<close>

theorem stop_all_threads_all_or_nothing:
  assumes "kernel_threads K stopped" and "stop_all_threads K pid w = (r, w')"
  shows "case r of
      Inl e \<Rightarrow> stopped w' = stopped w
    | Inr _ \<Rightarrow> \<exists>dir entries w1 tids. sys_opendir K (task_path pid) w = (Inr (dir, entries), w1) \<and>
        subseq tids (listed entries) \<and> length tids \<le> MAX_ATTACHED \<and>
        stopped w' = stopped w \<union> set tids \<and>
        (\<forall>t \<in> set (listed entries) - set tids. \<exists>v v'. attach_one_thread K t v = (Inl ESRCH, v'))"
  using kernel_threads.stop_all_stopped[OF assms]
  by (cases r) (auto simp: kernel_threads.gone_def[OF assms(1)])

text \<open>
  C28: \<open>resume_all_threads\<close> releases every listed thread, also after a detach has failed.
\<close>

theorem resume_all_threads_releases:
  assumes "kernel_threads K stopped" and "resume_all_threads K pid w = (r, w')"
    and "sys_opendir K (task_path pid) w = (Inr (dir, entries), w1)" and "0 < sint pid"
  shows "stopped w' = stopped w - set (listed entries)"
  using kernel_threads.resume_all_stopped[OF assms] .

text \<open>
  Process 7 with threads 7, 8 and 9; thread 8 has exited when its turn comes. In \<open>example_traced\<close>
  another tracer has thread 9.
\<close>

definition example_threads :: ref_world where
  "example_threads = ref_init\<lparr>
     rw_tasks := [ascii ''.'', ascii ''..'', print_d 7, print_d 8, print_d 9], rw_gone := [8]\<rparr>"

definition example_traced :: ref_world where
  "example_traced = example_threads\<lparr>rw_attached := [9]\<rparr>"

lemmas example_simps = example_threads_def example_traced_def EPERM_def ref_init_def task_tid_print task_tid_dots
  stop_all_threads_def resume_all_threads_def ref_kernel_def bindE_def attach_one_thread_def on_fail_def
  ref_attach_def ref_waitpid_def ref_detach_def WIFSTOPPED_def retE_def MAX_ATTACHED_def

lemma stop_all_threads_all_or_nothing_witness:
  "let (r, w) = stop_all_threads ref_kernel 7 example_traced
   in r = Inl EPERM \<and> set (rw_stopped w) \<inter> set (rw_attached w) = {}"
proof -
  obtain r w where run: "stop_all_threads ref_kernel 7 example_traced = (r, w)" by fastforce
  then have "r = Inl EPERM" by (simp add: example_simps)
  with stop_all_threads_all_or_nothing[OF ref_threads.kernel_threads_axioms run] run
  show ?thesis by (simp add: example_simps)
qed

lemma resume_all_threads_releases_witness:
  "let (r, w) = stop_all_threads ref_kernel 7 example_threads;
       (r', w') = resume_all_threads ref_kernel 7 w
   in r = Inr () \<and> r' = Inr () \<and> set (rw_stopped w) = {7, 9} \<and>
      set (rw_stopped w') \<inter> set (rw_attached w') = {}"
proof -
  obtain r w where run: "stop_all_threads ref_kernel 7 example_threads = (r, w)" by fastforce
  obtain r' w' where run': "resume_all_threads ref_kernel 7 w = (r', w')" by fastforce
  have w: "r = Inr ()" "set (rw_stopped w) = {7, 9}" "rw_tasks w = rw_tasks example_threads" "r' = Inr ()"
    using run run' by (auto simp: example_simps)
  have "sys_opendir ref_kernel (task_path 7) w = (Inr (3, rw_tasks example_threads), w)"
    using w by (simp add: ref_kernel_def)
  from resume_all_threads_releases[OF ref_threads.kernel_threads_axioms run' this] w run run'
  show ?thesis by (auto simp: example_threads_def task_tid_print task_tid_dots)
qed

end
