(* ===== verification/Remote_Syscall.thy ===== *)
theory Remote_Syscall
  imports Gadget_Finder
begin

text \<open>
  \<^verbatim>\<open>controller/remote_syscall.c\<close> and the mappings of \<^verbatim>\<open>remote_mem_ptrace.c\<close>: a system call that
  the stopped target is made to execute, by way of a \<open>syscall; ret\<close> of its own C library and a
  breakpoint at the interrupted instruction.
\<close>

section \<open>The injected system call\<close>

definition INT3_OPCODE :: u8 where "INT3_OPCODE = 0xCC"

definition find_syscall_gadget :: "'w kernel \<Rightarrow> pid_t \<Rightarrow> ('w, u64) est" where
  "find_syscall_gadget K pid =
     resolve_gadget_runtime K pid (Some (ascii ''libc.so'')) (Some [0x0F, 0x05, 0xC3]) OUT"

definition restore_remote_state_best_effort ::
    "'w kernel \<Rightarrow> pid_t \<Rightarrow> u64 \<Rightarrow> u8 list option \<Rightarrow> user_regs option \<Rightarrow> ('w, unit) est" where
  "restore_remote_state_best_effort K pid patched_addr saved_code saved_regs =
     bindE (if patched_addr \<noteq> 0 \<and> saved_code \<noteq> None \<and> saved_code \<noteq> Some []
            then ignoreE (remote_write K pid patched_addr saved_code) else retE ()) (\<lambda>_.
     case saved_regs of None \<Rightarrow> retE () | Some regs \<Rightarrow> ignoreE (ptrace_setregs K pid regs))"

text \<open>The registers that start the call.\<close>

definition syscall_regs ::
    "user_regs \<Rightarrow> u64 \<Rightarrow> u64 \<Rightarrow> u64 \<Rightarrow> u64 \<Rightarrow> u64 \<Rightarrow> u64 \<Rightarrow> u64 \<Rightarrow> u64 \<Rightarrow> user_regs" where
  "syscall_regs regs syscall_no arg1 arg2 arg3 arg4 arg5 arg6 gadget_addr =
     regs\<lparr>r_rsp := r_rsp regs - 8, r_rax := syscall_no, r_rdi := arg1, r_rsi := arg2,
          r_rdx := arg3, r_r10 := arg4, r_r8 := arg5, r_r9 := arg6, r_rip := gadget_addr\<rparr>"

text \<open>
  Run the target from the registers prepared until the breakpoint; every failure restores the
  code byte and the registers as far as it can. The result is the value of \<open>rax\<close>.
\<close>

definition run_to_breakpoint ::
    "'w kernel \<Rightarrow> pid_t \<Rightarrow> user_regs \<Rightarrow> ('w, unit) est \<Rightarrow> ('w, u64) est" where
  "run_to_breakpoint K pid regs restore =
     bindE (on_fail (ptrace_setregs K pid regs) restore) (\<lambda>_.
     bindE (on_fail (ptrace_cont K pid) restore) (\<lambda>_.
     bindE (on_fail (waitpid_wall K pid) restore) (\<lambda>status.
     if \<not> WIFSTOPPED status \<or> WSTOPSIG status \<noteq> SIGTRAP
     then bindE restore (\<lambda>_. raiseE EFAULT)
     else bindE (on_fail (ptrace_getregs K pid) restore) (\<lambda>regs. retE (r_rax regs)))))"

text \<open>
  The part of the call that changes the target, once its registers and the byte at its
  instruction pointer have been saved.
\<close>

definition inject_syscall ::
    "'w kernel \<Rightarrow> pid_t \<Rightarrow> user_regs \<Rightarrow> u8 list \<Rightarrow> user_regs \<Rightarrow> ('w, u64) est" where
  "inject_syscall K pid saved_regs original_code regs =
     (let original_rip = r_rip saved_regs;
          restore = restore_remote_state_best_effort K pid original_rip (Some original_code)
                      (Some saved_regs)
      in
        bindE (on_fail (remote_write K pid original_rip (Some [INT3_OPCODE])) restore) (\<lambda>_.
        bindE (on_fail (remote_write K pid (r_rsp regs) (Some (le64 original_rip))) restore) (\<lambda>_.
        bindE (run_to_breakpoint K pid regs restore) (\<lambda>rax.
        bindE (on_fail (remote_write K pid original_rip (Some original_code))
                 (restore_remote_state_best_effort K pid 0 None (Some saved_regs))) (\<lambda>_.
        bindE (ptrace_setregs K pid saved_regs) (\<lambda>_.
        retE rax))))))"

definition remote_syscall ::
    "'w kernel \<Rightarrow> pid_t \<Rightarrow> u64 \<Rightarrow> u64 \<Rightarrow> u64 \<Rightarrow> u64 \<Rightarrow> u64 \<Rightarrow> u64 \<Rightarrow> u64 \<Rightarrow> out_ptr \<Rightarrow> ('w, u64) est" where
  "remote_syscall K pid syscall_no arg1 arg2 arg3 arg4 arg5 arg6 retval =
     (if sint pid \<le> 0 \<or> retval = NULL then raiseE EINVAL
      else
        bindE (find_syscall_gadget K pid) (\<lambda>gadget_addr.
        bindE (ptrace_getregs K pid) (\<lambda>saved_regs.
        bindE (remote_read K pid (r_rip saved_regs) OUT 1) (\<lambda>original_code.
        inject_syscall K pid saved_regs original_code
          (syscall_regs saved_regs syscall_no arg1 arg2 arg3 arg4 arg5 arg6 gadget_addr)))))"

section \<open>Mapping memory in the target\<close>

definition NR_mmap :: u64 where "NR_mmap = 9"
definition NR_munmap :: u64 where "NR_munmap = 11"
definition MAP_PRIVATE_ANONYMOUS :: u64 where "MAP_PRIVATE_ANONYMOUS = 0x02 OR 0x20"

text \<open>The number that a system call returns, negated, as a value of \<^verbatim>\<open>errno\<close>.\<close>

definition errno_of :: "int \<Rightarrow> errno" where
  "errno_of n =
     (if n = 2 then ENOENT else if n = 3 then ESRCH else if n = 5 then EIO else if n = 14 then EFAULT
      else if n = 16 then EBUSY else if n = 17 then EEXIST else if n = 22 then EINVAL
      else if n = 28 then ENOSPC else if n = 34 then ERANGE else if n = 75 then EOVERFLOW
      else ERRNO n)"

definition is_error_value :: "u64 \<Rightarrow> bool" where
  "is_error_value retval \<longleftrightarrow> sint retval < 0 \<and> - 4095 \<le> sint retval"

definition remote_mmap :: "'w kernel \<Rightarrow> pid_t \<Rightarrow> u64 \<Rightarrow> c_int \<Rightarrow> out_ptr \<Rightarrow> ('w, u64) est" where
  "remote_mmap K pid size' prot remote_addr =
     (if sint pid \<le> 0 \<or> size' = 0 \<or> remote_addr = NULL then raiseE EINVAL
      else bindE (remote_syscall K pid NR_mmap 0 size' (scast prot) MAP_PRIVATE_ANONYMOUS (- 1) 0 OUT)
             (\<lambda>retval.
           if is_error_value retval then raiseE (errno_of (- sint retval)) else retE retval))"

definition remote_munmap :: "'w kernel \<Rightarrow> pid_t \<Rightarrow> u64 \<Rightarrow> u64 \<Rightarrow> ('w, unit) est" where
  "remote_munmap K pid remote_addr size' =
     (if sint pid \<le> 0 \<or> remote_addr = 0 \<or> size' = 0 then raiseE EINVAL
      else bindE (remote_syscall K pid NR_munmap remote_addr size' 0 0 0 0 OUT) (\<lambda>retval.
           if is_error_value retval then raiseE (errno_of (- sint retval)) else retE ()))"

definition lp_remote_mmap :: "'w kernel \<Rightarrow> pid_t \<Rightarrow> u64 \<Rightarrow> c_int \<Rightarrow> out_ptr \<Rightarrow> ('w, u64) est" where
  "lp_remote_mmap K pid size' prot remote_addr = remote_mmap K pid size' prot remote_addr"

definition lp_remote_munmap :: "'w kernel \<Rightarrow> pid_t \<Rightarrow> u64 \<Rightarrow> u64 \<Rightarrow> ('w, unit) est" where
  "lp_remote_munmap K pid remote_addr size' = remote_munmap K pid remote_addr size'"

section \<open>What the injection leaves behind\<close>

context kernel_exec
begin

abbreviation view :: "pid_t \<Rightarrow> 'w \<Rightarrow> memory \<times> user_regs" where
  "view p w \<equiv> (mem w p, regs w p)"

lemma find_syscall_gadget_view: "keeps (view q) (find_syscall_gadget K pid)"
  unfolding find_syscall_gadget_def by (rule view.resolve_gadget_keeps)

lemma remote_read_view: "keeps (view p) (remote_read K p a buf n)"
proof (rule keeps_pair)
  show "keeps (\<lambda>w. mem w p) (remote_read K p a buf n)"
    using remote_read_mem by (intro keepsI) blast
  show "keeps (\<lambda>w. regs w p) (remote_read K p a buf n)"
    by (intro remote_read_keeps transfer_regs)
qed

lemma remote_write_regs: "keeps (\<lambda>w. regs w p) (remote_write K p a buf)"
  by (intro remote_write_keeps transfer_regs)

text \<open>
  The memory outside a set of addresses stays as it is through every step of the injection; the
  set is what the target itself may write, the word below its stack pointer and the byte at its
  instruction pointer.
\<close>

definition frame :: "u64 set \<Rightarrow> memory \<Rightarrow> pid_t \<Rightarrow> 'w \<Rightarrow> bool" where
  "frame S m p w \<longleftrightarrow> (\<forall>x. x \<notin> S \<longrightarrow> mem w p x = m x)"

lemma frame_preserved:
  "(\<And>s r t x. c s = (r, t) \<Longrightarrow> x \<notin> S \<Longrightarrow> mem t p x = mem s p x) \<Longrightarrow> preserves (frame S m p) c"
  by (rule preservesI) (auto simp: frame_def)

lemma frame_write:
  assumes "range64 a (length bs) \<subseteq> S" and "length bs \<le> 2 ^ 60"
  shows "preserves (frame S m p) (remote_write K p a (Some bs))"
  by (rule frame_preserved, rule rm.rwrite_frame[OF assms(2)]) (use assms(1) in auto)

lemma frame_setregs: "preserves (frame S m p) (ptrace_setregs K p x)"
proof (rule frame_preserved)
  fix s r t y
  assume "ptrace_setregs K p x s = (r, t)"
  then show "mem t p y = mem s p y"
    using setregs_ok setregs_fail by (cases r) auto
qed

lemma frame_restore:
  assumes "range64 a (length code) \<subseteq> S" and "length code \<le> 2 ^ 60"
  shows "preserves (frame S m p) (restore_remote_state_best_effort K p a (Some code) r)"
  unfolding restore_remote_state_best_effort_def
  by (intro preserves frame_write assms frame_setregs)

lemma frame_restore_regs:
  "preserves (frame S m p) (restore_remote_state_best_effort K p 0 None (Some r))"
  unfolding restore_remote_state_best_effort_def
  by (simp, intro preserves frame_setregs)

lemma frame_running:
  assumes "dirty \<subseteq> S"
  shows "preserves (frame S m p) (ptrace_cont K p)" and "preserves (frame S m p) (waitpid_wall K p)"
    and "preserves (frame S m p) (ptrace_getregs K p)"
  using assms by (auto intro!: frame_preserved dest: cont_frame wait_frame getregs)

lemma frame_run:
  assumes "dirty \<subseteq> S" and "preserves (frame S m p) restore"
  shows "preserves (frame S m p) (run_to_breakpoint K p r restore)"
  unfolding run_to_breakpoint_def
  by (intro preserves frame_setregs frame_running assms)

lemma frame_inject:
  assumes "dirty \<union> range64 (r_rsp r) 8 \<union> {r_rip saved} \<subseteq> S" and "length code = 1"
  shows "preserves (frame S m p) (inject_syscall K p saved code r)"
proof -
  have "range64 (r_rip saved) 1 \<subseteq> S"
    using assms(1) by (auto simp: range64_def)
  with assms show ?thesis
    unfolding inject_syscall_def Let_def
    by (intro preserves frame_write frame_run frame_restore frame_restore_regs frame_setregs)
       simp_all
qed

lemma inject_ok:
  assumes "inject_syscall K p saved [c] r w = (Inr v, w')"
  shows "regs w' p = saved \<and> mem w' p (r_rip saved) = c"
proof -
  from assms obtain w1 w2 u1 u2 where
    wr: "remote_write K p (r_rip saved) (Some [c]) w1 = (Inr u1, w2)" and
    set: "ptrace_setregs K p saved w2 = (Inr u2, w')"
    by (auto simp: inject_syscall_def bindE_eq on_fail_eq Let_def retE_def)
  from wr have "mem w2 p = mem_write (mem w1 p) (r_rip saved) [c]"
    by (intro rm.rwrite_ok[of _ p _ _ u1]) simp_all
  then show ?thesis
    using setregs_ok[OF set] by (simp add: mem_write_def)
qed

text \<open>What a successful call leaves in the word below the stack pointer.\<close>

lemma inject_red_zone:
  assumes "inject_syscall K p saved [c] r w = (Inr v, w')"
    and "range64 (r_rsp r) 8 \<inter> (dirty \<union> {r_rip saved}) = {}"
  shows "mem_read (mem w' p) (r_rsp r) 8 = le64 (r_rip saved)"
proof -
  let ?S = "dirty \<union> {r_rip saved}"
  let ?restore = "restore_remote_state_best_effort K p (r_rip saved) (Some [c]) (Some saved)"
  from assms(1) obtain w1 w2 w3 w4 u1 u2 u3 where
    fake: "remote_write K p (r_rsp r) (Some (le64 (r_rip saved))) w1 = (Inr u1, w2)" and
    run: "run_to_breakpoint K p r ?restore w2 = (Inr v, w3)" and
    code_back: "remote_write K p (r_rip saved) (Some [c]) w3 = (Inr u2, w4)" and
    set: "ptrace_setregs K p saved w4 = (Inr u3, w')"
    by (auto simp: inject_syscall_def bindE_eq on_fail_eq Let_def retE_def)
  define m where "m = mem w2 p"
  have "frame ?S m p w2" by (simp add: frame_def m_def)
  moreover have code: "range64 (r_rip saved) (length [c]) \<subseteq> ?S" by (auto simp: range64_def)
  then have "preserves (frame ?S m p) (run_to_breakpoint K p r ?restore)"
    by (intro frame_run frame_restore) auto
  ultimately have "frame ?S m p w3" using preservesD run by metis
  moreover have "preserves (frame ?S m p) (remote_write K p (r_rip saved) (Some [c]))"
    using code by (intro frame_write) auto
  ultimately have "frame ?S m p w4" using preservesD code_back by metis
  then have "frame ?S m p w'" using frame_setregs preservesD set by metis
  then have "mem_read (mem w' p) (r_rsp r) 8 = mem_read m (r_rsp r) 8"
    using assms(2) by (intro mem_read_cong) (simp add: frame_def disjoint_iff)
  moreover have "m = mem_write (mem w1 p) (r_rsp r) (le64 (r_rip saved))"
    unfolding m_def by (rule rm.rwrite_ok[OF _ fake]) simp
  ultimately show ?thesis
    using mem_read_write_same[of "le64 (r_rip saved)" "mem w1 p" "r_rsp r"] by simp
qed

text \<open>
  The steps before the injection change neither memory nor registers; the injection gets the
  registers and the code byte of the target.
\<close>

lemma remote_syscall_cases:
  assumes "remote_syscall K p n a1 a2 a3 a4 a5 a6 buf w = (r, w')"
  obtains (refused) e where "r = Inl e" "view p w' = view p w"
  | (injected) gadget w3 where "view p w3 = view p w"
      "inject_syscall K p (regs w p) [mem w p (r_rip (regs w p))]
         (syscall_regs (regs w p) n a1 a2 a3 a4 a5 a6 gadget) w3 = (r, w')"
proof -
  let ?R = "regs w p" and ?c = "[mem w p (r_rip (regs w p))]"
  note step = assms[unfolded remote_syscall_def]
  show thesis
  proof (cases "sint p \<le> 0 \<or> buf = NULL")
    case True
    with step show thesis by (intro refused[of EINVAL]) (auto simp: raiseE_def)
  next
    case ok: False
    obtain rg w1 where g: "find_syscall_gadget K p w = (rg, w1)" by fastforce
    have v1: "view p w1 = view p w" using find_syscall_gadget_view g by (rule keepsD)
    obtain rr w2 where q: "ptrace_getregs K p w1 = (rr, w2)" by fastforce
    have v2: "view p w2 = view p w" and R: "\<And>x. rr = Inr x \<Longrightarrow> x = ?R"
      using getregs[OF q] v1 by auto
    obtain rc w3 where rd: "remote_read K p (r_rip ?R) OUT 1 w2 = (rc, w3)" by fastforce
    have v3: "view p w3 = view p w" using keepsD[OF remote_read_view rd] v2 by simp
    have c: "rc = Inr bs \<Longrightarrow> bs = ?c" for bs
      using rm.rread_ok[of p "r_rip ?R" 1 w2 bs w3] rd v2 by (simp add: mem_read_def)
    show thesis
    proof (cases "\<exists>gadget. rg = Inr gadget \<and> rr = Inr ?R \<and> rc = Inr ?c")
      case False
      with step ok g q rd R c v1 v2 v3 show thesis
        by (cases rg; cases rr; cases rc) (auto simp: bindE_def intro!: refused)
    next
      case True
      then obtain gadget where "rg = Inr gadget" "rr = Inr ?R" "rc = Inr ?c" by blast
      with step ok g q rd v3 show thesis by (intro injected[of w3 gadget]) (simp_all add: bindE_def)
    qed
  qed
qed

lemma remote_syscall_mem:
  assumes "remote_syscall K p n a1 a2 a3 a4 a5 a6 buf w = (r, w')"
    and "S = dirty \<union> range64 (r_rsp (regs w p) - 8) 8"
  shows "(\<forall>x. x \<notin> S \<union> {r_rip (regs w p)} \<longrightarrow> mem w' p x = mem w p x) \<and>
    (\<forall>v. r = Inr v \<longrightarrow> regs w' p = regs w p \<and> (\<forall>x. x \<notin> S \<longrightarrow> mem w' p x = mem w p x))"
  using assms(1)
proof (cases rule: remote_syscall_cases)
  case (refused e)
  then show ?thesis by simp
next
  case (injected gadget w3)
  let ?R = "regs w p" and ?S = "S \<union> {r_rip (regs w p)}"
  have "preserves (frame ?S (mem w p) p)
      (inject_syscall K p ?R [mem w p (r_rip ?R)] (syscall_regs ?R n a1 a2 a3 a4 a5 a6 gadget))"
    using assms(2) by (intro frame_inject) (auto simp: syscall_regs_def)
  moreover have "frame ?S (mem w p) p w3" using injected(1) by (simp add: frame_def)
  ultimately have "frame ?S (mem w p) p w'" using injected(2) preservesD by metis
  moreover have "regs w' p = ?R \<and> mem w' p (r_rip ?R) = mem w p (r_rip ?R)" if "r = Inr v" for v
    using inject_ok injected(2) that by blast
  ultimately show ?thesis
    unfolding frame_def by (metis Un_iff singletonD)
qed

text \<open>Mapping and unmapping change the target no further.\<close>

lemma remote_mapping_mem:
  assumes "remote_mmap K p n prot buf w = (r, w') \<or> remote_munmap K p a n w = (q, w')"
    and "S = dirty \<union> range64 (r_rsp (regs w p) - 8) 8"
  shows "(\<forall>x. x \<notin> S \<union> {r_rip (regs w p)} \<longrightarrow> mem w' p x = mem w p x)"
  using assms(1) remote_syscall_mem[OF _ assms(2)]
  by (auto simp: remote_mmap_def remote_munmap_def bindE_def raiseE_def retE_def
      split: if_splits prod.splits sum.splits; blast)

lemma remote_mapping_ok:
  assumes "remote_mmap K p n prot buf w = (Inr v, w') \<or> remote_munmap K p a n w = (Inr u, w')"
    and "S = dirty \<union> range64 (r_rsp (regs w p) - 8) 8"
  shows "regs w' p = regs w p \<and> (\<forall>x. x \<notin> S \<longrightarrow> mem w' p x = mem w p x)"
  using assms(1) remote_syscall_mem[OF _ assms(2)]
  by (auto simp: remote_mmap_def remote_munmap_def bindE_eq raiseE_def retE_def split: if_splits; blast)

lemma remote_syscall_red_zone:
  assumes "remote_syscall K p n a1 a2 a3 a4 a5 a6 buf w = (Inr v, w')"
    and "range64 (r_rsp (regs w p) - 8) 8 \<inter> (dirty \<union> {r_rip (regs w p)}) = {}"
  shows "mem_read (mem w' p) (r_rsp (regs w p) - 8) 8 = le64 (r_rip (regs w p))"
  using assms(1)
proof (cases rule: remote_syscall_cases)
  case (injected gadget w3)
  with inject_red_zone[OF injected(2)] assms(2) show ?thesis by (simp add: syscall_regs_def)
qed simp

end

section \<open>Properties\<close>

text \<open>
  C26: whatever the path through it, \<open>remote_syscall\<close> leaves the target's memory alone except for
  what the target writes while it runs (\<open>dirty\<close>), the word below its stack pointer and the code
  byte at its instruction pointer; and when it succeeds this byte is restored as well and the
  registers of the target are what they were.
\<close>

theorem remote_syscall_leaves_target:
  assumes "kernel_exec K mem regs dirty"
    and "remote_syscall K p n a1 a2 a3 a4 a5 a6 buf w = (r, w')"
    and "x \<notin> dirty" and "x \<notin> range64 (r_rsp (regs w p) - 8) 8"
  shows "(x \<noteq> r_rip (regs w p) \<longrightarrow> mem w' p x = mem w p x) \<and>
    (case r of Inr v \<Rightarrow> regs w' p = regs w p \<and> mem w' p x = mem w p x | Inl e \<Rightarrow> True)"
  using kernel_exec.remote_syscall_mem[OF assms(1,2) refl] assms(3,4) by (cases r) auto

text \<open>
  The word below the stack pointer of the target is not given back: after a successful call
  it holds the interrupted instruction pointer, whatever a leaf function kept there.
\<close>

theorem remote_syscall_overwrites_red_zone:
  assumes "kernel_exec K mem regs dirty"
    and "remote_syscall K p n a1 a2 a3 a4 a5 a6 buf w = (Inr v, w')"
    and "range64 (r_rsp (regs w p) - 8) 8 \<inter> (dirty \<union> {r_rip (regs w p)}) = {}"
  shows "mem_read (mem w' p) (r_rsp (regs w p) - 8) 8 = le64 (r_rip (regs w p))"
  using kernel_exec.remote_syscall_red_zone[OF assms] .

text \<open>
  A target with \<open>syscall; ret\<close> at offset 1 of its C library, which is mapped at \<open>0x700000\<close>, and one
  code byte at its instruction pointer \<open>0x800\<close>.
\<close>

definition example_target :: "(cstr \<times> u8 list) list \<Rightarrow> ref_world" where
  "example_target files = ref_init\<lparr>
     rw_files := files,
     rw_mem := mem_write (mem_write (\<lambda>_. 0) 0x700000 [0x90, 0x0F, 0x05, 0xC3]) 0x800 [0x55],
     rw_regs := zero_regs\<lparr>r_rip := 0x800, r_rsp := 0x3000\<rparr>,
     rw_attached := [42]\<rparr>"

definition example_files :: "(cstr \<times> u8 list) list" where
  "example_files =
     [(maps_path 42, concat (map print_entry example_maps)),
      (ascii ''/lib/libc.so.6'', [0x90, 0x0F, 0x05, 0xC3])]"

lemma example_libc:
  "map_of example_files (maps_path 42) = Some (concat (map print_entry example_maps))"
  "map_of example_files (ascii ''/lib/libc.so.6'') = Some [0x90, 0x0F, 0x05, 0xC3]"
proof -
  have "maps_path 42 \<noteq> ascii ''/lib/libc.so.6''" by code_simp
  then show "map_of example_files (maps_path 42) = Some (concat (map print_entry example_maps))"
    and "map_of example_files (ascii ''/lib/libc.so.6'') = Some [0x90, 0x0F, 0x05, 0xC3]"
    by (auto simp: example_files_def)
qed

lemma ref_gadget:
  assumes "map_of (rw_files w) (maps_path 42) = Some (concat (map print_entry example_maps))"
    and "map_of (rw_files w) (ascii ''/lib/libc.so.6'') = Some [0x90, 0x0F, 0x05, 0xC3]"
    and "rw_fds w = []"
  shows "find_syscall_gadget ref_kernel 42 w = (Inr 0x700001, w)"
proof -
  have scan: "gadget_scan [0x0F, 0x05, 0xC3] [0x90, 0x0F, 0x05, 0xC3] 0 = Some 1" by code_simp
  have fds: "w\<lparr>rw_fds := []\<rparr> = w" using assms(3) by (cases w) simp
  have "find_gadget_offset ref_kernel (Some (ascii ''/lib/libc.so.6'')) (Some [0x0F, 0x05, 0xC3])
      OUT w = (Inr 1, w)"
    by (simp add: find_gadget_offset_def gadget_in_file_def ref_kernel_def ref_open_def ref_read_def ref_new_fd_def
          assms bindE_def closing_def retE_def scan fds)
  then show ?thesis
    using example_maps_find[OF assms(1)]
    by (simp add: find_syscall_gadget_def resolve_gadget_runtime_def bindE_def retE_def)
qed

lemma example_gadget:
  "find_syscall_gadget ref_kernel 42 (example_target example_files) =
     (Inr 0x700001, example_target example_files)"
  by (rule ref_gadget) (simp_all add: example_target_def ref_init_def example_libc)

lemma example_inject:
  "fst (inject_syscall ref_kernel 42 (rw_regs (example_target f)) [0x55]
     (syscall_regs (rw_regs (example_target f)) NR_mmap 0 0x2000 7 0x22 (- 1) 0 0x700001)
     (example_target f)) = Inr 0x10000000"
proof -
  have "le64 0x800 = [0, 8, 0, 0, 0, 0, 0, 0]"
    and "le_word [0, 8, 0, 0, 0, 0, 0, 0 :: u8] = (0x800 :: u64)" by code_simp+
  then show ?thesis
    by (simp add: inject_syscall_def example_target_def Let_def bindE_def on_fail_def retE_def
          remote_write_def ref_kernel_def run_to_breakpoint_def syscall_regs_def ref_init_def
          zero_regs_def ref_cont_def mem_read_def mem_write_def upt_rec ref_syscall_def NR_mmap_def
          INT3_OPCODE_def ref_waitpid_def WIFSTOPPED_def WSTOPSIG_def SIGTRAP_def)
qed

lemma example_syscall:
  "fst (remote_syscall ref_kernel 42 NR_mmap 0 0x2000 7 0x22 (- 1) 0 OUT (example_target example_files)) =
     Inr 0x10000000"
proof -
  let ?w = "example_target example_files"
  have rg: "ptrace_getregs ref_kernel 42 ?w = (Inr (rw_regs ?w), ?w)"
    and rd: "remote_read ref_kernel 42 (r_rip (rw_regs ?w)) OUT 1 ?w = (Inr [0x55], ?w)"
    by (simp_all add: ref_kernel_def remote_read_def example_target_def zero_regs_def ref_init_def
          mem_read_def mem_write_def)
  show ?thesis
    by (simp add: remote_syscall_def example_gadget bindE_def rg rd[simplified] example_inject)
qed

lemma remote_syscall_leaves_target_witness:
  "let (r, w) = remote_syscall ref_kernel 42 NR_mmap 0 0x2000 7 0x22 (- 1) 0 OUT
                  (example_target example_files)
   in r = Inr 0x10000000 \<and> r_rip (rw_regs w) = 0x800 \<and> rw_mem w 0x800 = 0x55"
proof -
  let ?w = "example_target example_files"
  obtain r w where run: "remote_syscall ref_kernel 42 NR_mmap 0 0x2000 7 0x22 (- 1) 0 OUT ?w = (r, w)"
    by fastforce
  have r: "r = Inr 0x10000000" using example_syscall run by simp
  have "r_rsp (rw_regs ?w) = 0x3000" "r_rip (rw_regs ?w) = 0x800" "rw_mem ?w 0x800 = 0x55"
    by (simp_all add: example_target_def zero_regs_def mem_write_def)
  then show ?thesis
    using remote_syscall_leaves_target[OF ref.kernel_exec_axioms run, of "0x800"] r run
    by (simp add: in_range64)
qed

lemma remote_syscall_overwrites_red_zone_witness:
  "let target = example_target example_files;
       (r, w) = remote_syscall ref_kernel 42 NR_mmap 0 0x2000 7 0x22 (- 1) 0 OUT target
   in mem_read (rw_mem target) 0x2FF8 8 = le64 0 \<and> mem_read (rw_mem w) 0x2FF8 8 = le64 0x800"
proof -
  let ?w = "example_target example_files"
  obtain r w where run: "remote_syscall ref_kernel 42 NR_mmap 0 0x2000 7 0x22 (- 1) 0 OUT ?w = (r, w)"
    by fastforce
  have r: "r = Inr 0x10000000" using example_syscall run by simp
  have at: "r_rsp (rw_regs ?w) = 0x3000" "r_rip (rw_regs ?w) = 0x800"
    by (simp_all add: example_target_def zero_regs_def)
  have "mem_read (rw_mem ?w) 0x2FF8 8 = le64 0"
    by (simp add: mem_read_def example_target_def mem_write_def le64_def le_bytes_def upt_rec)
  then show ?thesis
    using remote_syscall_overwrites_red_zone[OF ref.kernel_exec_axioms run[unfolded r]] at r run
    by (simp add: in_range64)
qed

end
