(* ===== verification/Probe_Manager.thy ===== *)
theory Probe_Manager
  imports Probe_Table Patch Threads Remote_Syscall Elf_Resolver
begin

text \<open>
  The operations of \<^verbatim>\<open>injector/probe_manager.c\<close> on a probe: attach, detach, enable, disable. Each
  ends by saving the table.
\<close>

section \<open>The remote runtime\<close>

definition lp_update_remote_enabled :: "'w kernel \<Rightarrow> probe_desc \<Rightarrow> c_int \<Rightarrow> ('w, unit) est" where
  "lp_update_remote_enabled K desc enabled =
     (let remote_enabled = (if enabled \<noteq> 0 then 1 else 0 :: u32) in
      if d_config_addr desc = 0 then raiseE ENOENT
      else lp_remote_write K (d_pid desc) (lp_runtime_config_enabled_addr desc)
             (Some (le32 remote_enabled)))"

definition lp_cleanup_remote_runtime_best_effort ::
    "'w kernel \<Rightarrow> probe_desc \<Rightarrow> ('w, unit) est" where
  "lp_cleanup_remote_runtime_best_effort K desc =
     (if d_runtime_base_addr desc = 0 \<or> d_runtime_size desc = 0 then retE ()
      else ignoreE (lp_remote_munmap K (d_pid desc) (d_runtime_base_addr desc) (d_runtime_size desc)))"

definition PROT_RWX :: c_int where "PROT_RWX = 0x1 OR 0x2 OR 0x4"

definition any_layout :: lp_remote_runtime_layout where
  "any_layout = \<lparr> l_base = 0, l_size = 0, l_config_addr = 0, l_event_buffer_addr = 0,
     l_shadow_stack_addr = 0, l_trampoline_addr = 0, l_entry_stub_addr = 0, l_ret_stub_addr = 0,
     l_config_offset = 0, l_event_buffer_offset = 0, l_shadow_stack_offset = 0,
     l_trampoline_offset = 0, l_entry_stub_offset = 0, l_ret_stub_offset = 0 \<rparr>"

text \<open>The writes of the six areas, once the contents have been built.\<close>

definition write_runtime ::
    "'w kernel \<Rightarrow> pid_t \<Rightarrow> probe_desc \<Rightarrow> u8 list \<Rightarrow> u8 list \<Rightarrow> u8 list \<Rightarrow> ('w, unit) est" where
  "write_runtime K pid desc trampoline entry_stub ret_stub =
     bindE (lp_remote_write K pid (d_config_addr desc) (Some (enc_config (lp_runtime_config_init desc))))
       (\<lambda>_.
     bindE (lp_remote_write K pid (d_event_buffer_addr desc)
              (Some (enc_event_buffer lp_event_buffer_init))) (\<lambda>_.
     bindE (lp_remote_write K pid (d_shadow_stack_addr desc)
              (Some (enc_shadow_stack lp_shadow_stack_init))) (\<lambda>_.
     bindE (lp_remote_write K pid (d_trampoline_addr desc) (Some trampoline)) (\<lambda>_.
     bindE (lp_remote_write K pid (d_entry_stub_addr desc) (Some entry_stub)) (\<lambda>_.
     lp_remote_write K pid (d_ret_stub_addr desc) (Some ret_stub))))))"

text \<open>The descriptor in slot \<open>i\<close> gets the addresses of the runtime as soon as it is mapped.\<close>

definition lp_install_remote_runtime :: "'w kernel \<Rightarrow> pid_t \<Rightarrow> nat \<Rightarrow> ('w manager, unit) est" where
  "lp_install_remote_runtime K pid i =
     bindE (liftE (lp_remote_runtime_layout_init (Some any_layout) 0)) (\<lambda>sizing.
     bindE (in_world (lp_remote_mmap K pid (l_size sizing) PROT_RWX OUT)) (\<lambda>remote_base.
     bindE (liftE (lp_remote_runtime_layout_init (Some any_layout) remote_base)) (\<lambda>layout.
     bindE (get_slot i) (\<lambda>desc0.
     let desc = lp_probe_desc_set_runtime_layout desc0 layout in
     bindE (put_slot i desc) (\<lambda>_.
     bindE (liftE (lp_x86_64_build_trampoline desc
                     (d_target_addr desc + word_of_int (sint (d_original_len desc)))
                     LP_TRAMPOLINE_SIZE)) (\<lambda>trampoline.
     bindE (liftE (lp_x86_64_build_entry_stub desc LP_REMOTE_STUB_SIZE)) (\<lambda>entry_stub.
     bindE (liftE (lp_x86_64_build_ret_stub desc LP_REMOTE_STUB_SIZE)) (\<lambda>ret_stub.
     in_world (write_runtime K pid desc trampoline entry_stub ret_stub)))))))))"

section \<open>Attach\<close>

definition resolve_target :: "'w kernel \<Rightarrow> lp_probe_spec \<Rightarrow> nat \<Rightarrow> ('w manager, unit) est" where
  "resolve_target K spec i =
     bindE (get_slot i) (\<lambda>desc.
     if sp_target_addr_override spec \<noteq> 0
     then put_slot i (desc\<lparr>d_target_addr := sp_target_addr_override spec\<rparr>)
     else
       bindE (in_world (lp_resolve_symbol K (sp_pid spec) (Some (sp_lib_name spec))
                          (Some (sp_func_name spec)) OUT)) (\<lambda>addr.
       put_slot i (desc\<lparr>d_target_addr := addr\<rparr>)))"

text \<open>The steps on the stopped process; a failure resumes it and frees the slot.\<close>

definition inject_probe :: "'w kernel \<Rightarrow> pid_t \<Rightarrow> nat \<Rightarrow> ('w manager, unit) est" where
  "inject_probe K pid i =
     bindE (get_slot i) (\<lambda>desc.
     bindE (in_world (lp_x86_64_read_original_code K pid desc (of_nat LP_X86_64_JMP_REL32_SIZE))) (\<lambda>desc.
     bindE (put_slot i desc) (\<lambda>_.
     bindE (lp_install_remote_runtime K pid i) (\<lambda>_.
     bindE (get_slot i) (\<lambda>desc.
     in_world (lp_x86_64_patch_entry K pid desc))))))"

definition attach_slot :: "'w kernel \<Rightarrow> lp_probe_spec \<Rightarrow> nat \<Rightarrow> ('w manager, probe_desc) est" where
  "attach_slot K spec i =
     (let pid = sp_pid spec;
          remove = lp_probe_manager_remove (Some i);
          resume = ignoreE (in_world (lp_resume_all_threads K pid))
      in
        bindE (on_fail (resolve_target K spec i) remove) (\<lambda>_.
        bindE (on_fail (in_world (lp_stop_all_threads K pid)) remove) (\<lambda>_.
        bindE (on_fail (inject_probe K pid i) (bindE resume (\<lambda>_. remove))) (\<lambda>_.
        bindE resume (\<lambda>_.
        bindE (get_slot i) (\<lambda>desc.
        bindE (lp_probe_manager_save K) (\<lambda>_. retE desc)))))))"

text \<open>The result is the copy of the descriptor that the caller asked for.\<close>

definition lp_probe_attach :: "'w kernel \<Rightarrow> lp_probe_spec \<Rightarrow> ('w manager, probe_desc) est" where
  "lp_probe_attach K spec = (\<lambda>s.
     if lp_probe_manager_find (sp_pid spec) (sp_func_name spec) (g_probe_table s) \<noteq> None
     then (Inl EEXIST, s)
     else bindE (lp_probe_manager_alloc spec) (attach_slot K spec) s)"

section \<open>Detach, enable, disable\<close>

definition lp_probe_detach :: "'w kernel \<Rightarrow> nat option \<Rightarrow> ('w manager, unit) est" where
  "lp_probe_detach K desc =
     (case desc of
        None \<Rightarrow> raiseE EINVAL
      | Some i \<Rightarrow>
          bindE (get_slot i) (\<lambda>d.
          let resume = ignoreE (in_world (lp_resume_all_threads K (d_pid d))) in
          bindE (in_world (lp_stop_all_threads K (d_pid d))) (\<lambda>_.
          bindE (on_fail (in_world (lp_x86_64_restore_entry K (d_pid d) d)) resume) (\<lambda>_.
          bindE (in_world (lp_cleanup_remote_runtime_best_effort K d)) (\<lambda>_.
          bindE resume (\<lambda>_.
          bindE (lp_probe_manager_remove (Some i)) (\<lambda>_.
          lp_probe_manager_save K)))))))"

text \<open>\<open>lp_probe_enable\<close> and \<open>lp_probe_disable\<close> differ in the value they set.\<close>

definition set_probe_enabled :: "'w kernel \<Rightarrow> nat option \<Rightarrow> c_int \<Rightarrow> ('w manager, unit) est" where
  "set_probe_enabled K desc enabled =
     (case desc of
        None \<Rightarrow> raiseE EINVAL
      | Some i \<Rightarrow>
          bindE (get_slot i) (\<lambda>d.
          bindE (in_world (lp_update_remote_enabled K d enabled)) (\<lambda>_.
          bindE (put_slot i (d\<lparr>d_enabled := enabled\<rparr>)) (\<lambda>_.
          lp_probe_manager_save K))))"

definition lp_probe_enable :: "'w kernel \<Rightarrow> nat option \<Rightarrow> ('w manager, unit) est" where
  "lp_probe_enable K desc = set_probe_enabled K desc 1"

definition lp_probe_disable :: "'w kernel \<Rightarrow> nat option \<Rightarrow> ('w manager, unit) est" where
  "lp_probe_disable K desc = set_probe_enabled K desc 0"

section \<open>What an attach does to its slot\<close>

text \<open>
  Attaching fills in addresses and code; everything else about a descriptor stays as allocated.
\<close>

definition desc_core :: "probe_desc \<Rightarrow> c_int \<times> pid_t \<times> c_int \<times> c_int \<times> u8 list \<times> u8 list" where
  "desc_core d = (d_probe_id d, d_pid d, d_enabled d, d_has_retprobe d, d_lib_name d, d_func_name d)"

definition slot_state :: "nat \<Rightarrow> probe_desc list \<Rightarrow> probe_desc \<Rightarrow> 'w manager \<Rightarrow> bool" where
  "slot_state i t d0 s \<longleftrightarrow>
     (\<exists>d. g_probe_table s = t[i := d] \<and> desc_core d = desc_core d0 \<and> wf_desc d)"

definition like :: "probe_desc \<Rightarrow> probe_desc \<Rightarrow> bool" where
  "like d0 d \<longleftrightarrow> desc_core d = desc_core d0 \<and> wf_desc d"

lemma in_world_table: "in_world m s = (r, s') \<Longrightarrow> g_probe_table s' = g_probe_table s"
  by (auto simp: in_world_def split: prod.splits)

lemma in_world_eq:
  "in_world m s = (r, s') \<longleftrightarrow> m (m_world s) = (r, m_world s') \<and> g_probe_table s' = g_probe_table s"
  by (cases s; cases s') (auto simp: in_world_def split: prod.splits)

lemma preserves_in_world [preserves]: "preserves (slot_state i t d0) (in_world m)"
  by (rule preservesI) (simp add: slot_state_def in_world_table)

lemma in_world_Inr: "in_world m s = (Inr x, s') \<Longrightarrow> \<exists>w w'. m w = (Inr x, w')"
  by (auto simp: in_world_def split: prod.splits)

lemma preserves_put_slot [preserves]: "like d0 d \<Longrightarrow> preserves (slot_state i t d0) (put_slot i d)"
  by (rule preservesI) (auto simp: slot_state_def like_def put_slot_def)

lemma preserves_get_slot:
  assumes "\<And>d. like d0 d \<Longrightarrow> preserves (slot_state i t d0) (g d)" and "i < length t"
  shows "preserves (slot_state i t d0) (bindE (get_slot i) g)"
proof (rule preservesI)
  fix s r s' assume st: "slot_state i t d0 s" and run: "bindE (get_slot i) g s = (r, s')"
  then have "like d0 (g_probe_table s ! i)"
    using assms(2) by (auto simp: slot_state_def like_def)
  with assms(1) st run show "slot_state i t d0 s'"
    by (auto simp: bindE_def get_slot_def dest: preservesD)
qed

lemma preserves_bind_result:
  assumes "preserves P m" and "\<And>s x s'. m s = (Inr x, s') \<Longrightarrow> R x" and "\<And>x. R x \<Longrightarrow> preserves P (g x)"
  shows "preserves P (bindE m g)"
proof (rule preservesI)
  fix s r s' assume P: "P s" and run: "bindE m g s = (r, s')"
  obtain q s1 where q: "m s = (q, s1)" by fastforce
  then have "P s1" using assms(1) P preservesD by metis
  with q run assms(2)[of s _ s1] assms(3) show "P s'"
    by (cases q) (auto simp: bindE_def dest: preservesD)
qed

lemma like_fields [simp]:
  "like d0 d \<Longrightarrow> like d0 (d\<lparr>d_target_addr := a\<rparr>)"
  "like d0 d \<Longrightarrow> like d0 (lp_probe_desc_set_runtime_layout d l)"
  by (auto simp: like_def desc_core_def wf_desc_def lp_probe_desc_set_runtime_layout_def)

lemma read_original_like:
  assumes "lp_x86_64_read_original_code K p d m w = (Inr d', w')" and "like d0 d"
  shows "like d0 d'"
  using assms patch_len_bounds
  by (auto simp: lp_x86_64_read_original_code_def bindE_eq liftE_def retE_def raiseE_def Let_def
      like_def desc_core_def wf_desc_def split: if_splits)

lemma resolve_target_slot: "i < length t \<Longrightarrow> preserves (slot_state i t d0) (resolve_target K spec i)"
  unfolding resolve_target_def by (intro preserves_get_slot preserves like_fields)

lemma install_slot: "i < length t \<Longrightarrow> preserves (slot_state i t d0) (lp_install_remote_runtime K p i)"
  unfolding lp_install_remote_runtime_def Let_def
  by (rule preserves preserves_get_slot like_fields | assumption)+

lemma inject_slot:
  assumes "i < length t"
  shows "preserves (slot_state i t d0) (inject_probe K p i)"
  unfolding inject_probe_def
proof (rule preserves_get_slot[OF _ assms])
  fix d assume d: "like d0 d"
  have "like d0 d'"
    if "in_world (lp_x86_64_read_original_code K p d (of_nat LP_X86_64_JMP_REL32_SIZE)) s = (Inr d', s')"
    for s d' s'
    using in_world_Inr[OF that] read_original_like[OF _ d] by metis
  then show "preserves (slot_state i t d0)
      (bindE (in_world (lp_x86_64_read_original_code K p d (of_nat LP_X86_64_JMP_REL32_SIZE))) (\<lambda>desc.
       bindE (put_slot i desc) (\<lambda>_. bindE (lp_install_remote_runtime K p i) (\<lambda>_.
       bindE (get_slot i) (\<lambda>desc. in_world (lp_x86_64_patch_entry K p desc))))))"
    by (intro preserves_bind_result[where R = "like d0"])
       (assumption | intro preserves preserves_get_slot install_slot assms)+
qed

lemma save_slot: "preserves (\<lambda>s. g_probe_table s = t) (lp_probe_manager_save K)"
  by (rule preservesI) (simp add: save_table)

lemma remove_slot_table:
  "slot_state i t d0 s \<Longrightarrow>
   g_probe_table (snd (lp_probe_manager_remove (Some i) s)) = t[i := zero_desc]"
  by (auto simp: slot_state_def lp_probe_manager_remove_def put_slot_def)

text \<open>
  Whatever happens, the slot ends free, or holds a descriptor like the one allocated; the latter
  with an error only when everything but the saving of the table went well.
\<close>

lemma attach_slot_table:
  assumes "slot_state i t d0 s" and "i < length t" and "attach_slot K spec i s = (r, s')"
  shows "case r of Inr d \<Rightarrow> g_probe_table s' = t[i := d] \<and> like d0 d
    | Inl e \<Rightarrow> g_probe_table s' = t[i := zero_desc] \<or>
        slot_state i t d0 s' \<and> (\<exists>s1. lp_probe_manager_save K s1 = (Inl e, s'))"
proof -
  let ?I = "slot_state i t d0"
  let ?E = "\<lambda>e s. g_probe_table s = t[i := zero_desc] \<or>
    ?I s \<and> (\<exists>s1. lp_probe_manager_save K s1 = (Inl e, s))"
  let ?p = "sp_pid spec"
  let ?resume = "ignoreE (in_world (lp_resume_all_threads K ?p))"
  have remove: "triple ?I (lp_probe_manager_remove (Some i)) (\<lambda>_. ?E e) (\<lambda>_. ?E e)" for e
    by (rule tripleI) (auto dest!: remove_slot_table[of i t d0 _] simp: lp_probe_manager_remove_def put_slot_def)
  have step: "triple ?I (on_fail m (lp_probe_manager_remove (Some i))) (\<lambda>_. ?I) ?E"
    if "preserves ?I m" for m :: "('a manager, unit) est"
    by (rule triple_on_fail[OF preserves_triple[OF that] remove])
  have resume: "triple ?I ?resume (\<lambda>_. ?I) E" for E
    by (rule triple_ignoreE[OF preserves_triple]) (intro preserves)
  have fail: "triple ?I (bindE ?resume (\<lambda>_. lp_probe_manager_remove (Some i))) (\<lambda>_. ?E e) (\<lambda>_. ?E e)" for e
    by (rule triple_bindE[OF resume remove])
  have "triple ?I (attach_slot K spec i) (\<lambda>d s. g_probe_table s = t[i := d] \<and> like d0 d) ?E"
    unfolding attach_slot_def Let_def
  proof (intro triple_bindE)
    show "triple ?I (on_fail (resolve_target K spec i) (lp_probe_manager_remove (Some i))) (\<lambda>_. ?I) ?E"
      by (rule step[OF resolve_target_slot[OF assms(2)]])
    show "triple ?I (on_fail (in_world (lp_stop_all_threads K ?p)) (lp_probe_manager_remove (Some i)))
        (\<lambda>_. ?I) ?E" by (rule step[OF preserves_in_world])
    show "triple ?I (on_fail (inject_probe K ?p i) (bindE ?resume (\<lambda>_. lp_probe_manager_remove (Some i))))
        (\<lambda>_. ?I) ?E"
      by (rule triple_on_fail[OF preserves_triple[OF inject_slot[OF assms(2)]] fail])
    show "triple ?I ?resume (\<lambda>_. ?I) ?E" by (rule resume)
    show "triple ?I (get_slot i) (\<lambda>d s. g_probe_table s = t[i := d] \<and> like d0 d) ?E"
      by (auto simp: triple_def get_slot_def slot_state_def like_def assms(2))
    show "triple (\<lambda>s. g_probe_table s = t[i := d] \<and> like d0 d) (lp_probe_manager_save K)
        (\<lambda>_ s. g_probe_table s = t[i := d] \<and> like d0 d) ?E" for d
      by (rule tripleI) (use save_table in \<open>fastforce simp: slot_state_def like_def\<close>)+
    show "triple (\<lambda>s. g_probe_table s = t[i := d] \<and> like d0 d) (retE d)
        (\<lambda>d s. g_probe_table s = t[i := d] \<and> like d0 d) ?E" for d
      by (rule triple_retE)
  qed
  then show ?thesis
    using assms(1,3) by (cases r) (auto dest: triple_ok triple_err)
qed

text \<open>Saving the table leaves alone what the calls on its file leave alone.\<close>

lemma save_keeps:
  assumes "keeps f (c_fopen_w K LP_STATE_FILE)" and "\<And>fp. keeps f (c_fclose K fp)"
    and "\<And>fp bs w. f (snd (c_fwrite1 K fp bs w)) = f w" and "lp_probe_manager_save K s = (r, s')"
  shows "f (m_world s') = f (m_world s)"
proof -
  obtain q w1 where q: "c_fopen_w K LP_STATE_FILE (m_world s) = (q, w1)" by fastforce
  then have f1: "f w1 = f (m_world s)" using assms(1) keepsD by metis
  show ?thesis
  proof (cases q)
    case (Inl e)
    with assms(4) q f1 show ?thesis by (auto simp: lp_probe_manager_save_def)
  next
    case (Inr fp)
    obtain n w2 where n: "c_fwrite1 K fp (enc_state (g_probe_table s)) w1 = (n, w2)" by fastforce
    have f2: "f w2 = f w1" using assms(3)[of fp "enc_state (g_probe_table s)" w1] n by simp
    obtain c w3 where c: "c_fclose K fp w2 = (c, w3)" by fastforce
    have "f w3 = f w2" using assms(2) c keepsD by metis
    with assms(4) q n c f1 f2 Inr show ?thesis
      by (cases c) (auto simp: lp_probe_manager_save_def)
  qed
qed

section \<open>The operations refine operations on the map\<close>

lemma like_slot:
  assumes "like d0 d" and "slot_ok i d0"
  shows "slot_ok i d \<and> used_desc d = used_desc d0 \<and> probe_key d = probe_key d0"
  using assms by (auto simp: like_def desc_core_def slot_ok_def used_desc_def probe_key_def)

lemma table_clear:
  assumes "table_inv t" and "i < LP_MAX_PROBES" and "\<not> used_desc (t ! i)"
  shows "table_inv (t[i := zero_desc]) \<and> probe_map (t[i := zero_desc]) = probe_map t"
proof -
  have uniq: "slots_unique used_desc probe_key (t[i := zero_desc])"
    using assms probes.uniq_update[of t i zero_desc] probes.not_used_free
    by (auto simp: table_inv_def)
  then have "probe_map (t[i := zero_desc]) = probe_map t"
    using assms probes.smap_update[of t i zero_desc] probes.not_used_free
    by (auto simp: probe_map_def table_inv_def)
  with uniq assms slot_ok_zero show ?thesis
    by (auto simp: table_inv_def nth_list_update)
qed

lemma alloc_slot:
  assumes "lp_probe_manager_alloc spec s = (Inr i, s')" and "table_inv (g_probe_table s)"
  shows "i < LP_MAX_PROBES \<and> \<not> used_desc (g_probe_table s ! i) \<and>
    g_probe_table s' = (g_probe_table s)[i := new_desc i spec]"
  using assms first_slot_nth[of _ "g_probe_table s" i]
  by (auto simp: lp_probe_manager_alloc_def table_inv_def used_desc_def split: option.splits)

lemma attach_table:
  assumes "table_inv (g_probe_table s)" and "proper_spec spec"
    and "lp_probe_attach K spec s = (r, s')"
  shows "table_inv (g_probe_table s') \<and>
    (case r of
      Inr d \<Rightarrow> probe_map (g_probe_table s) (spec_key spec) = None \<and>
        probe_map (g_probe_table s') = (probe_map (g_probe_table s))(spec_key spec \<mapsto> d)
    | Inl e \<Rightarrow> probe_map (g_probe_table s') = probe_map (g_probe_table s) \<or>
        (\<exists>d s1. lp_probe_manager_save K s1 = (Inl e, s') \<and>
          probe_map (g_probe_table s') = (probe_map (g_probe_table s))(spec_key spec \<mapsto> d)))"
proof -
  let ?t = "g_probe_table s" and ?k = "spec_key spec"
  have pid: "sp_pid spec \<noteq> 0" and name: "proper_name (sp_func_name spec)"
    using assms(2) by (auto simp: proper_spec_def)
  have find: "map_option ((!) ?t) (lp_probe_manager_find (sp_pid spec) (sp_func_name spec) ?t) =
      probe_map ?t ?k"
    unfolding spec_key_def by (rule find_refines[OF assms(1) pid name])
  show ?thesis
  proof (cases "probe_map ?t ?k = None \<and> (\<exists>i. fst (lp_probe_manager_alloc spec s) = Inr i)")
    case False
    then have "s' = s \<and> (\<exists>e. r = Inl e)"
      using assms(3) find
      by (cases "lp_probe_manager_find (sp_pid spec) (sp_func_name spec) ?t")
         (auto simp: lp_probe_attach_def bindE_def lp_probe_manager_alloc_def split: option.splits)
    then show ?thesis using assms(1) by auto
  next
    case True
    then obtain i s1 where alloc: "lp_probe_manager_alloc spec s = (Inr i, s1)" by (cases "lp_probe_manager_alloc spec s") auto
    let ?d0 = "new_desc i spec"
    from alloc_slot[OF alloc assms(1)] have i: "i < LP_MAX_PROBES" "\<not> used_desc (?t ! i)"
      and t1: "g_probe_table s1 = ?t[i := ?d0]" by auto
    have run: "attach_slot K spec i s1 = (r, s')"
      using assms(3) alloc True find by (auto simp: lp_probe_attach_def bindE_def)
    have d0: "like ?d0 ?d0" "slot_ok i ?d0" "used_desc ?d0" "probe_key ?d0 = ?k"
      using new_desc_simps[OF assms(2), of i] by (auto simp: like_def slot_ok_def)
    have ins: "table_inv (?t[i := d]) \<and> probe_map (?t[i := d]) = (probe_map ?t)(?k \<mapsto> d)"
      if "like ?d0 d" for d
      using like_slot[OF that d0(2)] d0 table_insert[OF assms(1) i, of d] True by simp
    have "slot_state i ?t ?d0 s1"
      using d0(1) t1 by (auto simp: slot_state_def like_def)
    from attach_slot_table[OF this _ run] have
      "case r of Inr d \<Rightarrow> g_probe_table s' = ?t[i := d] \<and> like ?d0 d
        | Inl e \<Rightarrow> g_probe_table s' = ?t[i := zero_desc] \<or>
            slot_state i ?t ?d0 s' \<and> (\<exists>s1. lp_probe_manager_save K s1 = (Inl e, s'))"
      using i assms(1) by (simp add: table_inv_def)
    then show ?thesis
      using ins table_clear[OF assms(1) i] True
      by (cases r) (auto simp: slot_state_def like_def)
  qed
qed

text \<open>The steps on the world, with the table as it is.\<close>

lemma table_kept [keeps]: "keeps g_probe_table (in_world m)"
  by (rule keepsI) (rule in_world_table)

lemma triple_kept_bindE:
  assumes "keeps f m" and "\<And>e s. f s = c \<Longrightarrow> E e s" and "\<And>x. triple (\<lambda>s. f s = c) (g x) Q E"
  shows "triple (\<lambda>s. f s = c) (bindE m g) Q E"
  by (rule triple_bindE[where R = "\<lambda>_ s. f s = c", OF tripleI])
     (use assms keepsD in \<open>metis+\<close>)

lemma bind_get_slot: "bindE (get_slot i) g s = g (g_probe_table s ! i) s"
  by (simp add: bindE_def get_slot_def)

lemma detach_table:
  assumes "lp_probe_detach K (Some i) s = (r, s')"
  defines "t \<equiv> g_probe_table s"
  shows "case r of Inr _ \<Rightarrow> g_probe_table s' = t[i := zero_desc]
    | Inl e \<Rightarrow> g_probe_table s' = t \<or>
        g_probe_table s' = t[i := zero_desc] \<and> (\<exists>s1. lp_probe_manager_save K s1 = (Inl e, s'))"
proof -
  let ?d = "t ! i"
  let ?resume = "ignoreE (in_world (lp_resume_all_threads K (d_pid ?d)))"
  let ?T = "\<lambda>s. g_probe_table s = t" and ?Z = "\<lambda>s. g_probe_table s = t[i := zero_desc]"
  let ?E = "\<lambda>e s. ?T s \<or> ?Z s \<and> (\<exists>s1. lp_probe_manager_save K s1 = (Inl e, s))"
  have "triple ?T (bindE (in_world (lp_stop_all_threads K (d_pid ?d))) (\<lambda>_.
          bindE (on_fail (in_world (lp_x86_64_restore_entry K (d_pid ?d) ?d)) ?resume) (\<lambda>_.
          bindE (in_world (lp_cleanup_remote_runtime_best_effort K ?d)) (\<lambda>_.
          bindE ?resume (\<lambda>_.
          bindE (lp_probe_manager_remove (Some i)) (\<lambda>_.
          lp_probe_manager_save K)))))) (\<lambda>_. ?Z) ?E"
  proof ((rule triple_kept_bindE, (intro keeps)[1], simp)+)
    show "triple ?T (bindE (lp_probe_manager_remove (Some i)) (\<lambda>_. lp_probe_manager_save K)) (\<lambda>_. ?Z) ?E"
      by (rule tripleI)
         (use save_table in \<open>fastforce simp: bindE_eq lp_probe_manager_remove_def put_slot_def\<close>)+
  qed
  moreover from assms(1) have "bindE (in_world (lp_stop_all_threads K (d_pid ?d))) (\<lambda>_.
          bindE (on_fail (in_world (lp_x86_64_restore_entry K (d_pid ?d) ?d)) ?resume) (\<lambda>_.
          bindE (in_world (lp_cleanup_remote_runtime_best_effort K ?d)) (\<lambda>_.
          bindE ?resume (\<lambda>_.
          bindE (lp_probe_manager_remove (Some i)) (\<lambda>_.
          lp_probe_manager_save K))))) s = (r, s')"
    by (simp add: lp_probe_detach_def bind_get_slot t_def Let_def)
  ultimately show ?thesis
    by (cases r) (auto dest: triple_ok triple_err simp: t_def)
qed

lemma set_enabled_table:
  assumes "set_probe_enabled K (Some i) enabled s = (r, s')"
  defines "t \<equiv> g_probe_table s"
  shows "case r of Inr _ \<Rightarrow> g_probe_table s' = t[i := (t ! i)\<lparr>d_enabled := enabled\<rparr>]
    | Inl e \<Rightarrow> g_probe_table s' = t \<or> g_probe_table s' = t[i := (t ! i)\<lparr>d_enabled := enabled\<rparr>]"
proof -
  from assms(1) have "bindE (in_world (lp_update_remote_enabled K (t ! i) enabled)) (\<lambda>_.
      bindE (put_slot i ((t ! i)\<lparr>d_enabled := enabled\<rparr>)) (\<lambda>_. lp_probe_manager_save K)) s = (r, s')"
    by (simp add: set_probe_enabled_def bind_get_slot t_def)
  then show ?thesis
    by (cases r) (auto simp: bindE_eq put_slot_def t_def dest!: in_world_table save_table)
qed

lemma detach_table_map:
  assumes "table_inv (g_probe_table s)" and "i < LP_MAX_PROBES" and "used_desc (g_probe_table s ! i)"
    and "lp_probe_detach K (Some i) s = (r, s')"
  defines "removed \<equiv> (probe_map (g_probe_table s))(probe_key (g_probe_table s ! i) := None)"
  shows "table_inv (g_probe_table s') \<and>
    (case r of Inr _ \<Rightarrow> probe_map (g_probe_table s') = removed
      | Inl e \<Rightarrow> probe_map (g_probe_table s') = probe_map (g_probe_table s) \<or>
          probe_map (g_probe_table s') = removed \<and> (\<exists>s1. lp_probe_manager_save K s1 = (Inl e, s')))"
  using detach_table[OF assms(4)] table_delete[OF assms(1-3)] assms(1)
  by (cases r) (auto simp: removed_def)

lemma set_enabled_table_map:
  assumes "table_inv (g_probe_table s)" and "i < LP_MAX_PROBES" and "used_desc (g_probe_table s ! i)"
    and "set_probe_enabled K (Some i) enabled s = (r, s')"
  defines "d \<equiv> g_probe_table s ! i"
  defines "switched \<equiv> (probe_map (g_probe_table s))(probe_key d \<mapsto> d\<lparr>d_enabled := enabled\<rparr>)"
  shows "table_inv (g_probe_table s') \<and>
    (case r of Inr _ \<Rightarrow> probe_map (g_probe_table s') = switched
      | Inl e \<Rightarrow> probe_map (g_probe_table s') \<in> {probe_map (g_probe_table s), switched})"
proof -
  have "slot_ok i d" using assms(1,2) by (auto simp: table_inv_def d_def)
  then have "slot_ok i (d\<lparr>d_enabled := enabled\<rparr>)" "used_desc (d\<lparr>d_enabled := enabled\<rparr>)"
    "probe_key (d\<lparr>d_enabled := enabled\<rparr>) = probe_key d"
    using assms(3) by (simp_all add: slot_ok_def wf_desc_def used_desc_def probe_key_def d_def)
  from table_replace[OF assms(1-3) this(2,1)] this(3)
  have "table_inv ((g_probe_table s)[i := d\<lparr>d_enabled := enabled\<rparr>]) \<and>
      probe_map ((g_probe_table s)[i := d\<lparr>d_enabled := enabled\<rparr>]) = switched"
    by (simp add: switched_def d_def)
  then show ?thesis
    using set_enabled_table[OF assms(4)] assms(1) by (cases r) (auto simp: d_def)
qed

section \<open>The states of the manager\<close>

text \<open>
  The runs of the program: every command starts from the zeroed table or from one that an
  earlier command saved, and works on probes that it found by process and name; anything may
  happen to the world in between.
\<close>

inductive reachable :: "'w kernel \<Rightarrow> 'w manager \<Rightarrow> bool" for K :: "'w kernel" where
  start: "reachable K \<lparr>m_world = w, g_probe_table = replicate LP_MAX_PROBES zero_desc\<rparr>"
| world: "reachable K s \<Longrightarrow> reachable K (s\<lparr>m_world := w\<rparr>)"
| load: "reachable K s \<Longrightarrow> reachable K t \<Longrightarrow>
    c_fopen_r K LP_STATE_FILE (m_world s) = (Inr (fp, enc_state (g_probe_table t)), w) \<Longrightarrow>
    lp_probe_manager_load K s = (r, s') \<Longrightarrow> reachable K s'"
| load_missing: "reachable K s \<Longrightarrow> c_fopen_r K LP_STATE_FILE (m_world s) = (Inl e, w) \<Longrightarrow>
    lp_probe_manager_load K s = (r, s') \<Longrightarrow> reachable K s'"
| attach: "reachable K s \<Longrightarrow> proper_spec spec \<Longrightarrow> lp_probe_attach K spec s = (q, s') \<Longrightarrow>
    reachable K s'"
| detach: "reachable K s \<Longrightarrow> pid \<noteq> 0 \<Longrightarrow>
    lp_probe_manager_find pid name (g_probe_table s) = Some i \<Longrightarrow>
    lp_probe_detach K (Some i) s = (r, s') \<Longrightarrow> reachable K s'"
| enable: "reachable K s \<Longrightarrow> pid \<noteq> 0 \<Longrightarrow>
    lp_probe_manager_find pid name (g_probe_table s) = Some i \<Longrightarrow>
    lp_probe_enable K (Some i) s = (r, s') \<Longrightarrow> reachable K s'"
| disable: "reachable K s \<Longrightarrow> pid \<noteq> 0 \<Longrightarrow>
    lp_probe_manager_find pid name (g_probe_table s) = Some i \<Longrightarrow>
    lp_probe_disable K (Some i) s = (r, s') \<Longrightarrow> reachable K s'"

lemma table_inv_zero: "table_inv (replicate LP_MAX_PROBES zero_desc)"
  using slot_ok_zero probes.not_used_free by (auto simp: table_inv_def slots_unique_def)

lemma table_inv_wf: "table_inv t \<Longrightarrow> (\<forall>d \<in> set t. wf_desc d) \<and> length t = LP_MAX_PROBES"
  by (auto simp: table_inv_def slot_ok_def in_set_conv_nth)

lemma reachable_inv: "reachable K s \<Longrightarrow> table_inv (g_probe_table s)"
proof (induction rule: reachable.induct)
  case (load s t fp w r s')
  then show ?case using load_saved[OF load.hyps(3) _ _ load.hyps(4)] table_inv_wf by auto
next
  case (load_missing s e w r s')
  then show ?case
    using table_inv_init
    by (auto simp: lp_probe_manager_load_def lp_probe_manager_init_def split: if_splits)
next
  case (detach s pid name i r s')
  then show ?case using find_valid detach_table_map by blast
next
  case (enable s pid name i r s')
  then show ?case unfolding lp_probe_enable_def using find_valid set_enabled_table_map by blast
next
  case (disable s pid name i r s')
  then show ?case unfolding lp_probe_disable_def using find_valid set_enabled_table_map by blast
qed (simp_all add: table_inv_zero attach_table)

section \<open>Properties\<close>



text \<open>
  C18: \<open>lp_probe_detach\<close> implements the deletion of the key from this map. When it succeeds the key
  is gone and every other probe is as it was; when it fails the map is as it was, unless what
  failed was the saving of the table.
\<close>

theorem detach_refines_delete:
  assumes "table_inv (g_probe_table s)" and "i < LP_MAX_PROBES" and "used_desc (g_probe_table s ! i)"
    and "lp_probe_detach K (Some i) s = (r, s')"
  shows "let m = probe_map (g_probe_table s); m' = m(probe_key (g_probe_table s ! i) := None)
    in table_inv (g_probe_table s') \<and>
      (case r of Inr _ \<Rightarrow> probe_map (g_probe_table s') = m'
       | Inl e \<Rightarrow> probe_map (g_probe_table s') = m \<or>
           probe_map (g_probe_table s') = m' \<and> (\<exists>s1. lp_probe_manager_save K s1 = (Inl e, s')))"
  using detach_table_map[OF assms] by (simp add: Let_def)

end
