(* ===== verification/Events.thy ===== *)
theory Events
  imports C_Strings Probe_Manager
begin

text \<open>
  The event reader of \<^verbatim>\<open>cli/cmd_events.c\<close>: it reads the head of the ring in the target, then the
  newest events one by one, and prints each. Under the memory laws of the kernel it prints exactly
  the last events of the history that the ring stands for, oldest first.
\<close>

section \<open>The state of a command\<close>

text \<open>The manager with what has been written to the standard output and the error output.\<close>

record 'w cli =
  c_manager :: "'w manager"
  c_out :: cstr
  c_err :: cstr

definition in_manager :: "('w manager, 'a) est \<Rightarrow> ('w cli, 'a) est" where
  "in_manager m = (\<lambda>s. case m (c_manager s) of (r, t) \<Rightarrow> (r, s\<lparr>c_manager := t\<rparr>))"

definition put_out :: "cstr \<Rightarrow> 'w cli \<Rightarrow> 'w cli" where
  "put_out bytes s = s\<lparr>c_out := c_out s @ bytes\<rparr>"

definition put_err :: "cstr \<Rightarrow> 'w cli \<Rightarrow> 'w cli" where
  "put_err bytes s = s\<lparr>c_err := c_err s @ bytes\<rparr>"

section \<open>Printing\<close>

text \<open>\<^verbatim>\<open>%lu\<close> and \<^verbatim>\<open>%u\<close>, \<^verbatim>\<open>%lx\<close>.\<close>

definition print_u :: "'a::len word \<Rightarrow> cstr" where
  "print_u x = print_nat 10 (unat x)"

definition print_x :: "'a::len word \<Rightarrow> cstr" where
  "print_x x = print_nat 16 (unat x)"

text \<open>Strings with a separator between them.\<close>

fun separated :: "u8 \<Rightarrow> cstr list \<Rightarrow> cstr" where
  "separated c [] = []"
| "separated c [s] = s"
| "separated c (s # t # ts) = s @ c # separated c (t # ts)"

record event_args =
  ea_pid :: pid_t
  ea_func :: "cstr option"
  ea_limit :: u64
  ea_csv :: c_int

definition event_type_name :: "u32 \<Rightarrow> cstr" where
  "event_type_name event_type =
     (if event_type = PROBE_EVENT_ENTRY then ascii ''entry''
      else if event_type = PROBE_EVENT_RETURN then ascii ''return''
      else ascii ''unknown'')"

definition print_event_human :: "probe_event \<Rightarrow> cstr" where
  "print_event_human event =
     ascii ''ts='' @ print_u (ev_timestamp_ns event) @ ascii '' pid='' @ print_u (ev_pid event) @
     ascii '' tid='' @ print_u (ev_tid event) @ ascii '' probe='' @ print_u (ev_probe_id event) @
     ascii '' type='' @ event_type_name (ev_event_type event) @ ascii '' args=['' @
     separated 44 (map (\<lambda>i. ascii ''0x'' @ print_x (ev_args event ! i)) [0, 1, 2, 3, 4, 5]) @
     ascii ''] retval=0x'' @ print_x (ev_retval event) @ ascii '' duration='' @
     print_u (ev_duration_ns event) @ [10]"

definition csv_header :: cstr where
  "csv_header =
     ascii ''timestamp_ns,pid,tid,probe_id,event_type,arg1,arg2,arg3,arg4,arg5,arg6,retval,duration_ns''
       @ [10]"

definition csv_fields :: "probe_event \<Rightarrow> cstr list" where
  "csv_fields event =
     [print_u (ev_timestamp_ns event), print_u (ev_pid event), print_u (ev_tid event),
      print_u (ev_probe_id event), print_u (ev_event_type event)] @
     map (\<lambda>i. print_u (ev_args event ! i)) [0, 1, 2, 3, 4, 5] @
     [print_u (ev_retval event), print_u (ev_duration_ns event)]"

definition print_event_csv :: "probe_event \<Rightarrow> cstr" where
  "print_event_csv event = separated 44 (csv_fields event) @ [10]"

definition print_event :: "event_args \<Rightarrow> probe_event \<Rightarrow> cstr" where
  "print_event args event =
     (if ea_csv args \<noteq> 0 then print_event_csv event else print_event_human event)"

definition events_heading :: "probe_desc \<Rightarrow> event_args \<Rightarrow> u64 \<Rightarrow> u64 \<Rightarrow> cstr" where
  "events_heading desc args total' count =
     (if ea_csv args \<noteq> 0 then csv_header
      else ascii ''probe_id='' @ print_d (d_probe_id desc) @ ascii '' pid='' @ print_d (d_pid desc) @
           [32] @ cstr_of (d_lib_name desc) @ [58] @ cstr_of (d_func_name desc) @
           ascii '' event_buffer=0x'' @ print_x (d_event_buffer_addr desc) @
           ascii '' total='' @ print_u total' @ ascii '' showing='' @ print_u count @ [10])"

section \<open>The reader\<close>

definition event_addr :: "probe_desc \<Rightarrow> u64 \<Rightarrow> u64 \<Rightarrow> u64" where
  "event_addr desc capacity seq =
     d_event_buffer_addr desc + of_nat offsetof_events + (seq mod capacity) * of_nat sizeof_probe_event"

lemma unat_next: "(a :: 'a::len word) < b \<Longrightarrow> unat (a + 1) = Suc (unat a)"
proof -
  assume "a < b"
  then have "unat a < unat b" by (simp add: word_less_nat_alt)
  moreover have "unat b < 2 ^ LENGTH('a)" by simp
  ultimately have "Suc (unat a) < 2 ^ LENGTH('a)" by linarith
  then show ?thesis by (simp add: unat_word_ariths)
qed

function event_loop ::
    "'w kernel \<Rightarrow> probe_desc \<Rightarrow> event_args \<Rightarrow> u64 \<Rightarrow> u64 \<Rightarrow> u64 \<Rightarrow> ('w cli, unit) est" where
  "event_loop K desc args capacity seq total' s =
     (if seq < total' then
        (case in_manager (in_world (lp_remote_read K (d_pid desc) (event_addr desc capacity seq) OUT
                                      sizeof_probe_event)) s of
           (Inl e, s) \<Rightarrow> (Inl e, s)
         | (Inr bytes, s) \<Rightarrow>
             event_loop K desc args capacity (seq + 1) total'
               (put_out (print_event args (dec_event bytes)) s))
      else (Inr (), s))"
  by pat_completeness auto
termination
proof (relation "measure (\<lambda>(K, desc, args, capacity, seq, total', s). unat total' - unat seq)", goal_cases)
  case (2 K desc args capacity seq total' s)
  then have "unat (seq + 1) = Suc (unat seq)" "unat seq < unat total'"
    by (simp_all add: unat_next word_less_nat_alt)
  then show ?case by simp
qed simp

declare event_loop.simps [simp del]

definition read_and_print_events :: "'w kernel \<Rightarrow> probe_desc \<Rightarrow> event_args \<Rightarrow> ('w cli, unit) est" where
  "read_and_print_events K desc args =
     (if d_event_buffer_addr desc = 0 then raiseE ENOENT
      else
        bindE (in_manager (in_world (lp_remote_read K (d_pid desc) (d_event_buffer_addr desc) OUT
                                       offsetof_events))) (\<lambda>header s.
        let write_index = le_word (take 8 header);
            capacity = le_word (take 8 (drop 8 header)) in
        if capacity = 0 \<or> of_nat LP_EVENT_BUFFER_CAPACITY < capacity then (Inl EINVAL, s)
        else
          let total' = write_index;
              count = (if total' < ea_limit args then total' else ea_limit args);
              start = (if count < total' then total' - count else 0)
          in event_loop K desc args capacity start total'
               (put_out (events_heading desc args total' count) s)))"

section \<open>The ring\<close>

text \<open>What the stubs do with an event: it goes to the slot of its sequence number.\<close>

definition ring_push :: "lp_event_buffer \<Rightarrow> probe_event \<Rightarrow> lp_event_buffer" where
  "ring_push b e =
     b\<lparr>eb_events := (eb_events b)[unat (eb_write_index b mod eb_capacity b) := e],
       eb_write_index := eb_write_index b + 1\<rparr>"

definition ring :: "probe_event list \<Rightarrow> lp_event_buffer" where
  "ring history = foldl ring_push lp_event_buffer_init history"

lemma ring_snoc: "ring (es @ [e]) = ring_push (ring es) e"
  by (simp add: ring_def)

lemma ring_fields:
  "eb_write_index (ring es) = of_nat (length es) \<and> eb_capacity (ring es) = of_nat LP_EVENT_BUFFER_CAPACITY \<and>
   length (eb_events (ring es)) = LP_EVENT_BUFFER_CAPACITY"
  by (induction es rule: rev_induct)
     (simp_all add: ring_snoc ring_push_def, simp_all add: ring_def lp_event_buffer_init_def)

lemma wf_ring:
  assumes "\<forall>e \<in> set es. wf_event e"
  shows "wf_event_buffer (ring es)"
  using assms
proof (induction es rule: rev_induct)
  case Nil
  then show ?case
    by (simp add: ring_def wf_event_buffer_def lp_event_buffer_init_def wf_event_def zero_event_def)
next
  case (snoc e es)
  then show ?case
    using set_update_subset_insert[of "eb_events (ring es)"]
    by (fastforce simp: ring_snoc ring_push_def wf_event_buffer_def)
qed

text \<open>The slot of a sequence number that is still in the ring holds its event.\<close>

lemma ring_nth:
  assumes "length es < 2 ^ 64" and "i < length es" and "length es \<le> i + LP_EVENT_BUFFER_CAPACITY"
  shows "eb_events (ring es) ! (i mod LP_EVENT_BUFFER_CAPACITY) = es ! i"
  using assms
proof (induction es rule: rev_induct)
  case (snoc e es)
  let ?C = LP_EVENT_BUFFER_CAPACITY and ?n = "length es"
  have C: "0 < ?C" by (simp add: LP_EVENT_BUFFER_CAPACITY_def)
  have slot: "unat (eb_write_index (ring es) mod eb_capacity (ring es)) = ?n mod ?C"
    using snoc.prems(1) ring_fields[of es]
    by (simp add: unat_mod unat_of_nat64 LP_EVENT_BUFFER_CAPACITY_def)
  have push: "eb_events (ring (es @ [e])) = (eb_events (ring es))[?n mod ?C := e]"
    by (simp add: ring_snoc ring_push_def slot)
  show ?case
  proof (cases "i = ?n")
    case True
    then show ?thesis using ring_fields[of es] C by (simp add: push)
  next
    case False
    then have "i < ?n" "?n < i + ?C" using snoc.prems by auto
    then have "i mod ?C \<noteq> ?n mod ?C"
    proof -
      have "\<not> ?C dvd ?n - i" using \<open>i < ?n\<close> \<open>?n < i + ?C\<close> by (intro nat_dvd_not_less) auto
      then show ?thesis using mod_eq_dvd_iff_nat[of i ?n ?C] \<open>i < ?n\<close> by auto
    qed
    then show ?thesis using snoc \<open>i < ?n\<close> by (simp add: push nth_append)
  qed
qed simp

section \<open>What the reader prints\<close>

definition shown_events :: "memory \<Rightarrow> probe_desc \<Rightarrow> u64 \<Rightarrow> nat \<Rightarrow> nat \<Rightarrow> probe_event list" where
  "shown_events m desc capacity start stop =
     map (\<lambda>i. dec_event (mem_read m (event_addr desc capacity (of_nat i)) sizeof_probe_event)) [start..<stop]"

abbreviation cli_mem :: "('w \<Rightarrow> pid_t \<Rightarrow> memory) \<Rightarrow> pid_t \<Rightarrow> 'w cli \<Rightarrow> memory" where
  "cli_mem mem p s \<equiv> mem (m_world (c_manager s)) p"

lemma in_manager_world:
  "in_manager (in_world m) s = (r, s') \<Longrightarrow>
   m (m_world (c_manager s)) = (r, m_world (c_manager s')) \<and> c_out s' = c_out s \<and>
   g_probe_table (c_manager s') = g_probe_table (c_manager s)"
  by (auto simp: in_manager_def in_world_def split: prod.splits)

context kernel_memory
begin

lemma event_loop_ok:
  assumes "event_loop K d args cap seq total' s = (Inr u, s')"
  shows "c_out s' = c_out s @ concat (map (print_event args)
           (shown_events (cli_mem mem (d_pid d) s) d cap (unat seq) (unat total'))) \<and>
         cli_mem mem (d_pid d) s' = cli_mem mem (d_pid d) s \<and>
         g_probe_table (c_manager s') = g_probe_table (c_manager s)"
  using assms
proof (induction "unat total' - unat seq" arbitrary: seq s)
  case 0
  then show ?case
    using "0.prems"[unfolded event_loop.simps[of K d args cap seq]]
    by (auto simp: shown_events_def word_less_nat_alt)
next
  case (Suc k)
  let ?p = "d_pid d"
  let ?a = "event_addr d cap seq"
  have less: "seq < total'" using Suc.hyps(2) by (simp add: word_less_nat_alt)
  then have next': "unat (seq + 1) = Suc (unat seq)" by (rule unat_next)
  from Suc.prems less obtain bytes s1 where
    rd: "in_manager (in_world (lp_remote_read K ?p ?a OUT sizeof_probe_event)) s = (Inr bytes, s1)"
    and run: "event_loop K d args cap (seq + 1) total' (put_out (print_event args (dec_event bytes)) s1) =
      (Inr u, s')"
    by (subst (asm) event_loop.simps) (auto split: prod.splits sum.splits)
  from rd have rd': "remote_read K ?p ?a OUT sizeof_probe_event (m_world (c_manager s)) =
      (Inr bytes, m_world (c_manager s1))"
    and s1: "c_out s1 = c_out s" "g_probe_table (c_manager s1) = g_probe_table (c_manager s)"
    by (auto simp: lp_remote_read_def dest!: in_manager_world)
  from rm.rread_ok[OF rd'] have
    bytes: "bytes = mem_read (cli_mem mem ?p s) ?a sizeof_probe_event" and
    m1: "cli_mem mem ?p s1 = cli_mem mem ?p s" by auto
  have "[unat seq..<unat total'] = unat seq # [unat (seq + 1)..<unat total']"
    using less next' by (simp add: upt_conv_Cons word_less_nat_alt)
  then show ?case
    using Suc.hyps(1)[OF _ run] Suc.hyps(2) next' bytes m1 s1
    by (simp add: shown_events_def put_out_def)
qed

text \<open>
  A successful run prints the heading and at most \<open>limit\<close> events, whatever the target has left in
  its memory.
\<close>

lemma read_and_print_ok:
  assumes "read_and_print_events K d args s = (Inr u, s')"
  defines "m \<equiv> cli_mem mem (d_pid d) s" and "a \<equiv> d_event_buffer_addr d"
  defines "tot \<equiv> le_word (mem_read m a 8) :: u64" and "cap \<equiv> le_word (mem_read m (a + 8) 8) :: u64"
  defines "shown \<equiv> min (unat tot) (unat (ea_limit args))"
  shows "1 \<le> cap \<and> cap \<le> of_nat LP_EVENT_BUFFER_CAPACITY \<and>
    c_out s' = c_out s @ events_heading d args tot (of_nat shown) @
      concat (map (print_event args) (shown_events m d cap (unat tot - shown) (unat tot))) \<and>
    cli_mem mem (d_pid d) s' = m \<and> g_probe_table (c_manager s') = g_probe_table (c_manager s)"
proof -
  from assms(1) obtain header s1 where
    rd: "in_manager (in_world (lp_remote_read K (d_pid d) a OUT offsetof_events)) s = (Inr header, s1)"
    and cap: "le_word (take 8 (drop 8 header)) \<noteq> (0 :: u64)"
      "\<not> of_nat LP_EVENT_BUFFER_CAPACITY < (le_word (take 8 (drop 8 header)) :: u64)"
    and run: "let t = le_word (take 8 header); count = (if t < ea_limit args then t else ea_limit args)
      in event_loop K d args (le_word (take 8 (drop 8 header))) (if count < t then t - count else 0) t
           (put_out (events_heading d args t count) s1) = (Inr u, s')"
    by (auto simp: read_and_print_events_def a_def bindE_eq raiseE_def Let_def split: if_splits)
  from rd have rd': "remote_read K (d_pid d) a OUT offsetof_events (m_world (c_manager s)) =
      (Inr header, m_world (c_manager s1))"
    and s1: "c_out s1 = c_out s" "g_probe_table (c_manager s1) = g_probe_table (c_manager s)"
    by (auto simp: lp_remote_read_def dest!: in_manager_world)
  from rm.rread_ok[OF rd'] have header: "header = mem_read m a 16" and m1: "cli_mem mem (d_pid d) s1 = m"
    by (auto simp: m_def offsetof_events_def)
  have tot: "le_word (take 8 header) = tot" and cap': "le_word (take 8 (drop 8 header)) = cap"
    by (simp_all add: header tot_def cap_def take_mem_read drop_mem_read)
  define count where "count = (if tot < ea_limit args then tot else ea_limit args)"
  have shown: "unat count = shown"
    by (auto simp: count_def shown_def word_less_nat_alt)
  have start: "unat (if count < tot then tot - count else 0) = unat tot - shown"
    using shown by (auto simp: word_less_nat_alt unat_sub word_le_nat_alt shown_def)
  have count: "of_nat shown = count" using shown by auto
  have "event_loop K d args cap (if count < tot then tot - count else 0) tot
           (put_out (events_heading d args tot count) s1) = (Inr u, s')"
    using run unfolding Let_def tot cap' count_def by simp
  note loop = event_loop_ok[OF this]
  have "0 < unat cap" using cap(1) cap' by (simp add: unat_gt_0)
  then have "1 \<le> cap \<and> cap \<le> of_nat LP_EVENT_BUFFER_CAPACITY"
    using cap(2) by (simp add: cap' word_le_nat_alt not_less)
  then show ?thesis using loop m1 s1 by (simp add: start count put_out_def)
qed

end

text \<open>The address of a sequence number, without wrapping.\<close>

lemma event_addr_slot:
  assumes "1 \<le> cap" and "cap \<le> of_nat LP_EVENT_BUFFER_CAPACITY"
  shows "\<exists>k < LP_EVENT_BUFFER_CAPACITY. k = unat seq mod unat cap \<and>
    event_addr d cap seq = d_event_buffer_addr d + of_nat (offsetof_events + k * sizeof_probe_event)"
proof -
  have "0 < unat cap" "unat cap \<le> LP_EVENT_BUFFER_CAPACITY"
    using assms by (simp_all add: word_le_nat_alt LP_EVENT_BUFFER_CAPACITY_def)
  then have "unat seq mod unat cap < LP_EVENT_BUFFER_CAPACITY"
    by (meson mod_less_divisor order_less_le_trans)
  moreover have "seq mod cap = of_nat (unat seq mod unat cap)"
    by (simp add: unat_mod[symmetric])
  ultimately show ?thesis
    by (simp add: event_addr_def add.assoc)
qed

lemma shown_ring:
  assumes "mem_read m (d_event_buffer_addr d) sizeof_lp_event_buffer = enc_event_buffer (ring es)"
    and "\<forall>e \<in> set es. wf_event e" and "length es < 2 ^ 64" and "k \<le> LP_EVENT_BUFFER_CAPACITY"
  shows "shown_events m d (of_nat LP_EVENT_BUFFER_CAPACITY) (length es - k) (length es) = drop (length es - k) es"
proof (rule nth_equalityI)
  let ?C = LP_EVENT_BUFFER_CAPACITY and ?a = "d_event_buffer_addr d"
  show "length (shown_events m d (of_nat ?C) (length es - k) (length es)) = length (drop (length es - k) es)"
    by (simp add: shown_events_def)
  fix j assume "j < length (shown_events m d (of_nat ?C) (length es - k) (length es))"
  then have j: "length es - k + j < length es" by (simp add: shown_events_def)
  define i where "i = length es - k + j"
  define slot where "slot = i mod ?C"
  have i: "i < length es" "length es \<le> i + ?C" using j assms(4) by (auto simp: i_def)
  have slot: "slot < ?C" by (simp add: slot_def LP_EVENT_BUFFER_CAPACITY_def)
  have cap: "(1 :: u64) \<le> of_nat ?C" "unat (of_nat ?C :: u64) = ?C"
    by (simp_all add: LP_EVENT_BUFFER_CAPACITY_def)
  have addr: "event_addr d (of_nat ?C) (of_nat i) = ?a + of_nat (offsetof_events + slot * sizeof_probe_event)"
    using event_addr_slot[OF cap(1) order_refl, of "of_nat i" d] i assms(3) cap(2)
    by (simp add: unat_of_nat64 slot_def)
  have wf: "wf_event_buffer (ring es)" using wf_ring assms(2) by blast
  have "offsetof_events + slot * sizeof_probe_event + sizeof_probe_event \<le> sizeof_lp_event_buffer"
    using slot by (simp add: offsetof_events_def sizeof_probe_event_def sizeof_lp_event_buffer_def
        LP_EVENT_BUFFER_CAPACITY_def)
  then have "mem_read m (?a + of_nat (offsetof_events + slot * sizeof_probe_event)) sizeof_probe_event =
      take sizeof_probe_event (drop (offsetof_events + slot * sizeof_probe_event)
        (mem_read m ?a sizeof_lp_event_buffer))"
    by (simp add: take_mem_read drop_mem_read min_def)
  also have "dec_event \<dots> = eb_events (ring es) ! slot"
    using wf slot unfolding assms(1)
    by (simp add: enc_event_buffer_def offsetof_events_def wf_event_buffer_def event_codec.dec_slice_concat_enc)
  also have "\<dots> = es ! i" using ring_nth[OF assms(3) i] by (simp add: slot_def)
  finally show "shown_events m d (of_nat ?C) (length es - k) (length es) ! j = drop (length es - k) es ! j"
    using j addr by (simp add: shown_events_def i_def)
qed

section \<open>Reading the listing back\<close>

fun split_on :: "u8 \<Rightarrow> cstr \<Rightarrow> cstr list" where
  "split_on c [] = [[]]"
| "split_on c (x # xs) =
     (if x = c then [] # split_on c xs
      else case split_on c xs of [] \<Rightarrow> [[x]] | s # ss \<Rightarrow> (x # s) # ss)"

lemma split_on_append: "c \<notin> set s \<Longrightarrow> split_on c (s @ c # t) = s # split_on c t"
  by (induction s) auto

lemma split_on_single: "c \<notin> set s \<Longrightarrow> split_on c s = [s]"
  by (induction s) auto

lemma split_on_separated:
  "ss \<noteq> [] \<Longrightarrow> \<forall>s \<in> set ss. c \<notin> set s \<Longrightarrow> split_on c (separated c ss) = ss"
  by (induction c ss rule: separated.induct) (simp_all add: split_on_append split_on_single)

definition parse_csv_line :: "cstr \<Rightarrow> probe_event" where
  "parse_csv_line line =
     (let v = (\<lambda>i. digits_value 10 (split_on 44 line ! i)) in
      \<lparr> ev_timestamp_ns = of_nat (v 0), ev_pid = of_nat (v 1), ev_tid = of_nat (v 2),
        ev_probe_id = of_nat (v 3), ev_event_type = of_nat (v 4),
        ev_args = map (\<lambda>i. of_nat (v (5 + i))) [0, 1, 2, 3, 4, 5],
        ev_retval = of_nat (v 11), ev_duration_ns = of_nat (v 12) \<rparr>)"

definition parse_csv :: "cstr \<Rightarrow> probe_event list" where
  "parse_csv listing = map parse_csv_line (butlast (split_on 10 listing))"

lemma print_u_chars: "c \<in> set (print_u x) \<Longrightarrow> c \<noteq> 44 \<and> c \<noteq> 10"
  using print_nat_digits[of 10 c "unat x"] by (auto simp: print_u_def is_digit_def digit_val_def)

lemma separated_chars: "x \<in> set (separated c ss) \<Longrightarrow> x = c \<or> (\<exists>s \<in> set ss. x \<in> set s)"
  by (induction c ss rule: separated.induct) auto

lemma csv_fields_chars: "s \<in> set (csv_fields e) \<Longrightarrow> c \<in> set s \<Longrightarrow> c \<noteq> 44 \<and> c \<noteq> 10"
  by (auto simp: csv_fields_def dest: print_u_chars)

lemma parse_csv_row:
  assumes "wf_event e"
  shows "parse_csv_line (separated 44 (csv_fields e)) = e"
proof -
  have split: "split_on 44 (separated 44 (csv_fields e)) = csv_fields e"
    using csv_fields_chars by (intro split_on_separated) (auto simp: csv_fields_def)
  have digits: "digits_value 10 (print_u x) = unat x" for x :: "'a::len word"
    by (simp add: print_u_def digits_value_print)
  have "map ((!) (ev_args e)) [0, 1, 2, 3, 4, 5] = ev_args e"
    using assms by (auto simp: wf_event_def numeral_eq_Suc length_Suc_conv)
  then show ?thesis
    unfolding parse_csv_line_def split unfolding csv_fields_def Let_def by (simp add: digits)
qed

lemma parse_csv_prints:
  "\<forall>e \<in> set es. wf_event e \<Longrightarrow> parse_csv (concat (map print_event_csv es)) = es"
proof (induction es)
  case (Cons e es)
  have "10 \<notin> set (separated 44 (csv_fields e))"
    using csv_fields_chars separated_chars by fastforce
  then have "split_on 10 (concat (map print_event_csv (e # es))) =
      separated 44 (csv_fields e) # split_on 10 (concat (map print_event_csv es))"
    by (simp add: print_event_csv_def split_on_append)
  moreover have "split_on 10 t \<noteq> []" for t by (induction t) (auto split: list.splits)
  ultimately show ?case
    using Cons parse_csv_row[of e] by (simp add: parse_csv_def)
qed (simp add: parse_csv_def)

text \<open>The listing of a ring.\<close>

lemma read_ring:
  assumes "kernel_memory K mem" and "\<forall>e \<in> set history. wf_event e" and "length history < 2 ^ 64"
    and "mem_read (mem (m_world (c_manager s)) (d_pid d)) (d_event_buffer_addr d) sizeof_lp_event_buffer =
      enc_event_buffer (ring history)"
    and "unat (ea_limit args) \<le> LP_EVENT_BUFFER_CAPACITY"
    and "read_and_print_events K d args s = (Inr u, s')"
  shows "let n = length history; k = unat (ea_limit args)
    in c_out s' = c_out s @ events_heading d args (of_nat n) (of_nat (min n k)) @
         concat (map (print_event args) (drop (n - k) history)) \<and>
       mem (m_world (c_manager s')) (d_pid d) = mem (m_world (c_manager s)) (d_pid d)"
proof -
  let ?m = "mem (m_world (c_manager s)) (d_pid d)" and ?a = "d_event_buffer_addr d"
  let ?image = "enc_event_buffer (ring history)"
  have head: "mem_read ?m ?a 8 = take 8 ?image" "mem_read ?m (?a + 8) 8 = take 8 (drop 8 ?image)"
    using arg_cong[OF assms(4), of "take 8"] arg_cong[OF assms(4), of "\<lambda>bs. take 8 (drop 8 bs)"]
    by (simp_all add: take_mem_read drop_mem_read sizeof_lp_event_buffer_def)
  have tot: "le_word (mem_read ?m ?a 8) = (of_nat (length history) :: u64)"
    and cap: "le_word (mem_read ?m (?a + 8) 8) = (of_nat LP_EVENT_BUFFER_CAPACITY :: u64)"
    using ring_fields[of history] by (simp_all add: head enc_event_buffer_def)
  have n: "unat (of_nat (length history) :: u64) = length history"
    using assms(3) by (simp add: unat_of_nat64)
  have start: "length history - min (length history) (unat (ea_limit args)) =
      length history - unat (ea_limit args)" by simp
  show ?thesis
    using kernel_memory.read_and_print_ok[OF assms(1,6)] shown_ring[OF assms(4,2,3,5)]
    by (simp add: tot cap n start Let_def)
qed

section \<open>Properties\<close>

text \<open>
  C38: when the ring in the target is the image of a history of events, a successful
  \<open>read_and_print_events\<close> prints exactly the last \<open>limit\<close> events of that history, oldest first, none
  left out and none twice, however often the ring has gone round; and it does not change the
  target.
\<close>

theorem reader_prints_last_events:
  assumes "kernel_memory K mem" and "\<forall>e \<in> set history. wf_event e" and "length history < 2 ^ 64"
    and "mem_read (mem (m_world (c_manager s)) (d_pid d)) (d_event_buffer_addr d) sizeof_lp_event_buffer =
      enc_event_buffer (ring history)"
    and "unat (ea_limit args) \<le> LP_EVENT_BUFFER_CAPACITY"
    and "read_and_print_events K d args s = (Inr u, s')"
  shows "let n = length history; k = unat (ea_limit args)
    in c_out s' = c_out s @ events_heading d args (of_nat n) (of_nat (min n k)) @
         concat (map (print_event args) (drop (n - k) history)) \<and>
       mem (m_world (c_manager s')) (d_pid d) = mem (m_world (c_manager s)) (d_pid d)"
  using assms by (rule read_ring)


text \<open>
  The CSV listing loses nothing: splitting it at newlines and commas and reading the numbers
  gives back exactly the events that were printed.
\<close>

theorem csv_listing_roundtrip:
  "\<forall>e \<in> set es. wf_event e \<Longrightarrow> parse_csv (concat (map print_event_csv es)) = es"
  by (rule parse_csv_prints)

section \<open>The reader at work\<close>

definition example_event :: probe_event where
  "example_event = \<lparr> ev_timestamp_ns = 123456, ev_pid = 42, ev_tid = 43, ev_probe_id = 0,
     ev_event_type = PROBE_EVENT_RETURN, ev_args = [1, 2, 3, 4, 5, 6], ev_retval = - 1, ev_duration_ns = 77 \<rparr>"

lemma csv_listing_roundtrip_witness:
  "parse_csv (concat (map print_event_csv [example_event, zero_event])) = [example_event, zero_event]"
  by (rule csv_listing_roundtrip) (simp add: example_event_def zero_event_def wf_event_def)


definition example_reader :: probe_desc where
  "example_reader = zero_desc\<lparr>d_pid := 42, d_event_buffer_addr := 0x5000\<rparr>"

definition example_args :: event_args where
  "example_args = \<lparr>ea_pid = 42, ea_func = None, ea_limit = 32, ea_csv = 1\<rparr>"

definition example_cli :: "ref_world cli" where
  "example_cli = \<lparr>c_manager = \<lparr>m_world = ref_init\<lparr>rw_mem := mem_write (\<lambda>_. 0) 0x5000
       (enc_event_buffer (ring [example_event]))\<rparr>, g_probe_table = []\<rparr>, c_out = [], c_err = []\<rparr>"

text \<open>On the reference kernel the reader succeeds on a ring with one event.\<close>

lemma ref_reader_ok:
  fixes s :: "ref_world cli"
  defines "m \<equiv> rw_mem (m_world (c_manager s))"
  assumes vm: "rw_vm (m_world (c_manager s))" and d: "d_pid d = 42" "d_event_buffer_addr d \<noteq> 0" "event_addr d 4096 0 \<noteq> 0"
    and fields: "le_word (take 8 (mem_read m (d_event_buffer_addr d) 16)) = (1 :: u64)"
      "le_word (take 8 (drop 8 (mem_read m (d_event_buffer_addr d) 16))) = (4096 :: u64)"
    and limit: "ea_limit args = 32"
  shows "fst (read_and_print_events ref_kernel d args s) = Inr ()"
proof -
  have read: "in_manager (in_world (lp_remote_read ref_kernel 42 a OUT n)) s =
      (Inr (mem_read (rw_mem (m_world (c_manager s))) a n), s)"
    if "rw_vm (m_world (c_manager s))" "a \<noteq> 0" "0 < n" for a n and s :: "ref_world cli"
    using that by (simp add: in_manager_def in_world_def lp_remote_read_def remote_read_def ref_kernel_def)
  show ?thesis
    using vm d fields[unfolded m_def] limit
    by (simp add: read_and_print_events_def bindE_def read offsetof_events_def Let_def
        LP_EVENT_BUFFER_CAPACITY_def event_loop.simps[of _ _ _ _ "0"]
        event_loop.simps[of _ _ _ _ "1"] put_out_def sizeof_probe_event_def)
qed

lemma reader_prints_last_events_witness:
  "let (r, s) = read_and_print_events ref_kernel example_reader example_args example_cli
   in r = Inr () \<and> c_out s = csv_header @ print_event_csv example_event"
proof -
  let ?es = "[example_event]"
  let ?image = "enc_event_buffer (ring ?es)" and ?m = "rw_mem (m_world (c_manager example_cli))"
  have wf: "\<forall>e \<in> set ?es. wf_event e" by (simp add: example_event_def wf_event_def)
  have len: "length ?image = sizeof_lp_event_buffer"
    using wf_ring[OF wf] by (rule length_enc_event_buffer)
  have image: "mem_read ?m 0x5000 sizeof_lp_event_buffer = ?image"
    using mem_read_write_same[of ?image "\<lambda>_. 0" "0x5000"] len
    by (simp add: example_cli_def sizeof_lp_event_buffer_def)
  have head: "mem_read ?m 0x5000 16 = take 16 ?image"
    using arg_cong[OF image, of "take 16"] by (simp add: take_mem_read sizeof_lp_event_buffer_def)
  have "?image = le64 1 @ le64 4096 @ concat (map enc_event (eb_events (ring ?es)))"
    using ring_fields[of ?es] by (simp add: enc_event_buffer_def LP_EVENT_BUFFER_CAPACITY_def)
  then have "take 8 (take 16 ?image) = le64 1" "take 8 (drop 8 (take 16 ?image)) = le64 4096"
    by simp_all
  then have fields: "le_word (take 8 (mem_read ?m 0x5000 16)) = (1 :: u64)"
    "le_word (take 8 (drop 8 (mem_read ?m 0x5000 16))) = (4096 :: u64)"
    by (simp_all only: head le_word_le64)
  have d: "d_pid example_reader = 42" "d_event_buffer_addr example_reader = 0x5000"
    by (simp_all add: example_reader_def)
  have vm: "rw_vm (m_world (c_manager example_cli))" by (simp add: example_cli_def ref_init_def)
  have "event_addr example_reader 4096 0 \<noteq> 0"
    by (simp add: event_addr_def d offsetof_events_def)
  then have "fst (read_and_print_events ref_kernel example_reader example_args example_cli) = Inr ()"
    using fields by (intro ref_reader_ok[OF vm d(1)]) (simp_all add: d example_args_def)
  then obtain s where run: "read_and_print_events ref_kernel example_reader example_args example_cli = (Inr (), s)"
    by (metis prod.collapse)
  have "unat (ea_limit example_args) \<le> LP_EVENT_BUFFER_CAPACITY"
    by (simp add: example_args_def LP_EVENT_BUFFER_CAPACITY_def)
  from reader_prints_last_events[OF ref.kernel_memory_axioms wf _ _ this run] image run show ?thesis
    by (simp add: d Let_def example_args_def events_heading_def print_event_def) (simp add: example_cli_def)
qed

end
