(* ===== verification/Cli_Args.thy ===== *)
theory Cli_Args
  imports Events
begin

text \<open>
  The argument parsers of \<^verbatim>\<open>cli/\<close>. A command gets the strings behind its own name; an option that
  takes a value and comes last has none and is refused, as every unknown word is.
\<close>

section \<open>The parsers\<close>

record attach_opts =
  ao_pid :: pid_t
  ao_lib :: "cstr option"
  ao_func :: "cstr option"
  ao_addr :: u64
  ao_ret :: c_int

fun attach_loop :: "cstr list \<Rightarrow> attach_opts \<Rightarrow> attach_opts option" where
  "attach_loop [] spec = Some spec"
| "attach_loop [a] spec = (if a = ascii ''--ret'' then Some (spec\<lparr>ao_ret := 1\<rparr>) else None)"
| "attach_loop (a # v # rest) spec =
     (if a = ascii ''--pid'' then attach_loop rest (spec\<lparr>ao_pid := atoi v\<rparr>)
      else if a = ascii ''--lib'' then attach_loop rest (spec\<lparr>ao_lib := Some v\<rparr>)
      else if a = ascii ''--func'' then attach_loop rest (spec\<lparr>ao_func := Some v\<rparr>)
      else if a = ascii ''--addr'' then attach_loop rest (spec\<lparr>ao_addr := strtoull 0 v\<rparr>)
      else if a = ascii ''--ret'' then attach_loop (v # rest) (spec\<lparr>ao_ret := 1\<rparr>)
      else None)"

definition parse_attach_args :: "cstr list \<Rightarrow> lp_probe_spec option" where
  "parse_attach_args args =
     (case attach_loop args \<lparr>ao_pid = 0, ao_lib = None, ao_func = None, ao_addr = 0, ao_ret = 0\<rparr> of
        None \<Rightarrow> None
      | Some spec \<Rightarrow>
          (case (ao_lib spec, ao_func spec) of
             (Some lib, Some func) \<Rightarrow>
               if sint (ao_pid spec) \<le> 0 then None
               else if ao_addr spec \<noteq> 0 \<and> ao_addr spec < 0x1000 then None
               else Some \<lparr>sp_pid = ao_pid spec, sp_lib_name = lib, sp_func_name = func,
                          sp_target_addr_override = ao_addr spec, sp_has_retprobe = ao_ret spec\<rparr>
           | _ \<Rightarrow> None))"

text \<open>\<open>parse_pid_func\<close>, the same in the files of detach, enable and disable.\<close>

fun pid_func_loop :: "cstr list \<Rightarrow> pid_t \<times> cstr option \<Rightarrow> (pid_t \<times> cstr option) option" where
  "pid_func_loop [] (pid, func) = Some (pid, func)"
| "pid_func_loop [a] (pid, func) = None"
| "pid_func_loop (a # v # rest) (pid, func) =
     (if a = ascii ''--pid'' then pid_func_loop rest (atoi v, func)
      else if a = ascii ''--func'' then pid_func_loop rest (pid, Some v)
      else None)"

definition parse_pid_func :: "cstr list \<Rightarrow> (pid_t \<times> cstr) option" where
  "parse_pid_func args =
     (case pid_func_loop args (0, None) of
        Some (pid, Some func) \<Rightarrow> if 0 < sint pid then Some (pid, func) else None
      | _ \<Rightarrow> None)"

fun events_loop :: "cstr list \<Rightarrow> event_args \<Rightarrow> event_args option" where
  "events_loop [] args = Some args"
| "events_loop [a] args = (if a = ascii ''--csv'' then Some (args\<lparr>ea_csv := 1\<rparr>) else None)"
| "events_loop (a # v # rest) args =
     (if a = ascii ''--pid'' then events_loop rest (args\<lparr>ea_pid := atoi v\<rparr>)
      else if a = ascii ''--func'' then events_loop rest (args\<lparr>ea_func := Some v\<rparr>)
      else if a = ascii ''--limit'' then events_loop rest (args\<lparr>ea_limit := strtoull 10 v\<rparr>)
      else if a = ascii ''--csv'' then events_loop (v # rest) (args\<lparr>ea_csv := 1\<rparr>)
      else None)"

definition parse_events_args :: "cstr list \<Rightarrow> event_args option" where
  "parse_events_args argv =
     (case events_loop argv \<lparr>ea_pid = 0, ea_func = None, ea_limit = 32, ea_csv = 0\<rparr> of
        None \<Rightarrow> None
      | Some args \<Rightarrow>
          if sint (ea_pid args) \<le> 0 \<or> ea_limit args = 0 then None
          else Some (args\<lparr>ea_limit := min (ea_limit args) (of_nat LP_EVENT_BUFFER_CAPACITY)\<rparr>))"

section \<open>What the parsers accept\<close>

text \<open>The values come from the command line.\<close>

lemma attach_loop_values:
  "attach_loop args spec = Some spec' \<Longrightarrow>
   (\<forall>f. ao_func spec' = Some f \<longrightarrow> f \<in> set args \<or> ao_func spec = Some f) \<and>
   (ao_ret spec' = 1 \<or> ao_ret spec' = ao_ret spec)"
  by (induction args spec rule: attach_loop.induct) (auto split: if_splits)

lemma parse_attach_ok:
  assumes "parse_attach_args args = Some spec"
  shows "sp_func_name spec \<in> set args \<and> 0 < sint (sp_pid spec) \<and>
    (sp_target_addr_override spec = 0 \<or> 0x1000 \<le> sp_target_addr_override spec) \<and>
    (sp_has_retprobe spec = 0 \<or> sp_has_retprobe spec = 1)"
  using assms
  by (auto simp: parse_attach_args_def not_less dest!: attach_loop_values
      split: option.splits if_splits)

lemma pid_func_loop_values:
  "pid_func_loop args q = Some (pid, Some f) \<Longrightarrow> f \<in> set args \<or> snd q = Some f"
  by (induction args q rule: pid_func_loop.induct) (auto split: if_splits)

lemma parse_pid_func_ok:
  "parse_pid_func args = Some (pid, func) \<Longrightarrow> func \<in> set args \<and> 0 < sint pid"
  by (auto simp: parse_pid_func_def dest!: pid_func_loop_values split: option.splits if_splits)

lemma parse_events_ok:
  "parse_events_args argv = Some args \<Longrightarrow>
   0 < sint (ea_pid args) \<and> 1 \<le> unat (ea_limit args) \<and> unat (ea_limit args) \<le> LP_EVENT_BUFFER_CAPACITY"
  by (auto simp: parse_events_args_def LP_EVENT_BUFFER_CAPACITY_def min_def word_le_nat_alt unat_gt_0 Suc_le_eq
      split: option.splits if_splits)

section \<open>Command lines\<close>

text \<open>An option of \<^verbatim>\<open>attach\<close>, the words that it is on the command line, and what it sets.\<close>

datatype attach_option = Pid pid_t | Lib cstr | Func cstr | Addr u64 | Ret

fun attach_words :: "attach_option \<Rightarrow> cstr list" where
  "attach_words (Pid p) = [ascii ''--pid'', print_d p]"
| "attach_words (Lib l) = [ascii ''--lib'', l]"
| "attach_words (Func f) = [ascii ''--func'', f]"
| "attach_words (Addr a) = [ascii ''--addr'', ascii ''0x'' @ print_x a]"
| "attach_words Ret = [ascii ''--ret'']"

fun attach_set :: "attach_option \<Rightarrow> attach_opts \<Rightarrow> attach_opts" where
  "attach_set (Pid p) spec = spec\<lparr>ao_pid := p\<rparr>"
| "attach_set (Lib l) spec = spec\<lparr>ao_lib := Some l\<rparr>"
| "attach_set (Func f) spec = spec\<lparr>ao_func := Some f\<rparr>"
| "attach_set (Addr a) spec = spec\<lparr>ao_addr := a\<rparr>"
| "attach_set Ret spec = spec\<lparr>ao_ret := 1\<rparr>"

text \<open>A hexadecimal number with its prefix is read back.\<close>

lemma strtoull_hex: "strtoull 0 (ascii ''0x'' @ print_x a) = a"
proof -
  let ?ds = "print_nat 16 (unat a)"
  obtain d ds where ds: "?ds = d # ds" using print_nat_nonempty by (cases ?ds) blast+
  have dig: "\<forall>c \<in> set ?ds. is_digit 16 c" using print_nat_digits by simp
  then have "hex_prefix (48 # 120 # ?ds)" using ds by (simp add: hex_prefix_def)
  moreover have all: "takeWhile (is_digit 16) ?ds = ?ds" "dropWhile (is_digit 16) ?ds = []"
    using dig by simp_all
  ultimately have "scan_number 0 (48 # 120 # ?ds) = Some ((False, digits_value 16 ?ds), [])"
    using all ds by (simp add: scan_number_def scan_base_def isspace_def)
  moreover have "unat a < 2 ^ 64" using unsigned_less[of a, where 'a = nat] by simp
  ultimately show ?thesis
    by (simp add: strtoull_def ascii_def print_x_def digits_value_print ull_of_def)
qed

lemma option_words:
  "ascii ''--lib'' \<noteq> ascii ''--pid''" "ascii ''--func'' \<noteq> ascii ''--pid''" "ascii ''--func'' \<noteq> ascii ''--lib''"
  "ascii ''--addr'' \<noteq> ascii ''--pid''" "ascii ''--addr'' \<noteq> ascii ''--lib''" "ascii ''--addr'' \<noteq> ascii ''--func''"
  "ascii ''--ret'' \<noteq> ascii ''--pid''" "ascii ''--ret'' \<noteq> ascii ''--lib''" "ascii ''--ret'' \<noteq> ascii ''--func''"
  "ascii ''--ret'' \<noteq> ascii ''--addr''"
  by (simp_all add: ascii_def)

lemma attach_loop_ret: "attach_loop (ascii ''--ret'' # rest) spec = attach_loop rest (spec\<lparr>ao_ret := 1\<rparr>)"
  by (cases rest) (simp_all add: option_words)

lemma attach_loop_words:
  "\<forall>p. Pid p \<in> set opts \<longrightarrow> 0 \<le> sint p \<Longrightarrow>
   attach_loop (concat (map attach_words opts)) spec = Some (fold attach_set opts spec)"
proof (induction opts arbitrary: spec)
  case (Cons x opts)
  then show ?case
    by (cases x) (simp_all add: option_words attach_loop_ret atoi_print_d strtoull_hex)
qed simp

section \<open>Properties\<close>

text \<open>
  C40: the parser of \<^verbatim>\<open>attach\<close> reads a command line back, whatever the order of its options: each
  option sets its field, later ones override earlier ones, and the result is accepted exactly
  when there is a library, a function and a positive process id, and the address, if one is
  given, is not in the first page.
\<close>

theorem attach_options_read_back:
  assumes "\<forall>p. Pid p \<in> set opts \<longrightarrow> 0 \<le> sint p"
  shows "let spec = fold attach_set opts
               \<lparr>ao_pid = 0, ao_lib = None, ao_func = None, ao_addr = 0, ao_ret = 0\<rparr>
    in parse_attach_args (concat (map attach_words opts)) =
      (if ao_lib spec \<noteq> None \<and> ao_func spec \<noteq> None \<and> 0 < sint (ao_pid spec) \<and>
          (ao_addr spec = 0 \<or> 0x1000 \<le> ao_addr spec)
       then Some \<lparr>sp_pid = ao_pid spec, sp_lib_name = the (ao_lib spec), sp_func_name = the (ao_func spec),
                  sp_target_addr_override = ao_addr spec, sp_has_retprobe = ao_ret spec\<rparr>
       else None)"
  using attach_loop_words[OF assms]
  by (auto simp: parse_attach_args_def Let_def not_less split: option.splits)

lemma attach_options_read_back_witness:
  "parse_attach_args (concat (map attach_words [Func (ascii ''f''), Ret, Pid 42, Addr 0x1000, Lib (ascii ''l'')])) =
   Some \<lparr>sp_pid = 42, sp_lib_name = ascii ''l'', sp_func_name = ascii ''f'',
         sp_target_addr_override = 0x1000, sp_has_retprobe = 1\<rparr>"
proof -
  let ?opts = "[Func (ascii ''f''), Ret, Pid 42, Addr 0x1000, Lib (ascii ''l'')]"
  have "\<forall>p. Pid p \<in> set ?opts \<longrightarrow> 0 \<le> sint p" by simp
  note r = attach_options_read_back[OF this, unfolded Let_def]
  have f: "fold attach_set ?opts \<lparr>ao_pid = 0, ao_lib = None, ao_func = None, ao_addr = 0, ao_ret = 0\<rparr> =
    \<lparr>ao_pid = 42, ao_lib = Some (ascii ''l''), ao_func = Some (ascii ''f''), ao_addr = 0x1000, ao_ret = 1\<rparr>"
    by (simp only: fold_simps attach_set.simps attach_opts.update_convs)
  show ?thesis unfolding r f by simp
qed

text \<open>
  What the parsers accept is within bounds: process ids are positive, an address override is
  not in the first page, and the number of events asked for is between 1 and the capacity of the
  ring.
\<close>

theorem accepted_arguments_in_bounds:
  "(\<forall>spec. parse_attach_args args = Some spec \<longrightarrow> 0 < sint (sp_pid spec) \<and>
      (sp_target_addr_override spec = 0 \<or> 0x1000 \<le> sp_target_addr_override spec)) \<and>
   (\<forall>pid func. parse_pid_func args = Some (pid, func) \<longrightarrow> 0 < sint pid) \<and>
   (\<forall>ea. parse_events_args args = Some ea \<longrightarrow> 0 < sint (ea_pid ea) \<and>
      1 \<le> unat (ea_limit ea) \<and> unat (ea_limit ea) \<le> LP_EVENT_BUFFER_CAPACITY)"
  using parse_attach_ok parse_pid_func_ok parse_events_ok by blast

lemma accepted_arguments_in_bounds_witness:
  "let ea = parse_events_args [ascii ''--pid'', print_d 42, ascii ''--limit'', print_nat 10 9999]
   in ea \<noteq> None \<and> 1 \<le> unat (ea_limit (the ea)) \<and> unat (ea_limit (the ea)) \<le> 4096"
proof -
  let ?args = "[ascii ''--pid'', print_d 42, ascii ''--limit'', print_nat 10 9999]"
  have "strtoull 10 (print_nat 10 9999) = 9999"
    using scan_number_print[of 10 "[]" "[]" 0 9999] by (simp add: strtoull_def ends_number_def ull_of_def)
  moreover have "ascii ''--limit'' \<noteq> ascii ''--pid''" "ascii ''--limit'' \<noteq> ascii ''--func''"
    by (simp_all add: ascii_def)
  ultimately obtain ea where "parse_events_args ?args = Some ea"
    by (simp add: parse_events_args_def atoi_print_d)
  with accepted_arguments_in_bounds[of ?args] show ?thesis
    by (simp add: LP_EVENT_BUFFER_CAPACITY_def)
qed

end
