(* ===== verification/Cli.thy ===== *)
theory Cli
  imports Cli_Args
begin

text \<open>
  The commands of \<^verbatim>\<open>cli/\<close> and \<open>main\<close>. A command gets the strings behind its name and returns the
  exit code; \<open>strerror\<close> is the C library's. The text goes to the two output streams of the state.
\<close>

section \<open>Texts\<close>

definition lp_print_usage :: "cstr \<Rightarrow> cstr" where
  "lp_print_usage prog =
     ascii ''Usage:'' @ [10] @
     concat (map (\<lambda>line. ascii ''  '' @ prog @ line @ [10])
       [ascii '' attach --pid <pid> --lib <lib> --func <func> [--addr <addr>] [--ret]'',
        ascii '' detach --pid <pid> --func <func>'',
        ascii '' enable --pid <pid> --func <func>'',
        ascii '' disable --pid <pid> --func <func>'',
        ascii '' events --pid <pid> [--func <func>] [--limit <n>] [--csv]'',
        ascii '' list''])"

definition lightprobe :: cstr where "lightprobe = ascii ''lightprobe''"

text \<open>\<^verbatim>\<open>%-Nd\<close> and \<^verbatim>\<open>%016lx\<close>.\<close>

definition pad_right :: "nat \<Rightarrow> cstr \<Rightarrow> cstr" where
  "pad_right n s = s @ replicate (n - length s) 32"

definition pad_zeros :: "nat \<Rightarrow> cstr \<Rightarrow> cstr" where
  "pad_zeros n s = replicate (n - length s) 48 @ s"

definition attached_line :: "probe_desc \<Rightarrow> cstr" where
  "attached_line d =
     ascii ''attached probe_id='' @ print_d (d_probe_id d) @ ascii '' pid='' @ print_d (d_pid d) @ [32] @
     cstr_of (d_lib_name d) @ [58] @ cstr_of (d_func_name d) @ ascii '' target=0x'' @
     print_x (d_target_addr d) @ ascii '' ret='' @ print_d (d_has_retprobe d) @ [10]"

definition done_line :: "string \<Rightarrow> pid_t \<Rightarrow> cstr \<Rightarrow> cstr" where
  "done_line verb pid func = ascii verb @ ascii '' pid='' @ print_d pid @ ascii '' func='' @ func @ [10]"

definition failed_line :: "string \<Rightarrow> cstr \<Rightarrow> cstr" where
  "failed_line verb why = ascii verb @ ascii '' failed: '' @ why @ [10]"

definition list_heading :: cstr where
  "list_heading = ascii ''ID  PID      ENABLED  RET  TARGET              LIB:FUNC'' @ [10]"

definition list_row :: "probe_desc \<Rightarrow> cstr" where
  "list_row d =
     pad_right 3 (print_d (d_probe_id d)) @ [32] @ pad_right 8 (print_d (d_pid d)) @ [32] @
     pad_right 8 (print_d (d_enabled d)) @ [32] @ pad_right 4 (print_d (d_has_retprobe d)) @
     ascii '' 0x'' @ pad_zeros 16 (print_x (d_target_addr d)) @ ascii ''  '' @
     cstr_of (d_lib_name d) @ [58] @ cstr_of (d_func_name d) @ [10]"

section \<open>The commands\<close>

type_synonym 'w command = "cstr list \<Rightarrow> 'w cli \<Rightarrow> nat \<times> 'w cli"

definition lp_cmd_attach :: "'w kernel \<Rightarrow> (errno \<Rightarrow> cstr) \<Rightarrow> 'w command" where
  "lp_cmd_attach K strerror args s =
     (case parse_attach_args args of
        None \<Rightarrow> (2, put_err (lp_print_usage lightprobe) s)
      | Some spec \<Rightarrow>
          (case in_manager (lp_probe_attach K spec) s of
             (Inl e, s) \<Rightarrow> (1, put_err (failed_line ''attach'' (strerror e)) s)
           | (Inr desc, s) \<Rightarrow> (0, put_out (attached_line desc) s)))"

definition find_probe :: "pid_t \<Rightarrow> cstr \<Rightarrow> 'w cli \<Rightarrow> nat option" where
  "find_probe pid func s = lp_probe_manager_find pid func (g_probe_table (c_manager s))"

definition lp_cmd_detach :: "'w kernel \<Rightarrow> (errno \<Rightarrow> cstr) \<Rightarrow> 'w command" where
  "lp_cmd_detach K strerror args s =
     (case parse_pid_func args of
        None \<Rightarrow> (2, put_err (lp_print_usage lightprobe) s)
      | Some (pid, func) \<Rightarrow>
          (case find_probe pid func s of
             None \<Rightarrow> (1, put_err (failed_line ''detach'' (ascii ''probe not found'')) s)
           | Some desc \<Rightarrow>
               (case in_manager (lp_probe_detach K (Some desc)) s of
                  (Inl e, s) \<Rightarrow> (1, put_err (failed_line ''detach'' (strerror e)) s)
                | (Inr _, s) \<Rightarrow> (0, put_out (done_line ''detached'' pid func) s))))"

text \<open>\<open>lp_cmd_enable\<close> and \<open>lp_cmd_disable\<close> differ in the operation and the words.\<close>

definition switch_command ::
    "(nat option \<Rightarrow> ('w manager, unit) est) \<Rightarrow> string \<Rightarrow> string \<Rightarrow> (errno \<Rightarrow> cstr) \<Rightarrow> 'w command" where
  "switch_command operation verb past strerror args s =
     (case parse_pid_func args of
        None \<Rightarrow> (2, put_err (lp_print_usage lightprobe) s)
      | Some (pid, func) \<Rightarrow>
          (case find_probe pid func s of
             None \<Rightarrow> (1, put_err (failed_line verb (ascii ''probe not found'')) s)
           | Some desc \<Rightarrow>
               (case in_manager (operation (Some desc)) s of
                  (Inl e, s) \<Rightarrow> (1, put_err (failed_line verb (strerror e)) s)
                | (Inr _, s) \<Rightarrow> (0, put_out (done_line past pid func) s))))"

definition lp_cmd_enable :: "'w kernel \<Rightarrow> (errno \<Rightarrow> cstr) \<Rightarrow> 'w command" where
  "lp_cmd_enable K = switch_command (lp_probe_enable K) ''enable'' ''enabled''"

definition lp_cmd_disable :: "'w kernel \<Rightarrow> (errno \<Rightarrow> cstr) \<Rightarrow> 'w command" where
  "lp_cmd_disable K = switch_command (lp_probe_disable K) ''disable'' ''disabled''"

definition slot_at :: "nat \<Rightarrow> probe_desc list \<Rightarrow> probe_desc option" where
  "slot_at i table =
     (case lp_probe_manager_at (of_nat i) of Inl _ \<Rightarrow> None | Inr k \<Rightarrow> Some (table ! k))"

definition find_first_probe_by_pid :: "pid_t \<Rightarrow> probe_desc list \<Rightarrow> nat option" where
  "find_first_probe_by_pid pid table =
     find (\<lambda>i. case slot_at i table of None \<Rightarrow> False | Some d \<Rightarrow> d_pid d = pid) [0..<LP_MAX_PROBES]"

definition lp_cmd_events :: "'w kernel \<Rightarrow> (errno \<Rightarrow> cstr) \<Rightarrow> 'w command" where
  "lp_cmd_events K strerror argv s =
     (case parse_events_args argv of
        None \<Rightarrow> (2, put_err (lp_print_usage lightprobe) s)
      | Some args \<Rightarrow>
          (case (case ea_func args of
                   Some func \<Rightarrow> find_probe (ea_pid args) func s
                 | None \<Rightarrow> find_first_probe_by_pid (ea_pid args) (g_probe_table (c_manager s))) of
             None \<Rightarrow> (1, put_err (failed_line ''events'' (ascii ''probe not found'')) s)
           | Some desc \<Rightarrow>
               (case read_and_print_events K (g_probe_table (c_manager s) ! desc) args s of
                  (Inl e, s) \<Rightarrow> (1, put_err (failed_line ''events'' (strerror e)) s)
                | (Inr _, s) \<Rightarrow> (0, s))))"

definition lp_cmd_list :: "'w command" where
  "lp_cmd_list args s =
     (if args \<noteq> [] then (2, put_err (lp_print_usage lightprobe) s)
      else
        let table = g_probe_table (c_manager s) in
        (0, put_out (concat (map (\<lambda>i.
                case slot_at i table of
                  None \<Rightarrow> []
                | Some d \<Rightarrow> if d_pid d = 0 then [] else list_row d) [0..<LP_MAX_PROBES]))
              (put_out list_heading s)))"

section \<open>The program\<close>

text \<open>\<open>prog\<close> is \<^verbatim>\<open>argv[0]\<close>, \<open>args\<close> the rest of \<^verbatim>\<open>argv\<close>.\<close>

definition lp_main :: "'w kernel \<Rightarrow> (errno \<Rightarrow> cstr) \<Rightarrow> cstr \<Rightarrow> 'w command" where
  "lp_main K strerror prog args s =
     (case args of
        [] \<Rightarrow> (2, put_err (lp_print_usage prog) s)
      | cmd # argv \<Rightarrow>
          (case in_manager (lp_probe_manager_load K) s of
             (Inl e, s) \<Rightarrow>
               (1, put_err (ascii ''failed to load probe state: '' @ strerror e @ [10]) s)
           | (Inr _, s) \<Rightarrow>
               if cmd = ascii ''attach'' then lp_cmd_attach K strerror argv s
               else if cmd = ascii ''detach'' then lp_cmd_detach K strerror argv s
               else if cmd = ascii ''enable'' then lp_cmd_enable K strerror argv s
               else if cmd = ascii ''disable'' then lp_cmd_disable K strerror argv s
               else if cmd = ascii ''events'' then lp_cmd_events K strerror argv s
               else if cmd = ascii ''list'' then lp_cmd_list argv s
               else (2, put_err (lp_print_usage prog) s)))"

section \<open>What a command promises\<close>

text \<open>
  The contract that \<open>main\<close> relies on: an exit code, no effect when the arguments are refused, and
  a state of the manager that the program may be in.
\<close>

locale command =
  fixes K :: "'w kernel"
    and cmd :: "'w command"
  assumes exit_code: "cmd args s = (r, s') \<Longrightarrow> r \<in> {0, 1, 2}"
    and refused: "cmd args s = (2, s') \<Longrightarrow> c_manager s' = c_manager s \<and> c_out s' = c_out s"
    and runs: "cmd args s = (r, s') \<Longrightarrow> \<forall>a \<in> set args. proper_name a \<Longrightarrow>
      reachable K (c_manager s) \<Longrightarrow> reachable K (c_manager s')"

lemma put_fields [simp]:
  "c_manager (put_out t s) = c_manager s" "c_manager (put_err t s) = c_manager s"
  "c_out (put_err t s) = c_out s" "c_out (put_out t s) = c_out s @ t"
  by (simp_all add: put_out_def put_err_def)

lemma in_manager_eq: "in_manager m s = (r, s') \<Longrightarrow> m (c_manager s) = (r, c_manager s')"
  by (auto simp: in_manager_def split: prod.splits)

lemma positive_not_zero: "0 < sint (p :: pid_t) \<Longrightarrow> p \<noteq> 0"
  by auto

interpretation attach_command: command K "lp_cmd_attach K strerror" for K :: "'w kernel" and strerror
proof
  fix args and s s' :: "'w cli" and r
  assume run: "lp_cmd_attach K strerror args s = (r, s')" and proper: "\<forall>a \<in> set args. proper_name a"
    and reach: "reachable K (c_manager s)"
  show "reachable K (c_manager s')"
  proof (cases "parse_attach_args args")
    case None
    with run reach show ?thesis by (auto simp: lp_cmd_attach_def)
  next
    case (Some spec)
    then have "proper_spec spec"
      using parse_attach_ok[OF Some] proper positive_not_zero by (simp add: proper_spec_def)
    moreover obtain q s1 where q: "in_manager (lp_probe_attach K spec) s = (q, s1)" by fastforce
    ultimately have "reachable K (c_manager s1)"
      using reachable.attach[OF reach] in_manager_eq by metis
    then show ?thesis using run Some q by (cases q) (auto simp: lp_cmd_attach_def)
  qed
qed (auto simp: lp_cmd_attach_def split: option.splits prod.splits sum.splits)

text \<open>The commands that look a probe up and work on it.\<close>

lemma find_probe_used:
  assumes "find_probe pid func s = Some i"
  shows "lp_probe_manager_find pid func (g_probe_table (c_manager s)) = Some i"
  using assms by (simp add: find_probe_def)

text \<open>
  Detach, enable and disable are the same command for three operations; the contract holds for any
  operation that a reachable state allows on a found probe.
\<close>

lemma detach_is_switch:
  "lp_cmd_detach K strerror = switch_command (lp_probe_detach K) ''detach'' ''detached'' strerror"
  by (intro ext) (simp add: lp_cmd_detach_def switch_command_def)

locale switching =
  fixes K :: "'w kernel"
    and operation :: "nat option \<Rightarrow> ('w manager, unit) est"
  assumes switched: "reachable K t \<Longrightarrow> pid \<noteq> 0 \<Longrightarrow>
      lp_probe_manager_find pid func (g_probe_table t) = Some i \<Longrightarrow> operation (Some i) t = (q, t') \<Longrightarrow>
      reachable K t'"

sublocale switching \<subseteq> switch: command K "switch_command operation verb past strerror" for verb past strerror
proof
  fix args and s s' :: "'w cli" and r
  assume run: "switch_command operation verb past strerror args s = (r, s')" and reach: "reachable K (c_manager s)"
  show "reachable K (c_manager s')"
  proof (cases "\<exists>pid func i. parse_pid_func args = Some (pid, func) \<and> find_probe pid func s = Some i")
    case False
    with run reach show ?thesis by (auto simp: switch_command_def split: option.splits)
  next
    case True
    then obtain pid func i where p: "parse_pid_func args = Some (pid, func)" and i: "find_probe pid func s = Some i"
      by blast
    obtain q s1 where q: "in_manager (operation (Some i)) s = (q, s1)" by fastforce
    have "pid \<noteq> 0" using parse_pid_func_ok[OF p] positive_not_zero by blast
    from switched[OF reach this find_probe_used[OF i] in_manager_eq[OF q]]
    show ?thesis using run p i q by (cases q) (auto simp: switch_command_def)
  qed
qed (auto simp: switch_command_def split: option.splits prod.splits sum.splits)

interpretation detaching: switching K "lp_probe_detach K" for K :: "'w kernel"
  by unfold_locales (rule reachable.detach)

interpretation enabling: switching K "lp_probe_enable K" for K :: "'w kernel"
  by unfold_locales (rule reachable.enable)

interpretation disabling: switching K "lp_probe_disable K" for K :: "'w kernel"
  by unfold_locales (rule reachable.disable)

text \<open>The commands that only look.\<close>

lemma event_loop_table:
  "event_loop K d args cap seq total' s = (r, s') \<Longrightarrow>
   g_probe_table (c_manager s') = g_probe_table (c_manager s)"
proof (induction "unat total' - unat seq" arbitrary: seq s)
  case 0
  then show ?case
    using "0.prems"[unfolded event_loop.simps[of K d args cap seq]] by (auto simp: word_less_nat_alt)
next
  case (Suc k)
  have less: "seq < total'" using Suc.hyps(2) by (simp add: word_less_nat_alt)
  obtain q s1 where q: "in_manager (in_world (lp_remote_read K (d_pid d) (event_addr d cap seq) OUT
      sizeof_probe_event)) s = (q, s1)" by fastforce
  have s1: "g_probe_table (c_manager s1) = g_probe_table (c_manager s)"
    using in_manager_world[OF q] by simp
  show ?case
  proof (cases q)
    case (Inl e)
    then show ?thesis
      using Suc.prems[unfolded event_loop.simps[of K d args cap seq]] less q s1 by simp
  next
    case (Inr bytes)
    then have "event_loop K d args cap (seq + 1) total' (put_out (print_event args (dec_event bytes)) s1) = (r, s')"
      using Suc.prems[unfolded event_loop.simps[of K d args cap seq]] less q by simp
    from Suc.hyps(1)[OF _ this] Suc.hyps(2) unat_next[OF less] s1 show ?thesis by simp
  qed
qed

lemma read_and_print_table:
  assumes "read_and_print_events K d args s = (r, s')"
  shows "g_probe_table (c_manager s') = g_probe_table (c_manager s)"
proof (cases "d_event_buffer_addr d = 0")
  case True
  with assms show ?thesis by (simp add: read_and_print_events_def raiseE_def)
next
  case False
  obtain q s1 where q: "in_manager (in_world (lp_remote_read K (d_pid d) (d_event_buffer_addr d) OUT
      offsetof_events)) s = (q, s1)" by fastforce
  then have "g_probe_table (c_manager s1) = g_probe_table (c_manager s)"
    using in_manager_world by blast
  with assms False q show ?thesis
    by (cases q) (auto simp: read_and_print_events_def bindE_def Let_def split: if_splits dest!: event_loop_table)
qed

lemma reachable_same_table:
  assumes "reachable K t" and "g_probe_table t' = g_probe_table t"
  shows "reachable K t'"
proof -
  have "t' = t\<lparr>m_world := m_world t'\<rparr>" using assms(2) by (cases t; cases t') simp
  with reachable.world[OF assms(1)] show ?thesis by metis
qed

interpretation events_command: command K "lp_cmd_events K strerror" for K :: "'w kernel" and strerror
proof
  fix args and s s' :: "'w cli" and r
  assume run: "lp_cmd_events K strerror args s = (r, s')" and reach: "reachable K (c_manager s)"
  have "g_probe_table (c_manager s') = g_probe_table (c_manager s)"
    using run by (auto simp: lp_cmd_events_def split: option.splits prod.splits sum.splits
        dest!: read_and_print_table)
  with reach show "reachable K (c_manager s')" by (rule reachable_same_table)
qed (auto simp: lp_cmd_events_def split: option.splits prod.splits sum.splits)

interpretation list_command: command K lp_cmd_list for K :: "'w kernel"
  by unfold_locales (auto simp: lp_cmd_list_def Let_def split: if_splits)

section \<open>What main promises\<close>

text \<open>The state file, when it can be opened, is one that the program has saved.\<close>

definition state_saved :: "'w kernel \<Rightarrow> 'w \<Rightarrow> bool" where
  "state_saved K w \<longleftrightarrow>
     (case fst (c_fopen_r K LP_STATE_FILE w) of
        Inl e \<Rightarrow> True
      | Inr (fp, bytes) \<Rightarrow> (\<exists>t. reachable K t \<and> bytes = enc_state (g_probe_table t)))"

lemma load_reachable:
  assumes "reachable K t" and "state_saved K (m_world t)" and "lp_probe_manager_load K t = (r, t')"
  shows "reachable K t'"
proof (cases "c_fopen_r K LP_STATE_FILE (m_world t)")
  case (Pair q w)
  show ?thesis
  proof (cases q)
    case (Inl e)
    with Pair show ?thesis using reachable.load_missing[OF assms(1) _ assms(3)] by simp
  next
    case (Inr x)
    then obtain fp bytes where x: "q = Inr (fp, bytes)" by (cases x) auto
    with Pair assms(2) obtain t0 where "reachable K t0" "bytes = enc_state (g_probe_table t0)"
      by (auto simp: state_saved_def)
    with Pair x show ?thesis using reachable.load[OF assms(1) _ _ assms(3)] by simp
  qed
qed

text \<open>What \<open>main\<close> does: refuse, or load and then run a command.\<close>

lemma main_cases:
  assumes "lp_main K strerror prog args s = (r, s')"
  obtains (empty) "args = []" "r = 2" "c_manager s' = c_manager s" "c_out s' = c_out s"
  | (load_failed) cmd argv e where "args = cmd # argv" "r = 1"
      "lp_probe_manager_load K (c_manager s) = (Inl e, c_manager s')" "c_out s' = c_out s"
  | (command) cmd argv f s1 where "args = cmd # argv" "command K f" "f argv s1 = (r, s')"
      "lp_probe_manager_load K (c_manager s) = (Inr (), c_manager s1)" "c_out s1 = c_out s"
  | (unknown) cmd argv where "args = cmd # argv" "r = 2"
      "lp_probe_manager_load K (c_manager s) = (Inr (), c_manager s')" "c_out s' = c_out s"
proof (cases args)
  case Nil
  with assms show thesis by (intro empty) (auto simp: lp_main_def)
next
  case (Cons cmd argv)
  obtain q s1 where q: "in_manager (lp_probe_manager_load K) s = (q, s1)" by fastforce
  then have load: "lp_probe_manager_load K (c_manager s) = (q, c_manager s1)" and out: "c_out s1 = c_out s"
    by (auto simp: in_manager_def split: prod.splits)
  show thesis
  proof (cases q)
    case (Inl e)
    with assms Cons q load out show thesis by (intro load_failed) (auto simp: lp_main_def)
  next
    case (Inr u)
    have load': "lp_probe_manager_load K (c_manager s) = (Inr (), c_manager s1)" using load Inr by simp
    note by_command = command[OF Cons _ _ load' out]
    from assms Cons q Inr consider "lp_cmd_attach K strerror argv s1 = (r, s')"
      | "lp_cmd_detach K strerror argv s1 = (r, s')" | "lp_cmd_enable K strerror argv s1 = (r, s')"
      | "lp_cmd_disable K strerror argv s1 = (r, s')" | "lp_cmd_events K strerror argv s1 = (r, s')"
      | "lp_cmd_list argv s1 = (r, s')" | "(2, put_err (lp_print_usage prog) s1) = (r, s')"
      by (simp add: lp_main_def split: if_splits)
    then show thesis
    proof cases
      case 1 then show thesis by (rule by_command[OF attach_command.command_axioms])
    next
      case 2 then show thesis
        unfolding detach_is_switch by (rule by_command[OF detaching.switch.command_axioms])
    next
      case 3 then show thesis
        unfolding lp_cmd_enable_def by (rule by_command[OF enabling.switch.command_axioms])
    next
      case 4 then show thesis
        unfolding lp_cmd_disable_def by (rule by_command[OF disabling.switch.command_axioms])
    next
      case 5 then show thesis by (rule by_command[OF events_command.command_axioms])
    next
      case 6 then show thesis by (rule by_command[OF list_command.command_axioms])
    next
      case 7 with load' out show thesis by (intro unknown[OF Cons]) auto
    qed
  qed
qed

lemma listed_slots:
  "length t = LP_MAX_PROBES \<Longrightarrow>
   concat (map (\<lambda>i. case slot_at i t of None \<Rightarrow> [] | Some d \<Rightarrow> if d_pid d = 0 then [] else g d) [0..<LP_MAX_PROBES]) =
   concat (map g (filter used_desc t))"
proof -
  assume len: "length t = LP_MAX_PROBES"
  have at: "slot_at i t = Some (t ! i)" if "i < LP_MAX_PROBES" for i
    using that by (auto simp: slot_at_def lp_probe_manager_at_def LP_MAX_PROBES_def sint_of_nat32)
  have "concat (map (\<lambda>d. if d_pid d = 0 then [] else g d) t) = concat (map g (filter used_desc t))"
    by (induction t) (auto simp: used_desc_def)
  moreover have "map (\<lambda>i. case slot_at i t of None \<Rightarrow> [] | Some d \<Rightarrow> if d_pid d = 0 then [] else g d) [0..<LP_MAX_PROBES] =
      map (\<lambda>i. if d_pid (t ! i) = 0 then [] else g (t ! i)) [0..<LP_MAX_PROBES]"
    by (intro map_cong) (simp_all add: at)
  moreover have "map (\<lambda>i. if d_pid (t ! i) = 0 then [] else g (t ! i)) [0..<LP_MAX_PROBES] =
      map (\<lambda>d. if d_pid d = 0 then [] else g d) t"
    by (rule nth_equalityI) (simp_all add: len)
  ultimately show ?thesis by simp
qed

section \<open>Properties\<close>


text \<open>
  The exit code is 0, 1 or 2, and 2 means that nothing was done: the arguments were refused
  before the command touched a probe, and apart from the loading of the state file the manager
  and the target are as before.
\<close>

theorem usage_error_does_nothing:
  assumes "lp_main K strerror prog args s = (r, s')"
  shows "r \<in> {0, 1, 2} \<and> (r = 2 \<longrightarrow> c_out s' = c_out s \<and>
    c_manager s' = (if args = [] then c_manager s else snd (lp_probe_manager_load K (c_manager s))))"
  using assms
proof (cases rule: main_cases)
  case (command cmd argv f s1)
  have "r = 2 \<Longrightarrow> c_manager s' = c_manager s1 \<and> c_out s' = c_out s1"
    using command.refused[OF command(2)] command(3) by blast
  then show ?thesis using command.exit_code[OF command(2,3)] command by auto
qed simp_all

text \<open>
  \<^verbatim>\<open>list\<close> prints one row for every probe of the table, in the order of the slots, and changes
  nothing.
\<close>

theorem list_shows_every_probe:
  assumes "length (g_probe_table (c_manager s)) = LP_MAX_PROBES"
  shows "lp_cmd_list [] s =
    (0, put_out (list_heading @ concat (map list_row (filter used_desc (g_probe_table (c_manager s))))) s)"
  using listed_slots[OF assms, of list_row] by (simp add: lp_cmd_list_def put_out_def)

end
