(* ===== verification/X86_Asm.thy ===== *)
theory X86_Asm
  imports Prelude
begin

text \<open>
  The reference that generated machine code is compared with: the x86-64 instructions the
  stubs consist of, their encodings (Intel SDM, volume 2), and an assembler that resolves
  symbolic labels. Nothing here translates a source file; the code generator of
  \<^verbatim>\<open>injector/trampoline_x86_64.c\<close> writes bytes and patches jump offsets by hand, and is
  proved to produce what this assembler produces.
\<close>

section \<open>Operands\<close>

datatype reg =
    RAX | RCX | RDX | RBX | RSP | RBP | RSI | RDI
  | R8 | R9 | R10 | R11 | R12 | R13 | R14 | R15

fun reg_code :: "reg \<Rightarrow> u8" where
  "reg_code RAX = 0" | "reg_code RCX = 1" | "reg_code RDX = 2" | "reg_code RBX = 3"
| "reg_code RSP = 4" | "reg_code RBP = 5" | "reg_code RSI = 6" | "reg_code RDI = 7"
| "reg_code R8 = 8" | "reg_code R9 = 9" | "reg_code R10 = 10" | "reg_code R11 = 11"
| "reg_code R12 = 12" | "reg_code R13 = 13" | "reg_code R14 = 14" | "reg_code R15 = 15"

definition lo3 :: "reg \<Rightarrow> u8" where "lo3 r = reg_code r AND 7"
definition hi1 :: "reg \<Rightarrow> bool" where "hi1 r \<longleftrightarrow> 8 \<le> reg_code r"

lemma lo3_simps [simp]:
  "lo3 RAX = 0" "lo3 RCX = 1" "lo3 RDX = 2" "lo3 RBX = 3" "lo3 RSP = 4" "lo3 RBP = 5"
  "lo3 RSI = 6" "lo3 RDI = 7" "lo3 R8 = 0" "lo3 R9 = 1" "lo3 R10 = 2" "lo3 R11 = 3"
  "lo3 R12 = 4" "lo3 R13 = 5" "lo3 R14 = 6" "lo3 R15 = 7"
  by (simp_all add: lo3_def)

lemma hi1_simps [simp]:
  "\<not> hi1 RAX" "\<not> hi1 RCX" "\<not> hi1 RDX" "\<not> hi1 RBX" "\<not> hi1 RSP" "\<not> hi1 RBP"
  "\<not> hi1 RSI" "\<not> hi1 RDI" "hi1 R8" "hi1 R9" "hi1 R10" "hi1 R11"
  "hi1 R12" "hi1 R13" "hi1 R14" "hi1 R15"
  by (simp_all add: hi1_def word_le_nat_alt)

datatype disp = NoDisp | Disp8 u8 | Disp32 u32

text \<open>A memory operand: base register, optional index register with its scale bits, displacement.\<close>

datatype mem = Mem (mem_base: reg) (mem_index: "(reg \<times> u8) option") (mem_disp: disp)

text \<open>
  The flag \<open>w\<close> of an instruction is its operand size: 64 bits when true, 32 bits when false.
\<close>

datatype instr =
    PUSHFQ | POPFQ | PUSH reg | POP reg
  | MOVABS reg u64
  | MOV_RI reg u32
  | MOV_RR bool reg reg
  | MOV_LD bool reg mem
  | MOV_ST bool mem reg
  | MOV_STI bool mem u32
  | ADD_RR reg reg
  | ADD_LD reg mem
  | SUB_RR reg reg
  | ADD_RI8 reg u8
  | SUB_RI8 reg u8
  | IMUL_RI reg u32
  | AND_EAXI u32
  | SHL_RI reg u8
  | XOR_SELF reg
  | LEA reg mem
  | CMP_MI8 mem u8
  | CMP_RI8 reg u8
  | CMP_RI64 reg u32
  | CMP_RR32 reg reg
  | CMP_LD32 reg mem
  | TEST_SELF bool reg
  | INC bool reg
  | DEC32 reg
  | LOCK_XADD mem reg
  | LOCK_CMPXCHG mem reg
  | XCHG mem reg
  | SYSCALL | RET | JMP_R reg | UD2

section \<open>Encoding\<close>

definition rex :: "bool \<Rightarrow> bool \<Rightarrow> bool \<Rightarrow> bool \<Rightarrow> u8 list" where
  "rex w r x b =
     (if w \<or> r \<or> x \<or> b
      then [0x40 + (if w then 8 else 0) + (if r then 4 else 0) + (if x then 2 else 0) +
            (if b then 1 else 0)]
      else [])"

definition modrm :: "u8 \<Rightarrow> u8 \<Rightarrow> u8 \<Rightarrow> u8" where
  "modrm md r rm = push_bit 6 md + push_bit 3 r + rm"

fun disp_mod :: "disp \<Rightarrow> u8" where
  "disp_mod NoDisp = 0" | "disp_mod (Disp8 _) = 1" | "disp_mod (Disp32 _) = 2"

fun disp_bytes :: "disp \<Rightarrow> u8 list" where
  "disp_bytes NoDisp = []" | "disp_bytes (Disp8 b) = [b]" | "disp_bytes (Disp32 d) = le32 d"

text \<open>ModRM, SIB and displacement of a memory operand; \<open>r\<close> is the register field.\<close>

fun mem_bytes :: "u8 \<Rightarrow> mem \<Rightarrow> u8 list" where
  "mem_bytes r (Mem base None d) =
     (if lo3 base = 4 then [modrm (disp_mod d) r 4, 0x20 + lo3 base]
      else [modrm (disp_mod d) r (lo3 base)]) @ disp_bytes d"
| "mem_bytes r (Mem base (Some (idx, scale)) d) =
     [modrm (disp_mod d) r 4, push_bit 6 scale + push_bit 3 (lo3 idx) + lo3 base] @ disp_bytes d"

fun mem_x :: "mem \<Rightarrow> bool" where
  "mem_x (Mem base None d) = False"
| "mem_x (Mem base (Some (idx, scale)) d) = hi1 idx"

text \<open>Opcode with a memory operand, and with a register operand.\<close>

definition op_mem :: "bool \<Rightarrow> u8 list \<Rightarrow> reg \<Rightarrow> mem \<Rightarrow> u8 list" where
  "op_mem w opc r m = rex w (hi1 r) (mem_x m) (hi1 (mem_base m)) @ opc @ mem_bytes (lo3 r) m"

definition op_mem_ext :: "bool \<Rightarrow> u8 list \<Rightarrow> u8 \<Rightarrow> mem \<Rightarrow> u8 list" where
  "op_mem_ext w opc ext m = rex w False (mem_x m) (hi1 (mem_base m)) @ opc @ mem_bytes ext m"

definition op_reg :: "bool \<Rightarrow> u8 list \<Rightarrow> reg \<Rightarrow> reg \<Rightarrow> u8 list" where
  "op_reg w opc r rm = rex w (hi1 r) False (hi1 rm) @ opc @ [modrm 3 (lo3 r) (lo3 rm)]"

definition op_reg_ext :: "bool \<Rightarrow> u8 list \<Rightarrow> u8 \<Rightarrow> reg \<Rightarrow> u8 list" where
  "op_reg_ext w opc ext rm = rex w False False (hi1 rm) @ opc @ [modrm 3 ext (lo3 rm)]"

fun encode :: "instr \<Rightarrow> u8 list" where
  "encode PUSHFQ = [0x9C]"
| "encode POPFQ = [0x9D]"
| "encode (PUSH r) = rex False False False (hi1 r) @ [0x50 + lo3 r]"
| "encode (POP r) = rex False False False (hi1 r) @ [0x58 + lo3 r]"
| "encode (MOVABS r v) = rex True False False (hi1 r) @ [0xB8 + lo3 r] @ le64 v"
| "encode (MOV_RI r v) = rex False False False (hi1 r) @ [0xB8 + lo3 r] @ le32 v"
| "encode (MOV_RR w d s) = op_reg w [0x89] s d"
| "encode (MOV_LD w r m) = op_mem w [0x8B] r m"
| "encode (MOV_ST w m r) = op_mem w [0x89] r m"
| "encode (MOV_STI w m v) = op_mem_ext w [0xC7] 0 m @ le32 v"
| "encode (ADD_RR d s) = op_reg True [0x01] s d"
| "encode (ADD_LD r m) = op_mem True [0x03] r m"
| "encode (SUB_RR d s) = op_reg True [0x29] s d"
| "encode (ADD_RI8 r v) = op_reg_ext True [0x83] 0 r @ [v]"
| "encode (SUB_RI8 r v) = op_reg_ext True [0x83] 5 r @ [v]"
| "encode (IMUL_RI r v) = op_reg True [0x69] r r @ le32 v"
| "encode (AND_EAXI v) = [0x25] @ le32 v"
| "encode (SHL_RI r v) = op_reg_ext True [0xC1] 4 r @ [v]"
| "encode (XOR_SELF r) = op_reg False [0x31] r r"
| "encode (LEA r m) = op_mem True [0x8D] r m"
| "encode (CMP_MI8 m v) = op_mem_ext False [0x83] 7 m @ [v]"
| "encode (CMP_RI8 r v) = op_reg_ext False [0x83] 7 r @ [v]"
| "encode (CMP_RI64 r v) = op_reg_ext True [0x81] 7 r @ le32 v"
| "encode (CMP_RR32 a b) = op_reg False [0x39] b a"
| "encode (CMP_LD32 r m) = op_mem False [0x3B] r m"
| "encode (TEST_SELF w r) = op_reg w [0x85] r r"
| "encode (INC w r) = op_reg_ext w [0xFF] 0 r"
| "encode (DEC32 r) = op_reg_ext False [0xFF] 1 r"
| "encode (LOCK_XADD m r) = [0xF0] @ op_mem True [0x0F, 0xC1] r m"
| "encode (LOCK_CMPXCHG m r) = [0xF0] @ op_mem False [0x0F, 0xB1] r m"
| "encode (XCHG m r) = op_mem True [0x87] r m"
| "encode SYSCALL = [0x0F, 0x05]"
| "encode RET = [0xC3]"
| "encode (JMP_R r) = op_reg_ext False [0xFF] 4 r"
| "encode UD2 = [0x0F, 0x0B]"

lemmas encode_simps = op_mem_def op_mem_ext_def op_reg_def op_reg_ext_def rex_def modrm_def

section \<open>The assembler\<close>

datatype cc = CC_E | CC_AE

datatype 'l asm = I instr | L 'l | J 'l | JCC cc 'l

fun cc_byte :: "cc \<Rightarrow> u8" where
  "cc_byte CC_E = 0x84" | "cc_byte CC_AE = 0x83"

fun asm_size :: "'l asm \<Rightarrow> nat" where
  "asm_size (I i) = length (encode i)"
| "asm_size (L _) = 0"
| "asm_size (J _) = 5"
| "asm_size (JCC _ _) = 6"

definition asm_length :: "'l asm list \<Rightarrow> nat" where
  "asm_length p = sum_list (map asm_size p)"

text \<open>The offset of a label in a program that starts at \<open>off\<close>.\<close>

fun label_pos :: "'l \<Rightarrow> nat \<Rightarrow> 'l asm list \<Rightarrow> nat option" where
  "label_pos l off [] = None"
| "label_pos l off (x # xs) = (if x = L l then Some off else label_pos l (off + asm_size x) xs)"

text \<open>The displacement from the end of a jump to its target, modulo \<open>2 ^ 32\<close>.\<close>

definition rel32 :: "nat \<Rightarrow> nat \<Rightarrow> u32" where
  "rel32 target next_ip = of_nat target - of_nat next_ip"

fun assemble_from :: "('l \<Rightarrow> nat option) \<Rightarrow> nat \<Rightarrow> 'l asm list \<Rightarrow> u8 list option" where
  "assemble_from env off [] = Some []"
| "assemble_from env off (I i # xs) =
     map_option ((@) (encode i)) (assemble_from env (off + length (encode i)) xs)"
| "assemble_from env off (L _ # xs) = assemble_from env off xs"
| "assemble_from env off (J l # xs) =
     (case env l of
        None \<Rightarrow> None
      | Some t \<Rightarrow> map_option ((@) (0xE9 # le32 (rel32 t (off + 5))))
                    (assemble_from env (off + 5) xs))"
| "assemble_from env off (JCC c l # xs) =
     (case env l of
        None \<Rightarrow> None
      | Some t \<Rightarrow> map_option ((@) (0x0F # cc_byte c # le32 (rel32 t (off + 6))))
                    (assemble_from env (off + 6) xs))"

definition assemble :: "'l asm list \<Rightarrow> u8 list option" where
  "assemble p = assemble_from (\<lambda>l. label_pos l 0 p) 0 p"

text \<open>Straight-line code, and programs that contain it.\<close>

definition code :: "instr list \<Rightarrow> u8 list" where
  "code is = concat (map encode is)"

lemma code_simps [simp]: "code [] = []" "code (i # is) = encode i @ code is"
  by (simp_all add: code_def)

lemma code_append: "code (is @ js) = code is @ code js"
  by (simp add: code_def)

lemma assemble_from_code:
  "assemble_from env off (map I is @ p) =
     map_option ((@) (code is)) (assemble_from env (off + length (code is)) p)"
proof (induction "is" arbitrary: off)
  case Nil
  show ?case by (simp add: option.map_id[unfolded id_def])
next
  case (Cons i "is")
  then show ?case by (simp add: option.map_comp comp_def add.assoc)
qed

lemma label_pos_code:
  "label_pos l off (map I is @ p) = label_pos l (off + length (code is)) p"
  by (induction "is" arbitrary: off) (simp_all add: add.assoc)

lemma rel32_shift: "rel32 (n + a) (n + b) = rel32 a b"
  by (simp add: rel32_def)

lemma length_assemble_from:
  "assemble_from env off p = Some bs \<Longrightarrow> length bs = asm_length p"
  by (induction env off p arbitrary: bs rule: assemble_from.induct)
     (auto simp: asm_length_def split: option.splits)

end
