(* ===== verification/Stub_Programs.thy ===== *)
theory Stub_Programs
  imports Stub_Builder X86_Asm
begin

text \<open>
  The three stubs as assembly programs with symbolic labels, and the theorems that the
  generators of \<^verbatim>\<open>trampoline_x86_64.c\<close> emit exactly their machine code: opcodes, operand
  encodings, displacements into \<^verbatim>\<open>struct probe_event\<close> and every hand-patched jump offset.
\<close>

datatype lbl = Restore | NoRet | Loop | TryClaim | Found | Next | Done | Fallback

section \<open>The programs\<close>

definition at :: "reg \<Rightarrow> mem" where "at r = Mem r None NoDisp"
definition at8 :: "reg \<Rightarrow> u8 \<Rightarrow> mem" where "at8 r d = Mem r None (Disp8 d)"

lemmas at_defs = at_def at8_def

text \<open>Jump to \<open>target\<close> with every register as it is.\<close>

definition abs_jmp :: "u64 \<Rightarrow> instr list" where
  "abs_jmp target = [PUSH R11, MOVABS R11 target, XCHG (at RSP) R11, RET]"

definition entry_head :: "u64 \<Rightarrow> instr list" where
  "entry_head config =
     [PUSHFQ, PUSH RAX, PUSH RBX, PUSH RCX, PUSH RDX, PUSH RSI, PUSH RDI, PUSH RBP, PUSH R8,
      PUSH R9, PUSH R10, PUSH R11, PUSH R12, PUSH R13, PUSH R14, PUSH R15, MOVABS R10 config]"

definition entry_restore :: "instr list" where
  "entry_restore =
     [POP R15, POP R14, POP R13, POP R12, POP R11, POP R10, POP R9, POP R8, POP RBP, POP RDI,
      POP RSI, POP RDX, POP RCX, POP RBX, POP RAX, POPFQ]"

text \<open>Slot \<open>write_index++ AND 0xFFF\<close> of the event buffer that \<open>b\<close> points to; \<open>r8\<close> becomes its address.\<close>

definition event_slot :: "reg \<Rightarrow> instr list" where
  "event_slot b =
     [MOV_LD True b (at8 R10 8), MOV_RI RAX 1, LOCK_XADD (at b) RAX,
      AND_EAXI 0xFFF, MOV_RR True R8 RAX, SHL_RI R8 6,
      MOV_RR True R9 RAX, SHL_RI R9 4, ADD_RR R8 R9,
      MOV_RR True R9 RAX, SHL_RI R9 3, ADD_RR R8 R9,
      LEA R8 (Mem b (Some (R8, 0)) (Disp8 0x10))]"

definition entry_ids :: "probe_desc \<Rightarrow> instr list" where
  "entry_ids desc =
     [MOV_STI False (at8 R8 8) (d_pid desc), MOV_STI False (at8 R8 16) (d_probe_id desc),
      MOV_STI False (at8 R8 20) 1]"

definition entry_args :: "instr list" where
  "entry_args =
     [MOV_LD True RAX (at8 RSP 72), MOV_ST True (at8 R8 24) RAX,
      MOV_LD True RAX (at8 RSP 80), MOV_ST True (at8 R8 32) RAX,
      MOV_LD True RAX (at8 RSP 88), MOV_ST True (at8 R8 40) RAX,
      MOV_LD True RAX (at8 RSP 96), MOV_ST True (at8 R8 48) RAX,
      MOV_LD True RAX (at8 RSP 56), MOV_ST True (at8 R8 56) RAX,
      MOV_LD True RAX (at8 RSP 48), MOV_ST True (at8 R8 64) RAX]"

text \<open>\<open>rax := tv_sec * 1000000000 + tv_nsec\<close> of clock 0 (\<^verbatim>\<open>CLOCK_REALTIME\<close>), by way of a \<^verbatim>\<open>timespec\<close> at \<open>rsp\<close>.\<close>

definition clock_time :: "instr list" where
  "clock_time =
     [MOV_RI RAX 228, XOR_SELF RDI, MOV_RR True RSI RSP, SYSCALL,
      MOV_LD True RAX (at RSP), IMUL_RI RAX 1000000000, ADD_LD RAX (at8 RSP 8)]"

definition entry_time :: "instr list" where
  "entry_time =
     [SUB_RI8 RSP 16, MOV_RI RAX 186, SYSCALL, MOV_ST False (at8 R8 12) RAX] @
     clock_time @ [MOV_ST True (at8 R8 0) RAX, ADD_RI8 RSP 16]"

definition entry_zero :: "instr list" where
  "entry_zero = [MOV_STI True (at8 R8 72) 0, MOV_STI True (at8 R8 80) 0]"

text \<open>\<open>r11\<close> becomes the address of slot \<open>rbx\<close> of the shadow stack at \<open>b\<close>.\<close>

definition slot_addr :: "reg \<Rightarrow> instr list" where
  "slot_addr b =
     [MOV_RR True R11 RBX, IMUL_RI R11 1032, LEA R11 (Mem b (Some (R11, 0)) NoDisp)]"

definition scan_init :: "u64 \<Rightarrow> instr list" where
  "scan_init shadow = [MOVABS R9 shadow, TEST_SELF True R9]"

definition scan_load :: "instr list" where
  "scan_load = slot_addr R9 @ [MOV_LD False RCX (at R11), TEST_SELF False RCX]"

definition scan_claim :: "instr list" where
  "scan_claim = [XOR_SELF RAX, MOV_LD False RDX (at8 R8 12), LOCK_CMPXCHG (at R11) RDX]"

definition push_check :: "instr list" where
  "push_check = [MOV_LD False RAX (at8 R8 12), MOV_LD False RCX (at8 R11 4), CMP_RI8 RCX 64]"

definition push_body :: "u64 \<Rightarrow> instr list" where
  "push_body ret_stub =
     [MOV_LD True RDX (Mem RSP None (Disp32 0x80)),
      MOV_ST True (Mem R11 (Some (RCX, 3)) (Disp8 8)) RDX,
      MOV_LD True RDX (at8 R8 0),
      MOV_ST True (Mem R11 (Some (RCX, 3)) (Disp32 0x208)) RDX,
      INC False RCX, MOV_ST False (at8 R11 4) RCX,
      MOVABS RDX ret_stub, MOV_ST True (Mem RSP None (Disp32 0x80)) RDX]"

definition loop_bound :: "instr list" where "loop_bound = [CMP_RI64 RBX 256]"

definition scan_cmp :: "instr list" where "scan_cmp = [CMP_LD32 RCX (at8 R8 12)]"

definition scan_race :: "instr list" where "scan_race = [CMP_LD32 RAX (at8 R8 12)]"

definition scan_clear :: "instr list" where "scan_clear = [XOR_SELF RBX]"

definition next_slot :: "instr list" where "next_slot = [INC True RBX]"

definition test_enabled :: "instr list" where "test_enabled = [CMP_MI8 (at R10) 0]"

definition trap :: "instr list" where "trap = [UD2]"

definition retprobe_prog :: "probe_desc \<Rightarrow> lbl asm list" where
  "retprobe_prog desc =
     map I (scan_init (d_shadow_stack_addr desc)) @ JCC CC_E NoRet #
     map I scan_clear @ L Loop #
     map I loop_bound @ JCC CC_AE NoRet #
     map I scan_load @ JCC CC_E TryClaim #
     map I scan_cmp @ JCC CC_E Found # J Next # L TryClaim #
     map I scan_claim @ JCC CC_E Found #
     map I scan_race @ JCC CC_E Found # J Next # L Found #
     map I push_check @ JCC CC_AE NoRet #
     map I (push_body (d_ret_stub_addr desc)) @ J Done # L Next #
     map I next_slot @ [J Loop, L NoRet, L Done]"

definition entry_prog :: "probe_desc \<Rightarrow> lbl asm list" where
  "entry_prog desc =
     map I (entry_head (d_config_addr desc) @ test_enabled) @ JCC CC_E Restore #
     map I (event_slot R11 @ entry_ids desc @ entry_args @ entry_time @ entry_zero) @
     (if d_has_retprobe desc = 0 then [] else retprobe_prog desc) @ L Restore #
     map I (entry_restore @ abs_jmp (d_trampoline_addr desc)) @ []"

definition ret_head :: "u64 \<Rightarrow> instr list" where
  "ret_head shadow =
     [PUSHFQ, PUSH RAX, PUSH RBX, PUSH RCX, PUSH RDX, PUSH RSI, PUSH RDI, PUSH R8, PUSH R9,
      PUSH R10, PUSH R11, PUSH R12, MOVABS R10 shadow]"

definition ret_restore :: "instr list" where
  "ret_restore =
     [POP R12, POP R11, POP R10, POP R9, POP R8, POP RDI, POP RSI, POP RDX, POP RCX, POP RBX,
      POP RAX, POPFQ]"

definition ret_tid :: "instr list" where
  "ret_tid = [MOV_RI RAX 186, SYSCALL, MOV_RR False R8 RAX, XOR_SELF RBX]"

definition ret_load :: "instr list" where
  "ret_load = slot_addr R10 @ [MOV_LD False RCX (at R11), CMP_RR32 RCX R8]"

definition pop_check :: "instr list" where
  "pop_check = [MOV_LD False RCX (at8 R11 4), TEST_SELF False RCX]"

definition pop_body :: "instr list" where
  "pop_body =
     [DEC32 RCX, MOV_ST False (at8 R11 4) RCX,
      MOV_LD True RDX (Mem R11 (Some (RCX, 3)) (Disp8 8)),
      MOV_ST True (at8 RSP 8) RDX, MOV_RR True RBX R11, MOV_RR True R12 RCX]"

definition ret_event :: "probe_desc \<Rightarrow> instr list" where
  "ret_event desc =
     [MOVABS R10 (d_config_addr desc)] @ event_slot R10 @
     [MOV_STI False (at8 R8 8) (d_pid desc),
      MOV_LD False RDX (at RBX), MOV_ST False (at8 R8 12) RDX,
      MOV_STI False (at8 R8 16) (d_probe_id desc), MOV_STI False (at8 R8 20) 2,
      MOV_STI True (at8 R8 24) 0, MOV_STI True (at8 R8 32) 0, MOV_STI True (at8 R8 40) 0,
      MOV_STI True (at8 R8 48) 0, MOV_STI True (at8 R8 56) 0, MOV_STI True (at8 R8 64) 0,
      MOV_LD True RDX (at8 RSP 0x50), MOV_ST True (at8 R8 72) RDX, SUB_RI8 RSP 16] @
     clock_time @
     [ADD_RI8 RSP 16, MOV_ST True (at8 R8 0) RAX,
      MOV_LD True RDX (Mem RBX (Some (R12, 3)) (Disp32 0x208)),
      SUB_RR RAX RDX, MOV_ST True (at8 R8 80) RAX]"

definition jmp_r11 :: "instr list" where "jmp_r11 = [JMP_R R11]"

definition ret_prog :: "probe_desc \<Rightarrow> lbl asm list" where
  "ret_prog desc =
     map I (ret_head (d_shadow_stack_addr desc) @ ret_tid) @ L Loop #
     map I loop_bound @ JCC CC_AE Fallback #
     map I ret_load @ JCC CC_E Found # J Next # L Found #
     map I pop_check @ JCC CC_E Fallback #
     map I (pop_body @ ret_event desc @ ret_restore @ jmp_r11) @ L Next #
     map I next_slot @ J Loop # L Fallback #
     map I trap @ []"

section \<open>Each emitted piece is the code of its instructions\<close>

lemma le32_at:
  "le32 0 = [0, 0, 0, 0]"
  "le32 1 = [1, 0, 0, 0]"
  "le32 2 = [2, 0, 0, 0]"
  "le32 128 = [128, 0, 0, 0]"
  "le32 186 = [186, 0, 0, 0]"
  "le32 228 = [228, 0, 0, 0]"
  "le32 256 = [0, 1, 0, 0]"
  "le32 520 = [8, 2, 0, 0]"
  "le32 1032 = [8, 4, 0, 0]"
  "le32 4095 = [255, 15, 0, 0]"
  "le32 1000000000 = [0, 202, 154, 59]"
  by code_simp+

lemma upt_0_6: "[0..<6] = [0, 1, 2, 3, 4, 5]"
  by (simp add: upt_rec)

lemmas piece_defs = jmp_r11_def loop_bound_def scan_cmp_def scan_race_def scan_clear_def
  next_slot_def test_enabled_def trap_def
  abs_jmp_def entry_head_def entry_restore_def event_slot_def entry_ids_def
  entry_args_def clock_time_def entry_time_def entry_zero_def slot_addr_def scan_init_def
  scan_load_def scan_claim_def push_check_def push_body_def ret_head_def ret_restore_def
  ret_tid_def ret_load_def pop_check_def pop_body_def ret_event_def at_defs

lemmas piece_simps = piece_defs encode_simps emit_simps event_offsets saved_arg_offsets_def
  upt_0_6 le32_at lp_sizes sizeof_lp_shadow_stack_entry_def PROBE_EVENT_ENTRY_def
  PROBE_EVENT_RETURN_def

named_theorems pieces \<open>an emitted piece is the code of its instructions\<close>

lemmas ins_defs = ins_entry_time_def ins_scan_init_def ins_scan_clear_def ins_scan_bound_def
  ins_scan_load_def ins_scan_cmp_def ins_scan_claim_def ins_scan_race_def ins_push_check_def
  ins_push_body_def ins_next_def ins_entry_head_def ins_cmp_enabled_def ins_event_slot_def
  ins_entry_ids_def ins_entry_args_def ins_entry_zero_def ins_entry_tail_def ins_ret_tid_def
  ins_ret_load_def ins_pop_check_def ins_pop_body_def ins_ret_head_def

lemma emit_pieces_a [pieces]:
  "emits (ins_scan_init desc) = emit_bytes (code (scan_init (d_shadow_stack_addr desc)) @ [0x0F, 0x84])"
  "emits ins_scan_clear = emit_bytes (code scan_clear)"
  "emits ins_scan_bound = emit_bytes (code loop_bound @ [0x0F, 0x83])"
  "emits ins_scan_load = emit_bytes (code scan_load @ [0x0F, 0x84])"
  "emits ins_scan_cmp = emit_bytes (code scan_cmp @ [0x0F, 0x84])"
  "emits ins_scan_claim = emit_bytes (code scan_claim @ [0x0F, 0x84])"
  "emits ins_scan_race = emit_bytes (code scan_race @ [0x0F, 0x84])"
  "emits ins_push_check = emit_bytes (code push_check @ [0x0F, 0x83])"
  "emits (ins_push_body desc) = emit_bytes (code (push_body (d_ret_stub_addr desc)) @ [0xE9])"
  "emits ins_next = emit_bytes (code next_slot @ [0xE9])"
  by (simp_all add: ins_defs piece_simps)

lemma emit_pieces_b [pieces]:
  "emits (ins_entry_head desc) = emit_bytes (code (entry_head (d_config_addr desc)))"
  "emits ins_cmp_enabled = emit_bytes (code test_enabled @ [0x0F, 0x84])"
  "emits ins_event_slot = emit_bytes (code (event_slot R11))"
  "emits (ins_entry_ids desc) = emit_bytes (code (entry_ids desc))"
  "emits ins_entry_args = emit_bytes (code entry_args)"
  "emits ins_entry_time = emit_bytes (code entry_time)"
  "emits ins_entry_zero = emit_bytes (code entry_zero)"
  "emits (ins_entry_tail desc) = emit_bytes (code (entry_restore @ abs_jmp (d_trampoline_addr desc)))"
  by (simp_all add: ins_defs piece_simps code_append)

lemma emit_pieces_c [pieces]:
  "emits (ins_ret_head desc) = emit_bytes (code (ret_head (d_shadow_stack_addr desc)))"
  "emits ins_ret_tid = emit_bytes (code ret_tid)"
  "emits ins_ret_load = emit_bytes (code ret_load @ [0x0F, 0x84])"
  "emits ins_pop_check = emit_bytes (code pop_check @ [0x0F, 0x84])"
  "emits (ins_pop_body desc) =
     emit_bytes (code (pop_body @ ret_event desc @ ret_restore @ jmp_r11))"
  by (simp_all add: ins_defs piece_simps code_append)

lemma emit_trap: "emit_bytes [0x0F, 0x0B] = emit_bytes (code trap)"
  by (simp add: piece_simps)

lemma emit_abs_jmp: "emit_abs_jmp_r11_preserve target = emit_bytes (code (abs_jmp target))"
  by (simp add: piece_simps)

lemma piece_lengths [simp]:
  "length (code (scan_init a)) = 13" "length (code scan_load) = 19"
  "length (code scan_claim) = 11" "length (code push_check) = 11"
  "length (code (push_body a)) = 49"
  "length (code (entry_head a)) = 34" "length (code (event_slot R11)) = 51"
  "length (code (entry_ids desc)) = 24" "length (code entry_args) = 54"
  "length (code entry_time) = 51" "length (code entry_zero) = 16"
  "length (code entry_restore) = 24" "length (code (abs_jmp a)) = 17"
  "length (code (ret_head a)) = 27" "length (code ret_tid) = 12" "length (code ret_load) = 20"
  "length (code pop_check) = 6" "length (code pop_body) = 22"
  "length (code (ret_event desc)) = 203" "length (code ret_restore) = 17"
  "length (code scan_clear) = 2" "length (code loop_bound) = 7" "length (code scan_cmp) = 4"
  "length (code scan_race) = 4" "length (code next_slot) = 3" "length (code test_enabled) = 4"
  "length (code trap) = 2" "length (code jmp_r11) = 3"
  by (simp_all add: piece_simps)

section \<open>Running the generators\<close>

lemma bindR_if: "bindR (if c then Inl e else r) f = (if c then Inl e else bindR r f)"
  by simp

lemma if_less_merge:
  "a \<le> b \<Longrightarrow> (if (c::nat) < a then x else if c < b then x else y) = (if c < b then x else y)"
  by auto

lemmas run_simps = emit_at pieces emits_u32_first emit_simps bindR_if bindR_simps if_less_merge

lemma retprobe_scan_at:
  "emit_retprobe_scan desc \<lparr>cw_buf = buf, cw_cap = cap\<rparr> =
     (if cap < length buf + 106 then Inl ENOSPC
      else Inr (\<lparr>cw_buf = buf @ code (scan_init (d_shadow_stack_addr desc)) @ [0x0F, 0x84] @ le32 0 @
          code scan_clear @ code loop_bound @ [0x0F, 0x83] @ le32 0 @
          code scan_load @ [0x0F, 0x84] @ le32 0 @
          code scan_cmp @ [0x0F, 0x84] @ le32 0 @ [0xE9] @ le32 0 @
          code scan_claim @ [0x0F, 0x84] @ le32 0 @
          code scan_race @ [0x0F, 0x84] @ le32 0 @ [0xE9] @ le32 0,
          cw_cap = cap\<rparr>,
        \<lparr>jz_no_ret_imm = length buf + 15, loop_start = length buf + 21,
         jae_loop_no_ret_imm = length buf + 30, jz_try_claim_imm = length buf + 55,
         jz_existing_found_imm = length buf + 65, jmp_next_existing_imm = length buf + 70,
         try_claim_label = length buf + 74, jz_found_imm = length buf + 87,
         jz_claim_race_found_imm = length buf + 97, jmp_next_claim_imm = length buf + 102\<rparr>))"
  unfolding emit_retprobe_scan_def
  by (simp add: run_simps del: emits.simps code_simps cong: bindR_cong let_weak_cong)

lemma retprobe_found_at:
  "emit_retprobe_found desc \<lparr>cw_buf = buf, cw_cap = cap\<rparr> =
     (if cap < length buf + 71 then Inl ENOSPC
      else Inr (\<lparr>cw_buf = buf @ code push_check @ [0x0F, 0x83] @ le32 0 @
                  code (push_body (d_ret_stub_addr desc)) @ [0xE9] @ le32 0, cw_cap = cap\<rparr>,
                length buf + 13, length buf + 67))"
  unfolding emit_retprobe_found_def
  by (simp add: run_simps del: emits.simps code_simps cong: bindR_cong let_weak_cong)

lemma ucast_of_int: "(ucast (word_of_int z :: u64) :: u32) = word_of_int z"
  by transfer simp

lemma rel32_to_eq: "rel32_to target imm = rel32 target (imm + 4)"
proof -
  have "(of_nat target :: u64) - of_nat (imm + 4) = word_of_int (int target - int (imm + 4))"
    by simp
  then have "rel32_to target imm = ucast (word_of_int (int target - int (imm + 4)) :: u64)"
    unfolding rel32_to_def by (rule arg_cong)
  then show ?thesis unfolding ucast_of_int by (simp add: rel32_def)
qed

lemma rel32_shift_simps:
  "rel32 (n + a) (n + b) = rel32 a b" "rel32 (n + a) (b + n) = rel32 a b" 
  "rel32 (a + n) (n + b) = rel32 a b" "rel32 (a + n) (b + n) = rel32 a b" 
  by (simp_all add: rel32_def)

definition put :: "nat \<Rightarrow> 'a list \<Rightarrow> 'a list \<Rightarrow> 'a list" where
  "put n v xs = take n xs @ v @ drop (n + length v) xs"

lemma patch_rel32_put:
  "patch_rel32 off v \<lparr>cw_buf = buf, cw_cap = cap\<rparr> =
     \<lparr>cw_buf = put off (le32 v) buf, cw_cap = cap\<rparr>"
  by (simp add: patch_rel32_def put_def)

lemma put_simps:
  "put (length xs + n) v (xs @ ys) = xs @ put n v ys"
  "put (n + length xs) v (xs @ ys) = xs @ put n v ys"
  "length c \<le> n \<Longrightarrow> put n v (c @ ys) = c @ put (n - length c) v ys"
  "0 < n \<Longrightarrow> put n v (x # ys) = x # put (n - 1) v ys"
  "put 0 (le32 u) (le32 w @ ys) = le32 u @ ys"
  "put 0 (le32 u) (le32 w) = le32 u"
  by (simp_all add: put_def take_Cons' drop_Cons')

text \<open>The push as bytes, its jump displacements resolved.\<close>

definition retprobe_code :: "probe_desc \<Rightarrow> u8 list" where
  "retprobe_code desc =
     code (scan_init (d_shadow_stack_addr desc)) @ [0x0F, 0x84] @ le32 (rel32 185 19) @
     code scan_clear @ code loop_bound @ [0x0F, 0x83] @ le32 (rel32 185 34) @
     code scan_load @ [0x0F, 0x84] @ le32 (rel32 74 59) @
     code scan_cmp @ [0x0F, 0x84] @ le32 (rel32 106 69) @ [0xE9] @ le32 (rel32 177 74) @
     code scan_claim @ [0x0F, 0x84] @ le32 (rel32 106 91) @
     code scan_race @ [0x0F, 0x84] @ le32 (rel32 106 101) @ [0xE9] @ le32 (rel32 177 106) @
     code push_check @ [0x0F, 0x83] @ le32 (rel32 185 123) @
     code (push_body (d_ret_stub_addr desc)) @ [0xE9] @ le32 (rel32 185 177) @
     code next_slot @ [0xE9] @ le32 (rel32 21 185)"

lemma length_retprobe_code [simp]: "length (retprobe_code desc) = 185"
  by (simp add: retprobe_code_def)

lemma retprobe_push_at:
  assumes "d_has_retprobe desc \<noteq> 0" and "ts \<noteq> 0"
  shows "emit_entry_retprobe_push desc ts \<lparr>cw_buf = buf, cw_cap = cap\<rparr> =
     (if cap < length buf + 185 then Inl ENOSPC
      else Inr \<lparr>cw_buf = buf @ retprobe_code desc, cw_cap = cap\<rparr>)"
proof (cases "cap < length buf + 185")
  case True
  then show ?thesis
    using assms unfolding emit_entry_retprobe_push_def Let_def
    by (simp add: run_simps retprobe_scan_at retprobe_found_at
             del: emits.simps code_simps cong: bindR_cong)
next
  case False
  then show ?thesis
    using assms unfolding emit_entry_retprobe_push_def Let_def
    by (simp add: run_simps rel32_to_eq rel32_shift_simps retprobe_scan_at retprobe_found_at
             del: emits.simps code_simps cong: bindR_cong)
       (simp add: patch_rel32_put put_simps retprobe_code_def del: code_simps)
qed

lemma retprobe_push_none:
  "d_has_retprobe desc = 0 \<Longrightarrow> emit_entry_retprobe_push desc ts w = Inr w"
  by (simp add: emit_entry_retprobe_push_def)

definition entry_code :: "probe_desc \<Rightarrow> u8 list" where
  "entry_code desc =
     (let push = (if d_has_retprobe desc = 0 then [] else retprobe_code desc) in
      code (entry_head (d_config_addr desc)) @ code test_enabled @
      [0x0F, 0x84] @ le32 (rel32 (240 + length push) 44) @
      code (event_slot R11) @ code (entry_ids desc) @ code entry_args @ code entry_time @
      code entry_zero @ push @ code (entry_restore @ abs_jmp (d_trampoline_addr desc)))"

lemma length_tail [simp]: "length (code (entry_restore @ abs_jmp a)) = 41"
  by (simp add: code_append)

lemma length_entry_code:
  "length (entry_code desc) = (if d_has_retprobe desc = 0 then 281 else 466)"
  by (simp add: entry_code_def del: code_simps)

lemma entry_stub_bytes:
  "lp_x86_64_build_entry_stub desc cap =
     (if cap < length (entry_code desc) then Inl ENOSPC else Inr (entry_code desc))"
proof (cases "d_has_retprobe desc = 0")
  case True
  then show ?thesis
    unfolding lp_x86_64_build_entry_stub_def emit_entry_timestamp_and_tid_def cw_new_def Let_def
    by (simp add: run_simps rel32_to_eq retprobe_push_none length_entry_code
             del: emits.simps code_simps cong: bindR_cong)
       (simp add: patch_rel32_put put_simps emit_at bindR_if bindR_simps entry_code_def
             del: code_simps)
next
  case False
  then show ?thesis
    unfolding lp_x86_64_build_entry_stub_def emit_entry_timestamp_and_tid_def cw_new_def Let_def
    by (simp add: run_simps rel32_to_eq retprobe_push_at length_entry_code
             del: emits.simps code_simps cong: bindR_cong)
       (simp add: patch_rel32_put put_simps emit_at bindR_if bindR_simps entry_code_def
             del: code_simps)
qed

definition ret_code :: "probe_desc \<Rightarrow> u8 list" where
  "ret_code desc =
     code (ret_head (d_shadow_stack_addr desc)) @ code ret_tid @
     code loop_bound @ [0x0F, 0x83] @ le32 (rel32 348 52) @
     code ret_load @ [0x0F, 0x84] @ le32 (rel32 83 78) @ [0xE9] @ le32 (rel32 340 83) @
     code pop_check @ [0x0F, 0x84] @ le32 (rel32 348 95) @
     code (pop_body @ ret_event desc @ ret_restore @ jmp_r11) @
     code next_slot @ [0xE9] @ le32 (rel32 39 348) @ code trap"

lemma length_pop [simp]:
  "length (code (pop_body @ ret_event desc @ ret_restore @ jmp_r11)) = 245"
  by (simp add: code_append op_reg_ext_def rex_def)

lemma length_ret_code: "length (ret_code desc) = 350"
  by (simp add: ret_code_def del: code_simps)

lemma ret_stub_einval:
  "d_shadow_stack_addr desc = 0 \<Longrightarrow> lp_x86_64_build_ret_stub desc cap = Inl EINVAL"
  by (simp add: lp_x86_64_build_ret_stub_def)

lemma ret_stub_bytes:
  assumes "d_shadow_stack_addr desc \<noteq> 0"
  shows "lp_x86_64_build_ret_stub desc cap =
     (if cap < length (ret_code desc) then Inl ENOSPC else Inr (ret_code desc))"
  using assms
  unfolding lp_x86_64_build_ret_stub_def emit_ret_scan_def emit_ret_found_def cw_new_def Let_def
  by (simp add: run_simps rel32_to_eq length_ret_code emit_trap
           del: emits.simps code_simps cong: bindR_cong)
     (simp add: patch_rel32_put put_simps emit_at bindR_if bindR_simps ret_code_def del: code_simps)

section \<open>Assembling the programs\<close>

lemma assemble_last:
  "assemble_from env off (map I is) = Some (code is)" "label_pos l off (map I is) = None"
  using assemble_from_code[of env off "is" "[]"] label_pos_code[of l off "is" "[]"] by simp_all

lemmas assemble_simps = assemble_from_code label_pos_code assemble_last code_append

lemma assemble_entry: "assemble (entry_prog desc) = Some (entry_code desc)"
proof (cases "d_has_retprobe desc = 0")
  case True
  then show ?thesis
    by (simp add: assemble_def entry_prog_def entry_code_def assemble_simps del: code_simps list.map)
next
  case False
  then show ?thesis
    by (simp add: assemble_def entry_prog_def retprobe_prog_def entry_code_def retprobe_code_def
          assemble_simps rel32_def del: code_simps list.map)
qed

lemma assemble_ret: "assemble (ret_prog desc) = Some (ret_code desc)"
  by (simp add: assemble_def ret_prog_def ret_code_def assemble_simps del: code_simps list.map)

section \<open>The generators emit the assembled programs\<close>

text \<open>
  C1: for every descriptor and buffer size, \<open>lp_x86_64_build_entry_stub\<close> emits exactly the machine
  code of the assembly program \<open>entry_prog\<close> (registers saved, enabled check, event slot claimed,
  event filled, shadow-stack push when the probe has a return probe, registers restored, jump to
  the trampoline), every hand-patched jump going to its label; it fails with \<open>ENOSPC\<close> exactly when
  the code does not fit the buffer, and the code always fits the stub area of the runtime.
\<close>

theorem entry_stub_assembled:
  "\<exists>bs. assemble (entry_prog desc) = Some bs \<and> length bs \<le> LP_REMOTE_STUB_SIZE \<and>
        lp_x86_64_build_entry_stub desc cap = (if cap < length bs then Inl ENOSPC else Inr bs)"
  by (cases "d_has_retprobe desc = 0")
     (simp_all add: assemble_entry entry_stub_bytes length_entry_code LP_REMOTE_STUB_SIZE_def)

text \<open>
  C2: \<open>lp_x86_64_build_ret_stub\<close> refuses a probe without a shadow stack and otherwise emits exactly
  the machine code of \<open>ret_prog\<close> (find the thread's slot, pop the return address and the entry
  time, emit the return event, return to the caller), with \<open>ENOSPC\<close> exactly when it does not fit;
  it always fits the stub area.
\<close>

theorem ret_stub_assembled:
  "\<exists>bs. assemble (ret_prog desc) = Some bs \<and> length bs \<le> LP_REMOTE_STUB_SIZE \<and>
        lp_x86_64_build_ret_stub desc cap =
          (if d_shadow_stack_addr desc = 0 then Inl EINVAL
           else if cap < length bs then Inl ENOSPC else Inr bs)"
  by (cases "d_shadow_stack_addr desc = 0")
     (simp_all add: assemble_ret ret_stub_bytes ret_stub_einval length_ret_code
        LP_REMOTE_STUB_SIZE_def)

text \<open>
  C6: \<open>lp_x86_64_build_trampoline\<close> refuses a length outside 1 to 32 and otherwise emits the
  displaced instructions followed by the machine code of a jump to the resume address that keeps
  every register; the whole fits the trampoline area.
\<close>

theorem trampoline_assembled:
  "let n = sint (d_original_len desc);
       bs = take (nat n) (d_original_code desc) @ code (abs_jmp resume)
   in length bs \<le> nat n + 17 \<and> LP_MAX_ORIGINAL_CODE + 17 \<le> LP_TRAMPOLINE_SIZE \<and>
      lp_x86_64_build_trampoline desc resume cap =
        (if n \<le> 0 \<or> 32 < n then Inl EINVAL
         else if cap < length bs then Inl ENOSPC else Inr bs)"
  by (auto simp add: Let_def lp_x86_64_build_trampoline_def cw_new_def emit_abs_jmp emit_at
        lp_sizes)

end
