(* ===== verification/Probe_Effects.thy ===== *)
theory Probe_Effects
  imports Probe_Manager Stub_Programs
begin

text \<open>
  What the operations of the probe manager do to the target: the contents of the runtime that an
  attach installs, the code and the memory after an attach and a detach, and the flag that enable
  and disable write.
\<close>

section \<open>Several writes\<close>

definition write_list :: "(u64 \<times> u8 list) list \<Rightarrow> memory \<Rightarrow> memory" where
  "write_list ws m = foldl (\<lambda>m (a, bs). mem_write m a bs) m ws"

lemma write_list_simps [simp]:
  "write_list [] m = m"
  "write_list ((a, bs) # ws) m = write_list ws (mem_write m a bs)"
  by (simp_all add: write_list_def)

definition span :: "u64 \<times> u8 list \<Rightarrow> u64 set" where
  "span w = range64 (fst w) (length (snd w))"

lemma write_list_outside:
  "\<forall>w \<in> set ws. length (snd w) \<le> 2 ^ 64 \<Longrightarrow> x \<notin> \<Union> (span ` set ws) \<Longrightarrow> write_list ws m x = m x"
  by (induction ws arbitrary: m) (auto simp: span_def mem_write_outside)

text \<open>What is written to disjoint ranges is all there afterwards.\<close>

lemma read_write_list:
  assumes "sorted_wrt (\<lambda>v w. span v \<inter> span w = {}) ws" and "(a, bs) \<in> set ws"
    and "\<forall>w \<in> set ws. length (snd w) \<le> 2 ^ 64"
  shows "mem_read (write_list ws m) a (length bs) = bs"
  using assms
proof (induction ws arbitrary: m)
  case (Cons w ws)
  obtain b cs where w: "w = (b, cs)" by fastforce
  show ?case
  proof (cases "(a, bs) \<in> set ws")
    case True
    then show ?thesis using Cons w by simp
  next
    case False
    then have eq: "b = a" "cs = bs" using Cons.prems(2) w by auto
    have "mem_read (write_list ws (mem_write m a bs)) a (length bs) =
        mem_read (mem_write m a bs) a (length bs)"
    proof (rule mem_read_cong)
      fix x assume "x \<in> range64 a (length bs)"
      then have "x \<notin> \<Union> (span ` set ws)" using Cons.prems(1) w eq by (auto simp: span_def)
      then show "write_list ws (mem_write m a bs) x = mem_write m a bs x"
        using Cons.prems(3) by (intro write_list_outside) auto
    qed
    with Cons.prems(3) w eq show ?thesis by (simp add: mem_read_write_same)
  qed
qed simp

text \<open>A write at the beginning of a range replaces as much of it.\<close>

lemma mem_read_write_prefix:
  assumes "length bs \<le> n" and "n \<le> 2 ^ 64"
  shows "mem_read (mem_write m a bs) a n = bs @ drop (length bs) (mem_read m a n)"
proof -
  have "range64 (a + of_nat (length bs)) (n - length bs) \<inter> range64 a (length bs) = {}"
    using range64_offsets_disjoint[of 0 "length bs" "length bs" "n - length bs" a] assms
    by (simp add: Int_commute)
  then have "mem_read (mem_write m a bs) (a + of_nat (length bs)) (n - length bs) =
      mem_read m (a + of_nat (length bs)) (n - length bs)"
    using assms by (intro mem_read_write_disjoint) auto
  then show ?thesis
    using mem_read_append[of "mem_write m a bs" a "length bs" "n - length bs"] assms
    by (simp add: mem_read_write_same drop_mem_read)
qed

section \<open>The runtime\<close>

text \<open>The six areas with their contents.\<close>

definition runtime_image :: "probe_desc \<Rightarrow> u8 list \<Rightarrow> u8 list \<Rightarrow> u8 list \<Rightarrow> (u64 \<times> u8 list) list" where
  "runtime_image d trampoline entry_stub ret_stub =
     [(d_config_addr d, enc_config (lp_runtime_config_init d)),
      (d_event_buffer_addr d, enc_event_buffer lp_event_buffer_init),
      (d_shadow_stack_addr d, enc_shadow_stack lp_shadow_stack_init),
      (d_trampoline_addr d, trampoline),
      (d_entry_stub_addr d, entry_stub),
      (d_ret_stub_addr d, ret_stub)]"

definition built_stubs :: "probe_desc \<Rightarrow> u8 list \<Rightarrow> u8 list \<Rightarrow> u8 list \<Rightarrow> bool" where
  "built_stubs d trampoline entry_stub ret_stub \<longleftrightarrow>
     lp_x86_64_build_trampoline d (d_target_addr d + word_of_int (sint (d_original_len d)))
       LP_TRAMPOLINE_SIZE = Inr trampoline \<and>
     lp_x86_64_build_entry_stub d LP_REMOTE_STUB_SIZE = Inr entry_stub \<and>
     lp_x86_64_build_ret_stub d LP_REMOTE_STUB_SIZE = Inr ret_stub"

lemma length_init_images:
  "length (enc_config c) = sizeof_lp_runtime_config"
  "length (enc_event_buffer lp_event_buffer_init) = sizeof_lp_event_buffer"
  "length (enc_shadow_stack lp_shadow_stack_init) = sizeof_lp_shadow_stack"
proof -
  have "wf_event_buffer lp_event_buffer_init"
    by (simp add: wf_event_buffer_def lp_event_buffer_init_def wf_event_def zero_event_def)
  then show "length (enc_event_buffer lp_event_buffer_init) = sizeof_lp_event_buffer"
    by (rule length_enc_event_buffer)
qed (simp_all add: config_codec.length_enc enc_shadow_stack_init)

lemma built_stubs_lengths:
  assumes "built_stubs d trampoline entry_stub ret_stub"
  shows "length trampoline \<le> LP_TRAMPOLINE_SIZE \<and> length entry_stub \<le> LP_REMOTE_STUB_SIZE \<and>
    length ret_stub \<le> LP_REMOTE_STUB_SIZE"
proof -
  obtain jump where "length jump = 17"
    "trampoline = take (nat (sint (d_original_len d))) (d_original_code d) @ jump"
    using trampoline_bytes assms unfolding built_stubs_def by blast
  moreover have "nat (sint (d_original_len d)) \<le> LP_MAX_ORIGINAL_CODE"
    using assms by (auto simp: built_stubs_def lp_x86_64_build_trampoline_def Let_def split: if_splits)
  moreover have "entry_stub = entry_code d" "length (entry_code d) \<le> LP_REMOTE_STUB_SIZE"
    using assms entry_stub_bytes[of d LP_REMOTE_STUB_SIZE] by (auto simp: built_stubs_def split: if_splits)
  moreover have "length ret_stub \<le> LP_REMOTE_STUB_SIZE"
    using assms ret_stub_bytes[of d LP_REMOTE_STUB_SIZE] ret_stub_einval[of d LP_REMOTE_STUB_SIZE]
    by (cases "d_shadow_stack_addr d = 0") (auto simp: built_stubs_def split: if_splits)
  ultimately show ?thesis by (auto simp: lp_sizes)
qed

text \<open>Writes within areas: when the areas are disjoint, so are the writes.\<close>

lemma spans_within:
  assumes "list_all2 (\<lambda>w (a, n). fst w = a \<and> length (snd w) \<le> n) ws areas"
  shows "\<Union> (span ` set ws) \<subseteq> \<Union> ((\<lambda>(a, n). range64 a n) ` set areas)" (is "?U ws areas")
    and "sorted_wrt (\<lambda>(a, n) (b, m). range64 a n \<inter> range64 b m = {}) areas \<Longrightarrow>
         sorted_wrt (\<lambda>v w. span v \<inter> span w = {}) ws"
proof -
  have within: "?U vs as" if "list_all2 (\<lambda>w (a, n). fst w = a \<and> length (snd w) \<le> n) vs as" for vs as
    using that
  proof (induction rule: list_all2_induct)
    case (Cons w ws area areas)
    then have "span w \<subseteq> range64 (fst area) (snd area)"
      using range64_sub[of 0 "length (snd w)" "snd area" "fst w"]
      by (cases area) (auto simp: span_def)
    with Cons show ?case by (cases area) auto
  qed simp
  from within[OF assms] show "?U ws areas" .
  show "sorted_wrt (\<lambda>v w. span v \<inter> span w = {}) ws"
    if "sorted_wrt (\<lambda>(a, n) (b, m). range64 a n \<inter> range64 b m = {}) areas"
    using assms that
  proof (induction rule: list_all2_induct)
    case (Cons w ws area areas)
    have "span w \<subseteq> range64 (fst area) (snd area)"
      using Cons.hyps(1) range64_sub[of 0 "length (snd w)" "snd area" "fst w"]
      by (cases area) (auto simp: span_def)
    moreover have "range64 (fst area) (snd area) \<inter> \<Union> ((\<lambda>(a, n). range64 a n) ` set areas) = {}"
      using Cons.prems by (cases area) fastforce
    ultimately have "span w \<inter> \<Union> (span ` set ws) = {}"
      using within[OF Cons.hyps(2)] by blast
    with Cons show ?case by (cases area) auto
  qed simp
qed

text \<open>The areas of a descriptor whose addresses come from a layout.\<close>

lemma runtime_image_spans:
  assumes "lp_remote_runtime_layout_init (Some l0) base = Inr l"
    and "built_stubs (lp_probe_desc_set_runtime_layout d l) trampoline entry_stub ret_stub"
  defines "ws \<equiv> runtime_image (lp_probe_desc_set_runtime_layout d l) trampoline entry_stub ret_stub"
  shows "sorted_wrt (\<lambda>v w. span v \<inter> span w = {}) ws" and "\<Union> (span ` set ws) \<subseteq> range64 base 633008"
    and "\<forall>w \<in> set ws. length (snd w) \<le> 2 ^ 60"
proof -
  have len: "length trampoline \<le> LP_TRAMPOLINE_SIZE" "length entry_stub \<le> LP_REMOTE_STUB_SIZE"
    "length ret_stub \<le> LP_REMOTE_STUB_SIZE"
    using built_stubs_lengths[OF assms(2)] by auto
  then have in_areas: "list_all2 (\<lambda>w (a, n). fst w = a \<and> length (snd w) \<le> n) ws (layout_areas l)"
    by (simp add: ws_def runtime_image_def layout_areas_def lp_probe_desc_set_runtime_layout_def
          length_init_images)
  from layout_areas_ok[of l0 base] assms(1) have
    areas: "sorted_wrt (\<lambda>(a, n) (b, m). range64 a n \<inter> range64 b m = {}) (layout_areas l)"
    "list_all (\<lambda>(a, n). range64 a n \<subseteq> range64 base (unat (l_size l))) (layout_areas l)" by auto
  show "sorted_wrt (\<lambda>v w. span v \<inter> span w = {}) ws"
    using spans_within(2)[OF in_areas areas(1)] .
  have "unat (l_size l) = 633008" using assms(1) by (auto simp: layout_init_eq)
  then show "\<Union> (span ` set ws) \<subseteq> range64 base 633008"
    using spans_within(1)[OF in_areas] areas(2) by (fastforce simp: list_all_iff)
  show "\<forall>w \<in> set ws. length (snd w) \<le> 2 ^ 60"
    using len by (auto simp: ws_def runtime_image_def length_init_images lp_sizes
        sizeof_lp_runtime_config_def sizeof_lp_event_buffer_def sizeof_lp_shadow_stack_def)
qed

section \<open>Steps of an attach\<close>

text \<open>The descriptor that an attach returns is for the process asked for.\<close>

lemma attach_pid:
  assumes "lp_probe_attach K spec s = (Inr d, s')"
  shows "d_pid d = sp_pid spec"
proof -
  from assms obtain i s0 where alloc: "lp_probe_manager_alloc spec s = (Inr i, s0)"
    and run: "attach_slot K spec i s0 = (Inr d, s')"
    by (auto simp: lp_probe_attach_def bindE_eq split: if_splits)
  let ?t = "g_probe_table s" and ?d0 = "new_desc i spec"
  have i: "i < length ?t" and t0: "g_probe_table s0 = ?t[i := ?d0]"
    using alloc first_slot_nth[of _ "take LP_MAX_PROBES ?t" i]
    by (auto simp: lp_probe_manager_alloc_def split: option.splits)
  have "wf_desc ?d0"
    by (simp add: wf_desc_def new_desc_def zero_desc_def length_name_field lp_sizes)
  then have "slot_state i ?t ?d0 s0" using t0 by (auto simp: slot_state_def)
  from attach_slot_table[OF this i run] have "like ?d0 d" by simp
  then show ?thesis by (simp add: like_def desc_core_def new_desc_def)
qed

context kernel_exec
begin

lemma remote_write_ok:
  "length bs \<le> 2 ^ 60 \<Longrightarrow> lp_remote_write K p a (Some bs) w = (Inr u, w') \<Longrightarrow>
   mem w' p = mem_write (mem w p) a bs \<and> regs w' p = regs w p"
  using rm.rwrite_ok keepsD[OF remote_write_regs] by (fastforce simp: lp_remote_write_def)

lemma write_runtime_ok:
  assumes "write_runtime K p d tr es rs w = (Inr u, w')"
    and "\<forall>v \<in> set (runtime_image d tr es rs). length (snd v) \<le> 2 ^ 60"
  shows "mem w' p = write_list (runtime_image d tr es rs) (mem w p) \<and> regs w' p = regs w p"
proof -
  from assms(1) obtain w1 w2 w3 w4 w5 u1 u2 u3 u4 u5 where w:
    "lp_remote_write K p (d_config_addr d) (Some (enc_config (lp_runtime_config_init d))) w = (Inr u1, w1)"
    "lp_remote_write K p (d_event_buffer_addr d) (Some (enc_event_buffer lp_event_buffer_init)) w1 = (Inr u2, w2)"
    "lp_remote_write K p (d_shadow_stack_addr d) (Some (enc_shadow_stack lp_shadow_stack_init)) w2 = (Inr u3, w3)"
    "lp_remote_write K p (d_trampoline_addr d) (Some tr) w3 = (Inr u4, w4)"
    "lp_remote_write K p (d_entry_stub_addr d) (Some es) w4 = (Inr u5, w5)"
    "lp_remote_write K p (d_ret_stub_addr d) (Some rs) w5 = (Inr u, w')"
    unfolding write_runtime_def bindE_eq by blast
  show ?thesis
    using remote_write_ok[OF _ w(1)] remote_write_ok[OF _ w(2)] remote_write_ok[OF _ w(3)]
      remote_write_ok[OF _ w(4)] remote_write_ok[OF _ w(5)] remote_write_ok[OF _ w(6)]
      assms(2)[unfolded runtime_image_def]
    by (simp add: runtime_image_def)
qed

text \<open>
  Mapping and filling the runtime: the slot gets the addresses of a layout; what is not in the
  runtime, and not the target's own to write, stays.
\<close>

lemma install_ok:
  assumes "lp_install_remote_runtime K p i s = (Inr u, s')" and "i < length (g_probe_table s)"
    and "range64 (r_rsp (regs (m_world s) p) - 8) 8 \<subseteq> stack"
  defines "d \<equiv> g_probe_table s ! i" and "d' \<equiv> g_probe_table s' ! i"
  shows "\<exists>base l tr es rs. lp_remote_runtime_layout_init (Some any_layout) base = Inr l \<and>
      d' = lp_probe_desc_set_runtime_layout d l \<and> length (g_probe_table s') = length (g_probe_table s) \<and>
      built_stubs d' tr es rs \<and>
      (\<forall>v \<in> set (runtime_image d' tr es rs).
         mem_read (mem (m_world s') p) (fst v) (length (snd v)) = snd v) \<and>
      (\<forall>x. x \<notin> dirty \<union> stack \<union> range64 base 633008 \<longrightarrow> mem (m_world s') p x = mem (m_world s) p x)"
proof -
  from assms(1) obtain n base l tr es rs w1 where
    map: "lp_remote_mmap K p n PROT_RWX OUT (m_world s) = (Inr base, w1)"
    and l: "lp_remote_runtime_layout_init (Some any_layout) base = Inr l"
    and stubs: "built_stubs (lp_probe_desc_set_runtime_layout d l) tr es rs"
    and run: "write_runtime K p (lp_probe_desc_set_runtime_layout d l) tr es rs w1 = (Inr (), m_world s')"
    and t': "g_probe_table s' = (g_probe_table s)[i := lp_probe_desc_set_runtime_layout d l]"
    by (auto simp: lp_install_remote_runtime_def bindE_eq liftE_def in_world_eq get_slot_def
        put_slot_def Let_def built_stubs_def d_def)
  let ?d = "lp_probe_desc_set_runtime_layout d l"
  let ?ws = "runtime_image ?d tr es rs"
  have d': "d' = ?d" using t' assms(2) by (simp add: d'_def)
  note spans = runtime_image_spans[OF l stubs]
  have m': "mem (m_world s') p = write_list ?ws (mem w1 p)"
    using write_runtime_ok[OF run spans(3)] by simp
  have m1: "mem w1 p x = mem (m_world s) p x" if "x \<notin> dirty \<union> stack" for x
    using remote_mapping_ok[OF disjI1[OF map[unfolded lp_remote_mmap_def]] refl] assms(3) that by auto
  have small: "\<forall>v \<in> set ?ws. length (snd v) \<le> 2 ^ 64"
    using spans(3) by fastforce
  have "mem_read (mem (m_world s') p) (fst v) (length (snd v)) = snd v" if "v \<in> set ?ws" for v
    unfolding m' using that by (intro read_write_list spans small) simp
  moreover have "mem (m_world s') p x = mem (m_world s) p x"
    if "x \<notin> dirty \<union> stack \<union> range64 base 633008" for x
  proof -
    have "x \<notin> \<Union> (span ` set ?ws)" using spans(2) that by blast
    then show ?thesis using write_list_outside[OF small] m1 that by (simp add: m')
  qed
  ultimately show ?thesis
    using l stubs d' t'
    by (intro exI[of _ base] exI[of _ l] exI[of _ tr] exI[of _ es] exI[of _ rs]) simp
qed

text \<open>Stopping and resuming the threads.\<close>

lemma frame_threads:
  assumes "dirty \<subseteq> S"
  shows "preserves (frame S m p) (stop_all_threads K q)"
    and "preserves (frame S m p) (resume_all_threads K q)"
proof -
  have attach: "preserves (frame S m p) (ptrace_attach K t)"
    and detach: "preserves (frame S m p) (ptrace_detach K t)"
    and wait: "preserves (frame S m p) (waitpid_wall K t)" for t
    using assms by (auto intro!: frame_preserved dest: attach_frame detach_frame wait_frame)
  have opendir: "preserves (frame S m p) (sys_opendir K path)" for path
    by (rule preservesI) (use keepsD[OF file_calls(9)] in \<open>fastforce simp: frame_def\<close>)
  have closedir: "frame S m p w \<Longrightarrow> frame S m p (sys_closedir K d w)" for d w
    by (simp add: frame_def close_calls)
  show "preserves (frame S m p) (stop_all_threads K q)"
    and "preserves (frame S m p) (resume_all_threads K q)"
    by (rule threads_preserve attach detach wait opendir closedir | assumption)+
qed

lemma frame_save:
  assumes "lp_probe_manager_save K s = (r, s')"
  shows "mem (m_world s') p = mem (m_world s) p"
  using save_keeps[of "\<lambda>w. (mem w p, regs w p)", OF file_calls(8,7) _ assms] by (simp add: close_calls)

lemma resolve_view:
  "resolve_target K spec i s = (r, s') \<Longrightarrow>
   mem (m_world s') p = mem (m_world s) p \<and> regs (m_world s') p = regs (m_world s) p"
  using keepsD[OF view.lp_resolve_symbol_keeps[where p = p]]
  by (cases r) (auto simp: resolve_target_def bind_get_slot bindE_eq put_slot_def in_world_eq split: if_splits)

text \<open>The steps on the stopped process.\<close>

lemma inject_steps:
  assumes "inject_probe K p i s = (Inr u, s')" and "i < length (g_probe_table s)"
    and "range64 (r_rsp (regs (m_world s) p) - 8) 8 \<subseteq> stack"
  defines "m \<equiv> mem (m_world s) p" and "d' \<equiv> g_probe_table s' ! i"
  defines "t \<equiv> d_target_addr d'"
  shows "\<exists>n m1 patch. holds_code d' (take n (mem_read m t LP_MAX_ORIGINAL_CODE)) \<and>
      lp_x86_64_make_rel_jmp t (d_entry_stub_addr d') = Inr patch \<and>
      mem (m_world s') p = mem_write m1 t patch \<and> length (g_probe_table s') = length (g_probe_table s) \<and>
      (\<forall>x. x \<notin> dirty \<union> stack \<union> range64 (d_runtime_base_addr d') 633008 \<longrightarrow> m1 x = m x)"
proof -
  let ?d = "g_probe_table s ! i"
  from assms(1) obtain d1 w1 s1 s2 where
    rd: "lp_x86_64_read_original_code K p ?d (of_nat LP_X86_64_JMP_REL32_SIZE) (m_world s) = (Inr d1, w1)"
    and s1: "m_world s1 = w1"
    and inst: "lp_install_remote_runtime K p i (s1\<lparr>g_probe_table := (g_probe_table s)[i := d1]\<rparr>) =
      (Inr (), s2)"
    and pt: "lp_x86_64_patch_entry K p (g_probe_table s2 ! i) (m_world s2) = (Inr u, m_world s')"
    and t': "g_probe_table s' = g_probe_table s2"
    by (auto simp: inject_probe_def bind_get_slot bindE_eq in_world_eq put_slot_def)
  have regs1: "regs w1 p = regs (m_world s) p"
    using rd keepsD[OF remote_read_view]
    by (fastforce simp: lp_x86_64_read_original_code_def lp_remote_read_def Let_def bindE_eq liftE_def
        retE_def raiseE_def split: if_splits)
  from read_original_ok[OF rd] obtain n where
    code: "holds_code d1 (take n (mem_read m (d_target_addr ?d) LP_MAX_ORIGINAL_CODE))"
    and d1: "d_target_addr d1 = d_target_addr ?d" and m1: "mem w1 p = m" by (auto simp: m_def)
  from install_ok[OF inst, of stack] assms(2,3) regs1 s1 obtain base l where
    l: "lp_remote_runtime_layout_init (Some any_layout) base = Inr l"
    and d': "g_probe_table s2 ! i = lp_probe_desc_set_runtime_layout d1 l"
    and len: "length (g_probe_table s2) = length (g_probe_table s)"
    and fr: "\<And>x. x \<notin> dirty \<union> stack \<union> range64 base 633008 \<Longrightarrow> mem (m_world s2) p x = m x"
    by (auto simp: m1)
  have d'_eq: "d' = lp_probe_desc_set_runtime_layout d1 l" using d' t' by (simp add: d'_def)
  have base: "d_runtime_base_addr d' = base" using l by (auto simp: d'_eq layout_init_eq lp_probe_desc_set_runtime_layout_def)
  have t: "t = d_target_addr ?d" using d1 by (simp add: t_def d'_eq lp_probe_desc_set_runtime_layout_def)
  have code': "holds_code d' (take n (mem_read m t LP_MAX_ORIGINAL_CODE))"
    using code by (simp add: t d'_eq holds_code_def lp_probe_desc_set_runtime_layout_def)
  from patch_entry_ok[OF pt] obtain patch where
    "lp_x86_64_make_rel_jmp t (d_entry_stub_addr d') = Inr patch"
    "mem (m_world s') p = mem_write (mem (m_world s2) p) t patch"
    using d' d'_eq by (auto simp: t_def)
  then show ?thesis
    using code' len t' fr base
    by (intro exI[of _ n] exI[of _ "mem (m_world s2) p"] exI[of _ patch]) simp
qed

lemma attach_steps:
  assumes "lp_probe_attach K spec s = (Inr d, s')" and "p = sp_pid spec"
  obtains i and s1 s2 s3 :: "'w manager" and w4 where "i < length (g_probe_table s1)"
    "mem (m_world s1) p = mem (m_world s) p" "regs (m_world s1) p = regs (m_world s) p"
    "stop_all_threads K p (m_world s1) = (Inr (), m_world s2)" "g_probe_table s2 = g_probe_table s1"
    "inject_probe K p i s2 = (Inr (), s3)" "d = g_probe_table s3 ! i"
    "w4 = snd (resume_all_threads K p (m_world s3))"
    "mem (m_world s') p = mem w4 p"
proof -
  from assms(1) obtain i s0 where alloc: "lp_probe_manager_alloc spec s = (Inr i, s0)"
    and run: "attach_slot K spec i s0 = (Inr d, s')"
    by (auto simp: lp_probe_attach_def bindE_eq split: if_splits)
  have i: "i < length (g_probe_table s0)" and w0: "m_world s0 = m_world s"
    using alloc first_slot_nth[of _ "take LP_MAX_PROBES (g_probe_table s)" i]
    by (auto simp: lp_probe_manager_alloc_def split: option.splits)
  from run obtain s1 s2 s3 s4 where
    r1: "resolve_target K spec i s0 = (Inr (), s1)"
    and r2: "in_world (stop_all_threads K p) s1 = (Inr (), s2)"
    and r3: "inject_probe K p i s2 = (Inr (), s3)"
    and r4: "s4 = snd (in_world (resume_all_threads K p) s3)"
    and r5: "d = g_probe_table s4 ! i" "lp_probe_manager_save K s4 = (Inr (), s')"
    by (auto simp: attach_slot_def Let_def bindE_eq on_fail_eq ignoreE_def retE_def get_slot_def
        lp_stop_all_threads_def lp_resume_all_threads_def assms(2))
  have "length (g_probe_table s1) = length (g_probe_table s0)"
    using r1 by (auto simp: resolve_target_def bind_get_slot bindE_eq put_slot_def in_world_eq split: if_splits)
  moreover have "g_probe_table s4 = g_probe_table s3"
    and "m_world s4 = snd (resume_all_threads K p (m_world s3))"
    using r4 by (auto simp: in_world_def split: prod.splits)
  ultimately show thesis
    using i w0 resolve_view[OF r1, of p] r2 r3 r5 frame_save[OF r5(2), of p]
    by (intro that[of i s1 s2 s3 "m_world s4"]) (auto simp: in_world_eq)
qed

lemma attach_effect:
  assumes "lp_probe_attach K spec s = (Inr d, s')"
    and "\<And>w w'. mem w (sp_pid spec) = mem (m_world s) (sp_pid spec) \<Longrightarrow>
           regs w (sp_pid spec) = regs (m_world s) (sp_pid spec) \<Longrightarrow>
           stop_all_threads K (sp_pid spec) w = (Inr (), w') \<Longrightarrow>
           range64 (r_rsp (regs w' (sp_pid spec)) - 8) 8 \<subseteq> stack"
    and "range64 (d_target_addr d) LP_MAX_ORIGINAL_CODE \<inter> (dirty \<union> stack) = {}"
  defines "t \<equiv> d_target_addr d" and "m \<equiv> mem (m_world s) (sp_pid spec)"
    and "m' \<equiv> mem (m_world s') (sp_pid spec)"
  shows "(\<exists>n. holds_code d (mem_read m t n)) \<and>
    (\<exists>jump. lp_x86_64_make_rel_jmp t (d_entry_stub_addr d) = Inr jump \<and> mem_read m' t 5 = jump) \<and>
    (\<forall>x. x \<notin> dirty \<union> stack \<union> range64 (d_runtime_base_addr d) 633008 \<union> range64 t 5 \<longrightarrow> m' x = m x)"
proof -
  let ?p = "sp_pid spec" and ?R = "range64 (d_runtime_base_addr d) 633008"
  from assms(1) refl obtain i and s1 s2 s3 :: "'w manager" and w4 where st: "i < length (g_probe_table s1)"
    "mem (m_world s1) ?p = m" "regs (m_world s1) ?p = regs (m_world s) ?p"
    "stop_all_threads K ?p (m_world s1) = (Inr (), m_world s2)" "g_probe_table s2 = g_probe_table s1"
    "inject_probe K ?p i s2 = (Inr (), s3)" "d = g_probe_table s3 ! i"
    "w4 = snd (resume_all_threads K ?p (m_world s3))" "m' = mem w4 ?p"
    unfolding m_def m'_def by (rule attach_steps)
  have free: "x \<notin> dirty \<and> x \<notin> stack" if "x \<in> range64 t LP_MAX_ORIGINAL_CODE" for x
    using assms(3) that by (auto simp: t_def)
  have m2: "mem (m_world s2) ?p x = m x" if "x \<notin> dirty" for x
    using preservesD[OF frame_threads(1)[OF subset_refl, of m ?p ?p] _ st(4)] st(2) that
    by (simp add: frame_def)
  from inject_steps[OF st(6), of stack] st(1,5) assms(2)[OF st(2)[unfolded m_def] st(3,4)] obtain n m1 patch where
    code: "holds_code d (take n (mem_read (mem (m_world s2) ?p) t LP_MAX_ORIGINAL_CODE))"
    and patch: "lp_x86_64_make_rel_jmp t (d_entry_stub_addr d) = Inr patch"
    and m3: "mem (m_world s3) ?p = mem_write m1 t patch"
    and m1: "\<And>x. x \<notin> dirty \<union> stack \<union> ?R \<Longrightarrow> m1 x = mem (m_world s2) ?p x"
    by (auto simp: st(7) t_def)
  have len: "length patch = 5" using rel_jmp_target[OF patch] by simp
  have m': "m' x = mem (m_world s3) ?p x" if "x \<notin> dirty" for x
  proof -
    obtain r where "resume_all_threads K ?p (m_world s3) = (r, w4)" using st(8) by (metis prod.collapse)
    from preservesD[OF frame_threads(2)[OF subset_refl, of "mem (m_world s3) ?p" ?p ?p] _ this] that st(9)
    show ?thesis by (simp add: frame_def)
  qed
  have "mem_read (mem (m_world s2) ?p) t LP_MAX_ORIGINAL_CODE = mem_read m t LP_MAX_ORIGINAL_CODE"
    using free m2 by (intro mem_read_cong) auto
  then have "holds_code d (mem_read m t (min n LP_MAX_ORIGINAL_CODE))"
    using code by (simp add: take_mem_read)
  moreover have "mem_read m' t 5 = patch"
  proof -
    have "range64 t 5 \<subseteq> range64 t LP_MAX_ORIGINAL_CODE"
      using range64_sub[of 0 5 LP_MAX_ORIGINAL_CODE t] by (simp add: LP_MAX_ORIGINAL_CODE_def)
    then have "mem_read m' t 5 = mem_read (mem (m_world s3) ?p) t 5"
      using free by (intro mem_read_cong m') auto
    then show ?thesis using m3 len mem_read_write_same[of patch m1 t] by simp
  qed
  moreover have "m' x = m x" if "x \<notin> dirty \<union> stack \<union> ?R \<union> range64 t 5" for x
    using that m' m2 m1 len by (simp add: m3 mem_write_outside)
  ultimately show ?thesis using patch by blast
qed

lemma detach_effect:
  assumes "lp_probe_detach K (Some i) s = (Inr u, s')" and "d = g_probe_table s ! i"
    and "holds_code d orig"
    and "\<And>w'. stop_all_threads K (d_pid d) (m_world s) = (Inr (), w') \<Longrightarrow>
           range64 (r_rsp (regs w' (d_pid d)) - 8) 8 \<union> {r_rip (regs w' (d_pid d))} \<subseteq> stack"
  defines "t \<equiv> d_target_addr d" and "m \<equiv> mem (m_world s) (d_pid d)"
    and "m' \<equiv> mem (m_world s') (d_pid d)"
  shows "\<forall>x. x \<notin> dirty \<union> stack \<longrightarrow> m' x = mem_write m t orig x"
proof -
  let ?p = "d_pid d" and ?S = "dirty \<union> stack"
  from assms(1,2) obtain w1 w2 w3 w4 where
    r1: "stop_all_threads K ?p (m_world s) = (Inr (), w1)"
    and r2: "lp_x86_64_restore_entry K ?p d w1 = (Inr (), w2)"
    and r3: "lp_cleanup_remote_runtime_best_effort K d w2 = (Inr (), w3)"
    and r4: "w4 = snd (resume_all_threads K ?p w3)"
    and r5: "lp_probe_manager_save K
      (s\<lparr>m_world := w4, g_probe_table := (g_probe_table s)[i := zero_desc]\<rparr>) = (Inr u, s')"
    by (auto simp: lp_probe_detach_def bind_get_slot Let_def bindE_eq on_fail_eq ignoreE_def in_world_def
        lp_probe_manager_remove_def put_slot_def lp_stop_all_threads_def lp_resume_all_threads_def
        split: prod.splits)
  define mw where "mw = mem_write m t orig"
  have len: "length orig \<le> 2 ^ 60" using assms(3) by (simp add: holds_code_def LP_MAX_ORIGINAL_CODE_def)
  have w1: "mem w1 ?p x = m x" if "x \<notin> ?S" for x
    using preservesD[OF frame_threads(1)[OF subset_refl, of m ?p ?p] _ r1] that
    by (simp add: frame_def m_def)
  have w2: "mem w2 ?p = mem_write (mem w1 ?p) t orig"
    using restore_entry_ok[OF assms(3) r2] by (simp add: t_def)
  have f2: "frame ?S mw ?p w2"
    using w1 by (auto simp: frame_def w2 mw_def mem_write_def)
  have regs2: "regs w2 ?p = regs w1 ?p"
    using r2 keepsD[OF remote_write_regs]
    by (auto simp: lp_x86_64_restore_entry_def lp_remote_write_def raiseE_def split: if_splits)
  have f3: "frame ?S mw ?p w3"
  proof (cases "d_runtime_base_addr d = 0 \<or> d_runtime_size d = 0")
    case True
    with f2 r3 show ?thesis by (auto simp: lp_cleanup_remote_runtime_best_effort_def retE_def)
  next
    case False
    then obtain q where "remote_munmap K ?p (d_runtime_base_addr d) (d_runtime_size d) w2 = (q, w3)"
      using r3 by (auto simp: lp_cleanup_remote_runtime_best_effort_def ignoreE_def lp_remote_munmap_def)
        (metis prod.collapse)
    from remote_mapping_mem[OF disjI2[OF this] refl] have
      "mem w3 ?p x = mem w2 ?p x" if "x \<notin> ?S" for x
      using assms(4)[OF r1] that unfolding regs2 by blast
    with f2 show ?thesis by (simp add: frame_def)
  qed
  obtain q where "resume_all_threads K ?p w3 = (q, w4)" using r4 by (metis prod.collapse)
  then have "frame ?S mw ?p w4"
    using preservesD[OF frame_threads(2)] f3 by (metis Un_upper1)
  then show ?thesis
    using frame_save[OF r5, of ?p] by (simp add: frame_def m'_def mw_def)
qed

lemma attach_detach_effect:
  assumes "lp_probe_attach K spec s = (Inr d, s1)" and "g_probe_table s2 ! i = d"
    and "lp_probe_detach K (Some i) s2 = (Inr u, s3)"
    and "\<And>x. x \<in> range64 (d_target_addr d) LP_MAX_ORIGINAL_CODE \<Longrightarrow>
           mem (m_world s2) (sp_pid spec) x = mem (m_world s1) (sp_pid spec) x"
    and "\<And>w w'. w = m_world s2 \<or> mem w (sp_pid spec) = mem (m_world s) (sp_pid spec) \<and>
             regs w (sp_pid spec) = regs (m_world s) (sp_pid spec) \<Longrightarrow>
           stop_all_threads K (sp_pid spec) w = (Inr (), w') \<Longrightarrow>
           range64 (r_rsp (regs w' (sp_pid spec)) - 8) 8 \<union> {r_rip (regs w' (sp_pid spec))} \<subseteq> busy"
    and "range64 (d_target_addr d) LP_MAX_ORIGINAL_CODE \<inter>
           (dirty \<union> busy \<union> range64 (d_runtime_base_addr d) 633008) = {}"
    and "x \<in> range64 (d_target_addr d) LP_MAX_ORIGINAL_CODE"
  shows "mem (m_world s3) (sp_pid spec) x = mem (m_world s) (sp_pid spec) x"
proof -
  let ?p = "sp_pid spec" and ?t = "d_target_addr d"
  let ?m = "mem (m_world s) ?p" and ?m1 = "mem (m_world s1) ?p"
  have "range64 ?t LP_MAX_ORIGINAL_CODE \<inter> (dirty \<union> busy) = {}" using assms(6) by blast
  with attach_effect[OF assms(1), of busy] assms(5) obtain n where
    code: "holds_code d (mem_read ?m ?t n)"
    and same: "\<And>x. x \<notin> dirty \<union> busy \<union> range64 (d_runtime_base_addr d) 633008 \<union> range64 ?t 5 \<Longrightarrow>
      ?m1 x = ?m x" by auto
  have n: "5 \<le> n" "n \<le> 2 ^ 64" using code by (auto simp: holds_code_def LP_MAX_ORIGINAL_CODE_def)
  have free: "x \<notin> dirty \<union> busy \<union> range64 (d_runtime_base_addr d) 633008"
    using assms(6,7) by blast
  have "mem (m_world s3) ?p x = mem_write (mem (m_world s2) ?p) ?t (mem_read ?m ?t n) x"
    using detach_effect[OF assms(3) assms(2)[symmetric] code, of busy] attach_pid[OF assms(1)]
      assms(5) free by auto
  also have "\<dots> = ?m x"
  proof (cases "x \<in> range64 ?t n")
    case True
    then show ?thesis using n by (simp add: mem_write_def in_range64 nth_mem_read)
  next
    case False
    then have "x \<notin> range64 ?t 5" using range64_sub[of 0 5 n ?t] n by auto
    with False n free same assms(4)[OF assms(7)] show ?thesis by (simp add: mem_write_outside)
  qed
  finally show ?thesis .
qed

end

section \<open>Properties\<close>


text \<open>
  C12: a successful attach has put exactly the probe into the target: the descriptor holds the code
  that was at the target function, the function now begins with a jump to the entry stub, and
  outside these five bytes, the runtime, the word below the stack pointer and what the program
  writes itself the memory is as it was.
\<close>

theorem attach_patches_only_entry:
  assumes "kernel_exec K mem regs dirty" and "lp_probe_attach K spec s = (Inr d, s')"
    and "\<And>w w'. mem w (sp_pid spec) = mem (m_world s) (sp_pid spec) \<Longrightarrow>
           regs w (sp_pid spec) = regs (m_world s) (sp_pid spec) \<Longrightarrow>
           stop_all_threads K (sp_pid spec) w = (Inr (), w') \<Longrightarrow>
           range64 (r_rsp (regs w' (sp_pid spec)) - 8) 8 \<subseteq> stack"
    and "range64 (d_target_addr d) LP_MAX_ORIGINAL_CODE \<inter> (dirty \<union> stack) = {}"
  shows "let t = d_target_addr d; m = mem (m_world s) (sp_pid spec); m' = mem (m_world s') (sp_pid spec)
    in (\<exists>n. holds_code d (mem_read m t n)) \<and>
       (\<exists>jump. lp_x86_64_make_rel_jmp t (d_entry_stub_addr d) = Inr jump \<and> mem_read m' t 5 = jump) \<and>
       (\<forall>x. x \<notin> dirty \<union> stack \<union> range64 (d_runtime_base_addr d) 633008 \<union> range64 t 5 \<longrightarrow> m' x = m x)"
  using kernel_exec.attach_effect[OF assms] by (simp add: Let_def)

text \<open>
  C11: attach and detach are inverse on the code of the target: when a probe was attached, the
  code has been left alone by others since, and the probe is detached from the slot that holds
  its descriptor, then every byte of the 32 at the target function is what it was before the
  attach. Threads must not be stopped inside the code (\<open>busy\<close> is where they are stopped), and the
  runtime must not overlap it.
\<close>

theorem attach_detach_restores_code:
  assumes "kernel_exec K mem regs dirty"
    and "lp_probe_attach K spec s = (Inr d, s1)" and "g_probe_table s2 ! i = d"
    and "lp_probe_detach K (Some i) s2 = (Inr u, s3)"
    and "\<And>x. x \<in> range64 (d_target_addr d) LP_MAX_ORIGINAL_CODE \<Longrightarrow>
           mem (m_world s2) (sp_pid spec) x = mem (m_world s1) (sp_pid spec) x"
    and "\<And>w w'. w = m_world s2 \<or> mem w (sp_pid spec) = mem (m_world s) (sp_pid spec) \<and>
             regs w (sp_pid spec) = regs (m_world s) (sp_pid spec) \<Longrightarrow>
           stop_all_threads K (sp_pid spec) w = (Inr (), w') \<Longrightarrow>
           range64 (r_rsp (regs w' (sp_pid spec)) - 8) 8 \<union> {r_rip (regs w' (sp_pid spec))} \<subseteq> busy"
    and "range64 (d_target_addr d) LP_MAX_ORIGINAL_CODE \<inter>
           (dirty \<union> busy \<union> range64 (d_runtime_base_addr d) 633008) = {}"
    and "x \<in> range64 (d_target_addr d) LP_MAX_ORIGINAL_CODE"
  shows "mem (m_world s3) (sp_pid spec) x = mem (m_world s) (sp_pid spec) x"
  using kernel_exec.attach_detach_effect[OF assms] .

text \<open>
  C37: enabling and disabling a probe changes one field of its configuration in the target and
  nothing else: the configuration that the stubs read afterwards is the old one with
  \<open>lp_runtime_config_set_enabled\<close> applied, and outside its first four bytes the memory is as it
  was.
\<close>

theorem switch_sets_flag_only:
  assumes "kernel_exec K mem regs dirty" and "set_probe_enabled K (Some i) enabled s = (Inr u, s')"
  shows "let d = g_probe_table s ! i; c = d_config_addr d; m = mem (m_world s) (d_pid d);
             m' = mem (m_world s') (d_pid d)
    in dec_config (mem_read m' c 24) = lp_runtime_config_set_enabled (dec_config (mem_read m c 24)) enabled \<and>
       (\<forall>x. x \<notin> range64 c 4 \<longrightarrow> m' x = m x)"
proof -
  let ?d = "g_probe_table s ! i"
  let ?c = "d_config_addr ?d" and ?p = "d_pid ?d" and ?f = "le32 (if enabled \<noteq> 0 then 1 else 0 :: u32)"
  let ?m = "mem (m_world s) ?p"
  let ?t = "(g_probe_table s)[i := ?d\<lparr>d_enabled := enabled\<rparr>]"
  from assms(2) obtain u1 w1 where
    wr: "lp_remote_write K ?p ?c (Some ?f) (m_world s) = (Inr u1, w1)" and
    save: "lp_probe_manager_save K (s\<lparr>m_world := w1, g_probe_table := ?t\<rparr>) = (Inr u, s')"
    by (auto simp: set_probe_enabled_def bind_get_slot bindE_eq in_world_def put_slot_def Let_def
        lp_update_remote_enabled_def raiseE_def lp_runtime_config_enabled_addr_def
        offsetof_config_enabled_def split: if_splits prod.splits)
  have len: "length ?f = 4" by simp
  have m': "mem (m_world s') ?p = mem_write ?m ?c ?f"
    using kernel_exec.remote_write_ok[OF assms(1) _ wr] len
      kernel_exec.frame_save[OF assms(1) save, of ?p] by simp
  have "mem_read (mem_write ?m ?c ?f) ?c 24 = ?f @ drop 4 (mem_read ?m ?c 24)"
    using mem_read_write_prefix[of ?f 24 ?m ?c] len by simp
  then show ?thesis
    unfolding Let_def m'
    by (auto simp: dec_config_def lp_runtime_config_set_enabled_def mem_write_outside)
qed

end
