(* ===== verification/Probe_Release.thy ===== *)
theory Probe_Release
  imports Probe_Manager
begin

text \<open>
  The threads that the operations of the probe manager stop: between the stopping and the
  resuming no others become stopped, and on every path all of them are released.
\<close>

section \<open>Threads that stay stopped\<close>

text \<open>
  Between the stopping and the resuming only threads of the listing can become stopped, as long as
  the process itself is one of them.
\<close>

lemma preserves_world:
  "preserves P m \<Longrightarrow> preserves (\<lambda>s. P (m_world s)) (in_world m)"
  by (rule preservesI) (auto simp: in_world_eq dest: preservesD)

lemma subseq_set: "subseq xs ys \<Longrightarrow> set xs \<subseteq> set ys"
  by (induction rule: list_emb.induct) auto

lemma listed_positive: "t \<in> set (listed entries) \<Longrightarrow> 0 < sint t"
  by (induction entries) (auto simp: task_tid_def Let_def split: option.splits if_splits)

context kernel_threads
begin

definition within :: "pid_t set \<Rightarrow> 'w \<Rightarrow> bool" where
  "within A w \<longleftrightarrow> stopped w \<subseteq> A"

lemma within_keeps: "keeps stopped m \<Longrightarrow> preserves (within A) m"
  unfolding within_def by (rule keeps_preserves)

lemma transfers_within:
  "preserves (within A) (remote_read K p a buf n)"
  "preserves (within A) (remote_write K p a bytes)"
  by (intro within_keeps remote_read_keeps remote_write_keeps other_stopped)+

lemma runs_within:
  assumes "p \<in> A"
  shows "preserves (within A) (ptrace_cont K p)" and "preserves (within A) (waitpid_wall K p)"
    and "preserves (within A) (ptrace_getregs K p)" and "preserves (within A) (ptrace_setregs K p x)"
proof -
  show "preserves (within A) (ptrace_cont K p)"
    by (rule preservesI) (use cont_stopped in \<open>fastforce simp: within_def\<close>)
  show "preserves (within A) (waitpid_wall K p)"
  proof (rule preservesI)
    fix w r w' assume "within A w" "waitpid_wall K p w = (r, w')"
    then show "within A w'"
      using assms wait_stopped[of p w _ w'] wait_failed[of p w _ w']
      by (cases r) (auto simp: within_def)
  qed
qed (intro within_keeps other_stopped)+

lemma remote_syscall_within:
  assumes "p \<in> A"
  shows "preserves (within A) (remote_syscall K p n a1 a2 a3 a4 a5 a6 buf)"
  unfolding remote_syscall_def inject_syscall_def run_to_breakpoint_def
    restore_remote_state_best_effort_def find_syscall_gadget_def Let_def
  by (intro preserves transfers_within runs_within[OF assms] within_keeps[OF st.resolve_gadget_keeps])

lemma mappings_within:
  assumes "p \<in> A"
  shows "preserves (within A) (lp_remote_mmap K p n prot buf)"
    and "preserves (within A) (lp_remote_munmap K p a n)"
  unfolding lp_remote_mmap_def remote_mmap_def lp_remote_munmap_def remote_munmap_def
  by (intro preserves remote_syscall_within[OF assms])+

abbreviation world_within :: "pid_t set \<Rightarrow> 'w manager \<Rightarrow> bool" where
  "world_within A s \<equiv> within A (m_world s)"

lemma table_steps_within:
  "preserves (world_within A) (get_slot i)" "preserves (world_within A) (put_slot i d)"
  "preserves (world_within A) (lp_probe_manager_remove (Some i))"
  by (auto intro!: preservesI simp: get_slot_def put_slot_def lp_probe_manager_remove_def)

lemma save_within: "preserves (world_within A) (lp_probe_manager_save K)"
  by (rule preservesI)
     (simp add: within_def save_keeps[of stopped, OF other_stopped(14,15) close_stopped(3)])

lemma inject_within:
  assumes "p \<in> A"
  shows "preserves (world_within A) (inject_probe K p i)"
  unfolding inject_probe_def lp_install_remote_runtime_def write_runtime_def lp_remote_write_def
    lp_x86_64_read_original_code_def lp_x86_64_patch_entry_def lp_remote_read_def Let_def
  by (intro preserves preserves_world table_steps_within transfers_within mappings_within[OF assms])

text \<open>The bracket around the work on the stopped process.\<close>

lemma stop_within:
  assumes "\<And>w. \<exists>dir w1. sys_opendir K (task_path p) w = (Inr (dir, entries), w1)"
  shows "triple (world_within A) (in_world (lp_stop_all_threads K p))
    (\<lambda>_. world_within (A \<union> set (listed entries))) (\<lambda>_. world_within A)"
proof (rule tripleI)
  fix s x s' assume st: "world_within A s" and run: "in_world (lp_stop_all_threads K p) s = (Inr x, s')"
  then have "stop_all_threads K p (m_world s) = (Inr x, m_world s')"
    by (simp add: in_world_eq lp_stop_all_threads_def)
  from stop_all_stopped[OF this] obtain dir entries' w1 tids where
    "sys_opendir K (task_path p) (m_world s) = (Inr (dir, entries'), w1)"
    "subseq tids (listed entries')" "stopped (m_world s') = stopped (m_world s) \<union> set tids" by auto
  moreover from this(1) assms[of "m_world s"] have "entries' = entries" by auto
  ultimately show "world_within (A \<union> set (listed entries)) s'"
    using st subseq_set[of tids "listed entries"] by (auto simp: within_def)
next
  fix s e s' assume st: "world_within A s" and run: "in_world (lp_stop_all_threads K p) s = (Inl e, s')"
  then have "stop_all_threads K p (m_world s) = (Inl e, m_world s')"
    by (simp add: in_world_eq lp_stop_all_threads_def)
  from stop_all_stopped[OF this] st show "world_within A s'" by (simp add: within_def)
qed

lemma resume_within:
  assumes "\<And>w. \<exists>dir w1. sys_opendir K (task_path p) w = (Inr (dir, entries), w1)" and "0 < sint p"
  shows "triple (world_within (A \<union> set (listed entries))) (ignoreE (in_world (lp_resume_all_threads K p)))
    (\<lambda>_. world_within A) E"
proof (rule triple_ignoreE, rule tripleI)
  have released: "world_within A s'"
    if "world_within (A \<union> set (listed entries)) s" "in_world (lp_resume_all_threads K p) s = (r, s')" for s r s'
  proof -
    from that(2) have "resume_all_threads K p (m_world s) = (r, m_world s')"
      by (simp add: in_world_eq lp_resume_all_threads_def)
    moreover obtain dir w1 where "sys_opendir K (task_path p) (m_world s) = (Inr (dir, entries), w1)"
      using assms(1) by blast
    ultimately show ?thesis
      using resume_all_stopped[OF _ _ assms(2)] that(1) by (auto simp: within_def)
  qed
  show "world_within A s'" if "world_within (A \<union> set (listed entries)) s"
    "in_world (lp_resume_all_threads K p) s = (Inr x, s')" for s x s' using released that .
  show "world_within A s'" if "world_within (A \<union> set (listed entries)) s"
    "in_world (lp_resume_all_threads K p) s = (Inl x, s')" for s x s' using released that .
qed

lemma attach_within:
  assumes "\<And>w. \<exists>dir w1. sys_opendir K (task_path (sp_pid spec)) w = (Inr (dir, entries), w1)"
    and "sp_pid spec \<in> set (listed entries)"
  shows "preserves (world_within A) (lp_probe_attach K spec)"
proof -
  let ?p = "sp_pid spec" and ?B = "A \<union> set (listed entries)"
  let ?resume = "ignoreE (in_world (lp_resume_all_threads K ?p))"
  let ?E = "\<lambda>_ :: errno. world_within A"
  have p: "0 < sint ?p" using assms(2) listed_positive by blast
  note remove = preserves_triple[OF table_steps_within(3)]
  have resolve: "preserves (world_within A) (resolve_target K spec i)" for i
    unfolding resolve_target_def
    by (intro preserves preserves_world table_steps_within within_keeps st.lp_resolve_symbol_keeps)
  have "triple (world_within A) (attach_slot K spec i) (\<lambda>_. world_within A) ?E" for i
    unfolding attach_slot_def Let_def
  proof (intro triple_bindE)
    show "triple (world_within A) (on_fail (resolve_target K spec i) (lp_probe_manager_remove (Some i)))
        (\<lambda>_. world_within A) ?E"
      by (rule triple_on_fail[OF preserves_triple[OF resolve] remove])
    show "triple (world_within A)
        (on_fail (in_world (lp_stop_all_threads K ?p)) (lp_probe_manager_remove (Some i)))
        (\<lambda>_. world_within ?B) ?E"
      by (rule triple_on_fail[OF stop_within[OF assms(1)] remove])
    have inject: "preserves (world_within ?B) (inject_probe K ?p i)"
      by (rule inject_within) (use assms(2) in simp)
    show "triple (world_within ?B) (on_fail (inject_probe K ?p i)
          (bindE ?resume (\<lambda>_. lp_probe_manager_remove (Some i)))) (\<lambda>_. world_within ?B) ?E"
      by (rule triple_on_fail[OF preserves_triple[OF inject] triple_bindE[OF resume_within[OF assms(1) p] remove]])
    show "triple (world_within ?B) ?resume (\<lambda>_. world_within A) ?E"
      by (rule resume_within[OF assms(1) p])
  qed (rule preserves_triple, intro preserves table_steps_within save_within)+
  then have "preserves (world_within A) (attach_slot K spec i)" for i by (rule triple_preserves)
  moreover have "preserves (world_within A) (lp_probe_manager_alloc spec)"
    by (rule preservesI) (auto simp: lp_probe_manager_alloc_def split: option.splits)
  ultimately have "preserves (world_within A) (bindE (lp_probe_manager_alloc spec) (attach_slot K spec))"
    by (intro preserves)
  then show ?thesis
    by (auto intro!: preservesI simp: lp_probe_attach_def dest: preservesD split: if_splits)
qed

lemma detach_within:
  assumes "\<And>w. \<exists>dir w1. sys_opendir K (task_path (d_pid (g_probe_table s ! i))) w = (Inr (dir, entries), w1)"
    and "d_pid (g_probe_table s ! i) \<in> set (listed entries)"
    and "lp_probe_detach K (Some i) s = (r, s')" and "world_within A s"
  shows "world_within A s'"
proof -
  let ?d = "g_probe_table s ! i" and ?B = "A \<union> set (listed entries)"
  let ?p = "d_pid ?d"
  let ?resume = "ignoreE (in_world (lp_resume_all_threads K ?p))"
  let ?E = "\<lambda>_ :: errno. world_within A"
  have p: "0 < sint ?p" "?p \<in> ?B" using assms(2) listed_positive by auto
  note resume = resume_within[OF assms(1) p(1)]
  have run: "bindE (in_world (lp_stop_all_threads K ?p)) (\<lambda>_.
          bindE (on_fail (in_world (lp_x86_64_restore_entry K ?p ?d)) ?resume) (\<lambda>_.
          bindE (in_world (lp_cleanup_remote_runtime_best_effort K ?d)) (\<lambda>_.
          bindE ?resume (\<lambda>_.
          bindE (lp_probe_manager_remove (Some i)) (\<lambda>_.
          lp_probe_manager_save K))))) s = (r, s')"
    using assms(3) by (simp add: lp_probe_detach_def bind_get_slot Let_def)
  have restore: "preserves (world_within ?B) (in_world (lp_x86_64_restore_entry K ?p ?d))"
    unfolding lp_x86_64_restore_entry_def lp_remote_write_def
    by (intro preserves_world preserves transfers_within)
  have cleanup: "triple (world_within ?B) (in_world (lp_cleanup_remote_runtime_best_effort K ?d))
      (\<lambda>_. world_within ?B) ?E"
  proof -
    have "preserves (world_within ?B) (in_world (lp_cleanup_remote_runtime_best_effort K ?d))"
      unfolding lp_cleanup_remote_runtime_best_effort_def
      by (intro preserves_world preserves mappings_within[OF p(2)])
    moreover have "fst (in_world (lp_cleanup_remote_runtime_best_effort K ?d) s) \<noteq> Inl e" for s e
      by (auto simp: lp_cleanup_remote_runtime_best_effort_def in_world_def ignoreE_def retE_def split: prod.splits)
    ultimately show ?thesis by (intro tripleI) (auto dest: preservesD, metis fst_conv)
  qed
  have "triple (world_within A) (bindE (in_world (lp_stop_all_threads K ?p)) (\<lambda>_.
          bindE (on_fail (in_world (lp_x86_64_restore_entry K ?p ?d)) ?resume) (\<lambda>_.
          bindE (in_world (lp_cleanup_remote_runtime_best_effort K ?d)) (\<lambda>_.
          bindE ?resume (\<lambda>_.
          bindE (lp_probe_manager_remove (Some i)) (\<lambda>_.
          lp_probe_manager_save K)))))) (\<lambda>_. world_within A) ?E"
    by (rule triple_bindE stop_within[OF assms(1)] triple_on_fail[OF preserves_triple[OF restore] resume]
          cleanup resume | (rule preserves_triple, intro table_steps_within save_within))+
  from preservesD[OF triple_preserves[OF this] assms(4) run] show ?thesis .
qed

end

section \<open>Properties\<close>



end
