(* ===== verification/Probe_Example.thy ===== *)
theory Probe_Example
  imports Probe_Effects Probe_Release
begin

text \<open>
  A probe from attach to detach on the reference kernel, at which the theorems on the probe
  manager are applied.
\<close>

text \<open>
  Process 42: one thread, stopped at \<open>0x800\<close> with its stack at \<open>0x3000\<close>, a function to probe at
  \<open>0x1000\<close>, and a C library with a \<open>syscall; ret\<close>.
\<close>

definition target_ready :: "ref_world \<Rightarrow> bool" where
  "target_ready w \<longleftrightarrow>
     rw_vm w \<and> rw_fds w = [] \<and> rw_tasks w = [print_d 42] \<and> rw_gone w = [] \<and>
     map_of (rw_files w) (maps_path 42) = Some (concat (map print_entry example_maps)) \<and>
     map_of (rw_files w) (ascii ''/lib/libc.so.6'') = Some [0x90, 0x0F, 0x05, 0xC3] \<and>
     rw_regs w = zero_regs\<lparr>r_rip := 0x800, r_rsp := 0x3000\<rparr> \<and>
     mem_read (rw_mem w) 0x700001 3 = [0x0F, 0x05, 0xC3] \<and> rw_mem w 0x800 = 0x55"

lemma target_ready_mem:
  "target_ready w \<Longrightarrow> length bs \<le> 2 ^ 60 \<Longrightarrow> range64 0x700001 3 \<inter> range64 a (length bs) = {} \<Longrightarrow>
   0x800 \<notin> range64 a (length bs) \<Longrightarrow> target_ready (w\<lparr>rw_mem := mem_write (rw_mem w) a bs\<rparr>)"
  by (simp add: target_ready_def mem_read_write_disjoint mem_write_outside)

lemma ref_write:
  "rw_vm w \<Longrightarrow> 0 < sint p \<Longrightarrow> a \<noteq> 0 \<Longrightarrow> bs \<noteq> [] \<Longrightarrow>
   remote_write ref_kernel p a (Some bs) w = (Inr (), w\<lparr>rw_mem := mem_write (rw_mem w) a bs\<rparr>)"
  by (simp add: remote_write_def ref_kernel_def)

lemma ref_read_mem:
  "rw_vm w \<Longrightarrow> 0 < sint p \<Longrightarrow> a \<noteq> 0 \<Longrightarrow> n \<noteq> 0 \<Longrightarrow>
   remote_read ref_kernel p a OUT n w = (Inr (mem_read (rw_mem w) a n), w)"
  by (simp add: remote_read_def ref_kernel_def)

lemma le64_nonempty [simp]: "le64 v \<noteq> []"
  using length_le64[of v] by force

text \<open>The injected call: the breakpoint byte goes and comes back, the red zone keeps its word.\<close>

definition called :: "ref_world \<Rightarrow> ref_world" where
  "called w = w\<lparr>rw_mem := mem_write (rw_mem w) 0x2FF8 (le64 0x800), rw_status := 0x057F,
     rw_stopped := 42 # rw_stopped w\<rparr>"

lemma target_ready_called: "target_ready w \<Longrightarrow> target_ready (called w)"
  using target_ready_mem[of w "le64 0x800" "0x2FF8"] range64_offsets_disjoint[of 0 8 "0x6FD009" 3 "0x2FF8"]
  by (simp add: in_range64 Int_commute) (simp add: target_ready_def called_def)

lemma restored_code:
  assumes "m 0x800 = (0x55 :: u8)"
  shows "mem_write (mem_write (mem_write m 0x800 [0xCC]) 0x2FF8 (le64 0x800)) 0x800 [0x55] =
    mem_write m 0x2FF8 (le64 (0x800 :: u64))"
proof
  fix x :: u64
  show "mem_write (mem_write (mem_write m 0x800 [0xCC]) 0x2FF8 (le64 0x800)) 0x800 [0x55] x =
    mem_write m 0x2FF8 (le64 (0x800 :: u64)) x"
    using assms by (cases "x = 0x800") (auto simp: mem_write_def unat_eq_0)
qed

lemma ref_injection:
  assumes "target_ready w" and "42 \<in> set (rw_attached w)" and "n = 9 \<or> n = 11"
  shows "inject_syscall ref_kernel 42 (rw_regs w) [0x55]
      (syscall_regs (rw_regs w) n a1 a2 a3 a4 a5 a6 0x700001) w =
    (if n = 9 then (Inr (rw_brk w), (called w)\<lparr>rw_brk := rw_brk w + a2\<rparr>) else (Inr 0, called w))"
proof -
  let ?m1 = "mem_write (rw_mem w) 0x800 [0xCC]"
  define m2 where "m2 = mem_write ?m1 0x2FF8 (le64 (0x800 :: u64))"
  have far: "range64 0x700001 3 \<inter> range64 0x800 1 = {}" "range64 0x700001 3 \<inter> range64 0x2FF8 8 = {}"
    "(0x800 :: u64) \<notin> range64 0x2FF8 8"
    using range64_offsets_disjoint[of 0 1 "0x6FF801" 3 "0x800"]
      range64_offsets_disjoint[of 0 8 "0x6FD009" 3 "0x2FF8"] by (auto simp: in_range64)
  have gadget: "mem_read m2 0x700001 3 = [0x0F, 0x05, 0xC3]"
    using assms(1) far by (simp add: m2_def mem_read_write_disjoint target_ready_def)
  have ret: "le_word (mem_read m2 0x2FF8 8) = (0x800 :: u64)"
    using mem_read_write_same[of "le64 (0x800 :: u64)" ?m1 "0x2FF8"] by (simp add: m2_def)
  have trap: "m2 0x800 = 0xCC"
    using far by (simp add: m2_def mem_write_outside) (simp add: mem_write_def)
  have undone: "mem_write m2 0x800 [0x55] = mem_write (rw_mem w) 0x2FF8 (le64 (0x800 :: u64))"
    unfolding m2_def using assms(1) by (intro restored_code) (simp add: target_ready_def)
  have vm: "rw_vm w" and regs: "rw_regs w = zero_regs\<lparr>r_rip := 0x800, r_rsp := 0x3000\<rparr>"
    using assms(1) by (simp_all add: target_ready_def)
  have setregs: "ptrace_setregs ref_kernel p x v = (Inr (), v\<lparr>rw_regs := x\<rparr>)"
    and cont: "ptrace_cont ref_kernel = ref_cont" and wait: "waitpid_wall ref_kernel = ref_waitpid"
    and getregs: "ptrace_getregs ref_kernel p v = (Inr (rw_regs v), v)" for p x v
    by (simp_all add: ref_kernel_def)
  show ?thesis
    using assms(2,3) vm
    by (auto simp: inject_syscall_def Let_def bindE_def on_fail_def retE_def ref_write regs
        zero_regs_def syscall_regs_def run_to_breakpoint_def setregs cont wait getregs INT3_OPCODE_def
        m2_def[symmetric] ref_cont_def gadget ref_syscall_def ret trap ref_waitpid_def WIFSTOPPED_def
        WSTOPSIG_def SIGTRAP_def called_def undone)
qed

lemma target_ready_getregs: "ptrace_getregs ref_kernel p w = (Inr (rw_regs w), w)"
  by (simp add: ref_kernel_def)

lemma ref_call:
  assumes "target_ready w" and "42 \<in> set (rw_attached w)" and "n = 9 \<or> n = 11"
  shows "remote_syscall ref_kernel 42 n a1 a2 a3 a4 a5 a6 OUT w =
    (if n = 9 then (Inr (rw_brk w), (called w)\<lparr>rw_brk := rw_brk w + a2\<rparr>) else (Inr 0, called w))"
proof -
  have gadget: "find_syscall_gadget ref_kernel 42 w = (Inr 0x700001, w)"
    using assms(1) by (intro ref_gadget) (simp_all add: target_ready_def)
  have "remote_read ref_kernel 42 0x800 OUT 1 w = (Inr [0x55], w)"
    using assms(1) ref_read_mem[of w 42 "0x800" 1] by (simp add: target_ready_def mem_read_def)
  moreover have "r_rip (rw_regs w) = 0x800"
    using assms(1) by (simp add: target_ready_def)
  ultimately show ?thesis
    using ref_injection[OF assms, of a1 a2 a3 a4 a5 a6]
    by (simp add: remote_syscall_def bindE_def gadget target_ready_getregs)
qed

lemma ref_mmap:
  assumes "target_ready w" and "42 \<in> set (rw_attached w)" and "rw_brk w = 0x10000000"
  shows "lp_remote_mmap ref_kernel 42 633008 PROT_RWX OUT w =
    (Inr 0x10000000, (called w)\<lparr>rw_brk := 0x1009A8B0\<rparr>)"
  using ref_call[OF assms(1,2), of 9] assms(3)
  by (simp add: lp_remote_mmap_def remote_mmap_def NR_mmap_def bindE_def is_error_value_def retE_def)

lemma ref_munmap:
  assumes "target_ready w" and "42 \<in> set (rw_attached w)" and "a \<noteq> 0" and "n \<noteq> 0"
  shows "lp_remote_munmap ref_kernel 42 a n w = (Inr (), called w)"
  using ref_call[OF assms(1,2), of 11] assms(3,4)
  by (simp add: lp_remote_munmap_def remote_munmap_def NR_munmap_def bindE_def is_error_value_def retE_def)

text \<open>Stopping and resuming the one thread.\<close>

definition held :: "ref_world \<Rightarrow> ref_world" where
  "held w = w\<lparr>rw_attached := [42], rw_stopped := [42], rw_status := 0x137F\<rparr>"

definition released :: "ref_world \<Rightarrow> ref_world" where
  "released w = w\<lparr>rw_attached := [], rw_stopped := removeAll 42 (rw_stopped w)\<rparr>"

lemma ref_stop:
  assumes "target_ready w" and "rw_attached w = []" and "rw_stopped w = []"
  shows "lp_stop_all_threads ref_kernel 42 w = (Inr (), held w)"
  using assms
  by (simp add: lp_stop_all_threads_def target_ready_def stop_all_threads_def ref_kernel_def bindE_def
      task_tid_print MAX_ATTACHED_def attach_one_thread_def ref_attach_def on_fail_def ref_waitpid_def
      WIFSTOPPED_def retE_def held_def)

lemma ref_resume:
  assumes "target_ready w" and "rw_attached w = [42]" and "42 \<in> set (rw_stopped w)"
  shows "lp_resume_all_threads ref_kernel 42 w = (Inr (), released w)"
  using assms
  by (simp add: lp_resume_all_threads_def target_ready_def resume_all_threads_def ref_kernel_def bindE_def
      task_tid_print ref_detach_def released_def)

section \<open>Attach\<close>

definition example_spec :: lp_probe_spec where
  "example_spec =
     \<lparr>sp_pid = 42, sp_lib_name = ascii ''libc.so'', sp_func_name = ascii ''f'',
      sp_target_addr_override = 0x1000, sp_has_retprobe = 1\<rparr>"

definition example_layout :: lp_remote_runtime_layout where
  "example_layout =
     (case lp_remote_runtime_layout_init (Some any_layout) 0x10000000 of Inr l \<Rightarrow> l | Inl _ \<Rightarrow> any_layout)"

definition example_found :: probe_desc where
  "example_found = (new_desc 0 example_spec)\<lparr>d_target_addr := 0x1000,
     d_original_code := take 8 example_function @ replicate 24 0, d_original_len := 8\<rparr>"

definition example_attached :: probe_desc where
  "example_attached = lp_probe_desc_set_runtime_layout example_found example_layout"

lemma example_layout: "lp_remote_runtime_layout_init (Some any_layout) 0x10000000 = Inr example_layout"
  by (simp add: example_layout_def layout_init_eq)

lemmas attached_defs = example_attached_def lp_probe_desc_set_runtime_layout_def example_layout_def
  layout_init_eq example_found_def new_desc_def example_spec_def zero_desc_def

lemma example_attached_fields:
  "d_probe_id example_attached = 0" "d_pid example_attached = 42" "d_target_addr example_attached = 0x1000"
  "d_original_len example_attached = 8" "d_has_retprobe example_attached = 1"
  "d_original_code example_attached = take 8 example_function @ replicate 24 0"
  "d_config_addr example_attached = 0x10000000" "d_event_buffer_addr example_attached = 0x10000020"
  "d_shadow_stack_addr example_attached = 0x10058030" "d_trampoline_addr example_attached = 0x10098830"
  "d_entry_stub_addr example_attached = 0x100988B0" "d_ret_stub_addr example_attached = 0x100998B0"
  "d_runtime_base_addr example_attached = 0x10000000" "d_runtime_size example_attached = 633008"
  by (simp_all add: attached_defs)

definition example_trampoline :: "u8 list" where
  "example_trampoline =
     (case lp_x86_64_build_trampoline example_attached 0x1008 LP_TRAMPOLINE_SIZE of
        Inr bs \<Rightarrow> bs | Inl _ \<Rightarrow> [])"

lemma example_trampoline:
  "lp_x86_64_build_trampoline example_attached 0x1008 LP_TRAMPOLINE_SIZE = Inr example_trampoline \<and>
   example_trampoline \<noteq> []"
proof -
  have "\<exists>bs. lp_x86_64_build_trampoline example_attached 0x1008 LP_TRAMPOLINE_SIZE = Inr bs"
    by (simp add: lp_x86_64_build_trampoline_def example_attached_fields LP_TRAMPOLINE_SIZE_def
          LP_MAX_ORIGINAL_CODE_def emit_abs_jmp_r11_preserve_def emit_u64_def emit_at cw_new_def
          example_function_def)
  then obtain bs where "lp_x86_64_build_trampoline example_attached 0x1008 LP_TRAMPOLINE_SIZE = Inr bs"
    by blast
  moreover from trampoline_bytes[OF this] have "bs \<noteq> []" by auto
  ultimately show ?thesis by (simp add: example_trampoline_def)
qed

lemma example_stubs:
  "built_stubs example_attached example_trampoline (entry_code example_attached) (ret_code example_attached)"
  "entry_code example_attached \<noteq> []" "ret_code example_attached \<noteq> []"
  using length_entry_code[of example_attached] length_ret_code[of example_attached] example_trampoline
  by (auto simp: built_stubs_def example_attached_fields entry_stub_bytes ret_stub_bytes LP_REMOTE_STUB_SIZE_def)

definition example_image :: "(u64 \<times> u8 list) list" where
  "example_image = runtime_image example_attached example_trampoline (entry_code example_attached)
     (ret_code example_attached)"

lemma ref_write_runtime:
  assumes "rw_vm w" and "0 < sint p" and "\<forall>(a, bs) \<in> set (runtime_image d tr es rs). a \<noteq> 0 \<and> bs \<noteq> []"
  shows "write_runtime ref_kernel p d tr es rs w =
    (Inr (), w\<lparr>rw_mem := write_list (runtime_image d tr es rs) (rw_mem w)\<rparr>)"
  using assms by (simp add: write_runtime_def lp_remote_write_def bindE_def ref_write runtime_image_def)

lemma example_image_ok:
  "\<forall>(a, bs) \<in> set example_image. a \<noteq> 0 \<and> bs \<noteq> []"
  "x \<notin> range64 0x10000000 633008 \<Longrightarrow> write_list example_image m x = m x"
proof -
  have "enc_config c \<noteq> []" for c
    using length_init_images(1)[of c] by (auto simp: sizeof_lp_runtime_config_def)
  then show "\<forall>(a, bs) \<in> set example_image. a \<noteq> 0 \<and> bs \<noteq> []"
    using length_init_images example_trampoline example_stubs
    by (auto simp: example_image_def runtime_image_def example_attached_fields
        sizeof_lp_runtime_config_def sizeof_lp_event_buffer_def sizeof_lp_shadow_stack_def lp_sizes)
  note spans = runtime_image_spans[OF example_layout example_stubs(1)[unfolded example_attached_def],
      folded example_attached_def, folded example_image_def]
  have "(2 :: nat) ^ 60 \<le> 2 ^ 64" by simp
  with spans(3) have small: "\<forall>w \<in> set example_image. length (snd w) \<le> 2 ^ 64" by (meson le_trans)
  show "x \<notin> range64 0x10000000 633008 \<Longrightarrow> write_list example_image m x = m x"
    using spans(2) small by (intro write_list_outside) auto
qed

lemma target_ready_cong:
  assumes "target_ready w" and "\<And>x. x = 0x800 \<or> x \<in> range64 0x700001 3 \<Longrightarrow> m x = rw_mem w x"
  shows "target_ready (w\<lparr>rw_mem := m\<rparr>)"
  using assms mem_read_cong[of "0x700001" 3 m "rw_mem w"] by (simp add: target_ready_def)

section \<open>The run\<close>

definition example_start :: ref_world where
  "example_start = ref_init\<lparr>rw_files := example_files, rw_tasks := [print_d 42],
     rw_regs := zero_regs\<lparr>r_rip := 0x800, r_rsp := 0x3000\<rparr>,
     rw_mem := mem_write (mem_write (mem_write (\<lambda>_. 0) 0x700001 [0x0F, 0x05, 0xC3]) 0x800 [0x55])
       0x1000 example_function\<rparr>"

lemma example_start:
  "target_ready example_start" "rw_attached example_start = []" "rw_stopped example_start = []"
  "rw_brk example_start = 0x10000000" "mem_read (rw_mem example_start) 0x1000 32 = example_function"
proof -
  have bytes: "length example_function = 32" by (simp add: example_function_def)
  have gadget: "range64 0x700001 3 \<inter> range64 0x1000 32 = {}" "range64 0x700001 3 \<inter> range64 0x800 1 = {}"
    using range64_offsets_disjoint[of 0 1 "0x6FF801" 3 "0x800"]
      range64_offsets_disjoint[of 0 32 "0x6FF001" 3 "0x1000"] by auto
  let ?m = "mem_write (\<lambda>_. 0) 0x700001 [0x0F, 0x05, 0xC3]"
  have "mem_read ?m 0x700001 3 = [0x0F, 0x05, 0xC3]"
    using mem_read_write_same[of "[0x0F, 0x05, 0xC3]" "\<lambda>_. 0" "0x700001"]
    by (simp add: numeral_3_eq_3)
  moreover have "mem_write (mem_write ?m 0x800 [0x55]) 0x1000 example_function 0x800 = 0x55"
    by (subst mem_write_outside) (simp_all add: bytes in_range64, simp add: mem_write_def)
  ultimately show "target_ready example_start"
    using gadget by (simp add: target_ready_def example_start_def ref_init_def example_libc bytes
        mem_read_write_disjoint)
  show "mem_read (rw_mem example_start) 0x1000 32 = example_function"
    using mem_read_write_same[of example_function "mem_write ?m 0x800 [0x55]" "0x1000"]
    by (simp add: example_start_def bytes)
qed (simp_all add: example_start_def ref_init_def)

lemma example_jump: "lp_x86_64_make_rel_jmp 0x1000 0x100988B0 = Inr (0xE9 # le32 0x100978AB)"
  by (simp add: lp_x86_64_make_rel_jmp_def LP_X86_64_JMP_REL32_SIZE_def)

lemma ref_install:
  assumes "target_ready w" and "rw_attached w = [42]" and "rw_brk w = 0x10000000"
    and "g_probe_table s ! 0 = example_found" and "m_world s = w" and "g_probe_table s \<noteq> []"
  shows "lp_install_remote_runtime ref_kernel 42 0 s = (Inr (),
      s\<lparr>m_world := (called w)\<lparr>rw_brk := 0x1009A8B0,
           rw_mem := write_list example_image (rw_mem (called w))\<rparr>,
        g_probe_table := (g_probe_table s)[0 := example_attached]\<rparr>)"
proof -
  let ?w1 = "(called w)\<lparr>rw_brk := 0x1009A8B0\<rparr>"
  have "target_ready w \<and> 42 \<in> set (rw_attached w)" using assms(1,2) by simp
  then have map: "lp_remote_mmap ref_kernel 42 633008 PROT_RWX OUT w = (Inr 0x10000000, ?w1)"
    using assms(3) ref_mmap by blast
  have wr: "write_runtime ref_kernel 42 example_attached example_trampoline (entry_code example_attached)
      (ret_code example_attached) ?w1 = (Inr (), ?w1\<lparr>rw_mem := write_list example_image (rw_mem ?w1)\<rparr>)"
    using ref_write_runtime[of ?w1 42] example_image_ok(1) assms(1)
    by (simp add: example_image_def called_def target_ready_def)
  show ?thesis
    using map wr example_stubs(1) assms(4-6) example_layout
    by (simp add: lp_install_remote_runtime_def layout_init_eq[of any_layout 0] bindE_def liftE_def
        in_world_def get_slot_def put_slot_def built_stubs_def example_attached_def[symmetric])
qed

lemma ref_inject:
  assumes "target_ready w" and "rw_attached w = [42]" and "rw_brk w = 0x10000000"
    and "mem_read (rw_mem w) 0x1000 32 = example_function"
    and "g_probe_table s ! 0 = (new_desc 0 example_spec)\<lparr>d_target_addr := 0x1000\<rparr>" and "m_world s = w"
    and "g_probe_table s \<noteq> []"
  shows "\<exists>m. inject_probe ref_kernel 42 0 s = (Inr (),
      s\<lparr>m_world := (called w)\<lparr>rw_brk := 0x1009A8B0, rw_mem := m\<rparr>,
        g_probe_table := (g_probe_table s)[0 := example_attached]\<rparr>) \<and>
      (\<forall>x. x = 0x800 \<or> x \<in> range64 0x700001 3 \<longrightarrow> m x = rw_mem w x)"
proof -
  let ?d0 = "(new_desc 0 example_spec)\<lparr>d_target_addr := 0x1000\<rparr>"
  let ?s1 = "s\<lparr>g_probe_table := (g_probe_table s)[0 := example_found]\<rparr>"
  let ?w1 = "(called w)\<lparr>rw_brk := 0x1009A8B0\<rparr>"
  let ?m1 = "write_list example_image (rw_mem ?w1)"
  have vm: "rw_vm w" and s0: "0 < length (g_probe_table s)"
    using assms(1,7) by (simp_all add: target_ready_def)
  have rd: "lp_x86_64_read_original_code ref_kernel 42 ?d0 5 w = (Inr example_found, w)"
    using vm assms(4) ref_read_mem[of w 42 "0x1000" 32]
    by (simp add: lp_x86_64_read_original_code_def Let_def LP_X86_64_JMP_REL32_SIZE_def bindE_def
        lp_remote_read_def LP_MAX_ORIGINAL_CODE_def liftE_def example_patch_len retE_def
        example_found_def new_desc_def zero_desc_def)
  have install: "lp_install_remote_runtime ref_kernel 42 0 ?s1 = (Inr (),
      s\<lparr>m_world := ?w1\<lparr>rw_mem := ?m1\<rparr>, g_probe_table := (g_probe_table s)[0 := example_attached]\<rparr>)"
    using ref_install[OF assms(1-3), of ?s1] s0 assms(6) by simp
  have idle: "s\<lparr>m_world := w, g_probe_table := t\<rparr> = s\<lparr>g_probe_table := t\<rparr>" for t
    using assms(6) by (cases s) simp
  let ?m2 = "mem_write ?m1 0x1000 (0xE9 # le32 0x100978AB)"
  have patch: "lp_x86_64_patch_entry ref_kernel 42 example_attached (?w1\<lparr>rw_mem := ?m1\<rparr>) =
      (Inr (), ?w1\<lparr>rw_mem := ?m2\<rparr>)"
    using vm by (simp add: lp_x86_64_patch_entry_def example_attached_fields LP_X86_64_JMP_REL32_SIZE_def
        example_jump liftE_def bindE_def lp_remote_write_def ref_write called_def)
  have "inject_probe ref_kernel 42 0 s = (Inr (),
      s\<lparr>m_world := ?w1\<lparr>rw_mem := ?m2\<rparr>, g_probe_table := (g_probe_table s)[0 := example_attached]\<rparr>)"
    using rd install patch s0 assms(5,6)
    by (simp add: idle inject_probe_def bindE_def get_slot_def put_slot_def in_world_def LP_X86_64_JMP_REL32_SIZE_def)
  moreover have "?m2 x = rw_mem w x" if "x = 0x800 \<or> x \<in> range64 0x700001 3" for x
  proof -
    have "x = 0x800 \<or> x = 0x700001 \<or> x = 0x700002 \<or> x = 0x700003"
      using that by (auto simp: range64_def less_Suc_eq numeral_3_eq_3)
    then have "x \<notin> range64 0x1000 5 \<and> x \<notin> range64 0x10000000 633008 \<and> x \<notin> range64 0x2FF8 8"
      by (elim disjE) (simp_all add: in_range64)
    then show ?thesis
      by (simp add: mem_write_outside example_image_ok(2) called_def)
  qed
  ultimately show ?thesis by blast
qed

definition empty_manager :: "ref_world manager" where
  "empty_manager = \<lparr>m_world = example_start, g_probe_table = init_table\<rparr>"

definition attached_table :: "probe_desc list" where
  "attached_table = init_table[0 := example_attached]"

definition saved :: "probe_desc list \<Rightarrow> ref_world \<Rightarrow> ref_world" where
  "saved t w = w\<lparr>rw_out := [(2, LP_STATE_FILE)],
     rw_files := AList.update LP_STATE_FILE (enc_state t) (rw_files w)\<rparr>"

lemma ref_save:
  "lp_probe_manager_save ref_kernel s = (Inr (), s\<lparr>m_world := saved (g_probe_table s) (m_world s)\<rparr>)"
  by (simp add: lp_probe_manager_save_def ref_kernel_def ref_fwrite_def update_conv' saved_def)

lemma target_ready_saved: "target_ready w \<Longrightarrow> target_ready (saved t w)"
proof -
  have "maps_path 42 \<noteq> LP_STATE_FILE" "ascii ''/lib/libc.so.6'' \<noteq> LP_STATE_FILE" by code_simp+
  then show "target_ready w \<Longrightarrow> target_ready (saved t w)"
    by (simp add: target_ready_def saved_def update_conv')
qed

lemma target_ready_threads: "target_ready w \<Longrightarrow> target_ready (held w) \<and> target_ready (released w)"
  by (simp add: target_ready_def held_def released_def)

lemma init_table_simps:
  "d \<in> set init_table \<Longrightarrow> d_pid d = 0" "init_table[0 := zero_desc] = init_table"
  "first_slot (\<lambda>d. d_pid d = 0) 0 (take LP_MAX_PROBES init_table) = Some 0"
  "init_table \<noteq> []"
proof -
  show "init_table \<noteq> []" by (simp add: init_table_def LP_MAX_PROBES_def)
  show "first_slot (\<lambda>d. d_pid d = 0) 0 (take LP_MAX_PROBES init_table) = Some 0"
    by (simp add: init_table_def LP_MAX_PROBES_def upt_rec zero_desc_def)
  show "d \<in> set init_table \<Longrightarrow> d_pid d = 0" by (auto simp: init_table_def zero_desc_def)
  have "zero_desc\<lparr>d_probe_id := 0\<rparr> = zero_desc" by (simp add: zero_desc_def)
  then show "init_table[0 := zero_desc] = init_table"
    by (simp add: init_table_def LP_MAX_PROBES_def upt_rec)
qed

lemma example_spec_fields:
  "sp_pid example_spec = 42" "sp_func_name example_spec = ascii ''f''"
  "sp_target_addr_override example_spec = 0x1000"
  by (simp_all add: example_spec_def)

lemma attached_slot: "attached_table ! 0 = example_attached" "init_table[0 := d] ! 0 = d"
  "(replicate LP_MAX_PROBES zero_desc)[0 := d] ! 0 = d"
  by (simp_all add: attached_table_def init_table_def LP_MAX_PROBES_def)

lemma example_attach:
  "\<exists>w. lp_probe_attach ref_kernel example_spec empty_manager =
       (Inr example_attached, \<lparr>m_world = w, g_probe_table = attached_table\<rparr>) \<and>
     target_ready w \<and> rw_attached w = [] \<and> rw_stopped w = []"
proof -
  let ?zero = "init_table"
  let ?d0 = "(new_desc 0 example_spec)\<lparr>d_target_addr := 0x1000\<rparr>"
  let ?s1 = "\<lparr>m_world = held example_start, g_probe_table = ?zero[0 := ?d0]\<rparr>"
  have none: "lp_probe_manager_find 42 (ascii ''f'') ?zero = None"
    using init_table_simps(1) by (fastforce simp: lp_probe_manager_find_def first_slot_None dest: in_set_takeD)
  have alloc: "lp_probe_manager_alloc example_spec empty_manager =
    (Inr 0, empty_manager\<lparr>g_probe_table := ?zero[0 := new_desc 0 example_spec]\<rparr>)"
    by (simp add: lp_probe_manager_alloc_def empty_manager_def init_table_simps)
  have ready: "target_ready (held example_start)"
    using example_start(1) target_ready_threads by blast
  from ref_inject[of "held example_start" ?s1] obtain m where
    inject: "inject_probe ref_kernel 42 0 ?s1 = (Inr (), \<lparr>m_world = (called (held example_start))\<lparr>rw_brk := 0x1009A8B0, rw_mem := m\<rparr>,
        g_probe_table = attached_table\<rparr>)"
    and m: "\<forall>x. x = 0x800 \<or> x \<in> range64 0x700001 3 \<longrightarrow> m x = rw_mem (held example_start) x"
    using ready example_start init_table_simps(4) by (auto simp: held_def attached_table_def attached_slot)
  let ?w2 = "(called (held example_start))\<lparr>rw_brk := 0x1009A8B0, rw_mem := m\<rparr>"
  have ready2: "target_ready ?w2"
    using target_ready_cong[OF ready, of m] m by (simp add: target_ready_def called_def)
  have resume: "lp_resume_all_threads ref_kernel 42 ?w2 = (Inr (), released ?w2)"
    using ready2 by (intro ref_resume) (simp_all add: called_def held_def)
  have "lp_probe_attach ref_kernel example_spec empty_manager =
       (Inr example_attached, \<lparr>m_world = saved attached_table (released ?w2), g_probe_table = attached_table\<rparr>)"
    using none alloc ref_stop[OF example_start(1,2,3)] inject resume
    by (simp add: lp_probe_attach_def attach_slot_def Let_def bindE_def on_fail_def ignoreE_def in_world_def
      get_slot_def put_slot_def resolve_target_def retE_def ref_save example_spec_fields empty_manager_def
      attached_slot)
  moreover have "target_ready (saved attached_table (released ?w2))"
    using ready2 target_ready_saved target_ready_threads by blast
  moreover have "rw_attached (saved attached_table (released ?w2)) = []"
    "rw_stopped (saved attached_table (released ?w2)) = []"
    by (simp_all add: saved_def released_def called_def held_def)
  ultimately show ?thesis by blast
qed

lemma example_detach:
  assumes "target_ready w" and "rw_attached w = []" and "rw_stopped w = []"
  shows "\<exists>w'. lp_probe_detach ref_kernel (Some 0) \<lparr>m_world = w, g_probe_table = attached_table\<rparr> =
       (Inr (), \<lparr>m_world = w', g_probe_table = init_table\<rparr>)"
proof -
  let ?d = example_attached
  let ?w1 = "held w"
  let ?w2 = "?w1\<lparr>rw_mem := mem_write (rw_mem w) 0x1000 (take 8 example_function)\<rparr>"
  have ready1: "target_ready ?w1" using assms(1) target_ready_threads by blast
  have len: "length (take 8 example_function) = 8" by (simp add: example_function_def)
  have ready2: "target_ready ?w2"
    using target_ready_mem[OF ready1, of "take 8 example_function" "0x1000"] len
      range64_offsets_disjoint[of 0 8 "0x6FF001" 3 "0x1000"]
    by (simp add: in_range64 held_def Int_commute)
  have "lp_x86_64_restore_entry ref_kernel 42 ?d ?w1 = (Inr (), ?w2)"
    using ready1 len
    by (simp add: lp_x86_64_restore_entry_def example_attached_fields LP_MAX_ORIGINAL_CODE_def
        lp_remote_write_def ref_write target_ready_def held_def example_function_def)
  moreover have "lp_remote_munmap ref_kernel 42 0x10000000 633008 ?w2 = (Inr (), called ?w2)"
    using ready2 by (intro ref_munmap) (simp_all add: held_def)
  moreover have "lp_resume_all_threads ref_kernel 42 (called ?w2) = (Inr (), released (called ?w2))"
    using target_ready_called[OF ready2] by (intro ref_resume) (simp_all add: called_def held_def)
  ultimately show ?thesis
    using ref_stop[OF assms]
    by (simp add: lp_probe_detach_def Let_def bindE_def on_fail_def ignoreE_def in_world_def get_slot_def
        attached_slot example_attached_fields lp_cleanup_remote_runtime_best_effort_def
        lp_probe_manager_remove_def put_slot_def ref_save retE_def)
      (simp add: attached_table_def init_table_simps)
qed


definition attached_world :: ref_world where
  "attached_world = m_world (snd (lp_probe_attach ref_kernel example_spec empty_manager))"

definition attached_manager :: "ref_world manager" where
  "attached_manager = \<lparr>m_world = attached_world, g_probe_table = attached_table\<rparr>"

lemma example_run:
  "lp_probe_attach ref_kernel example_spec empty_manager = (Inr example_attached, attached_manager)"
  "target_ready attached_world" "rw_attached attached_world = []" "rw_stopped attached_world = []"
  using example_attach by (auto simp: attached_world_def attached_manager_def)

lemma example_undo:
  "\<exists>w. lp_probe_detach ref_kernel (Some 0) attached_manager =
     (Inr (), \<lparr>m_world = w, g_probe_table = init_table\<rparr>)"
  unfolding attached_manager_def by (rule example_detach[OF example_run(2-4)])

section \<open>The theorems at this run\<close>

lemma example_spec_proper: "proper_spec example_spec"
  by (simp add: proper_spec_def proper_name_def example_spec_def ascii_def LP_MAX_NAME_def)

lemma example_missing: "c_fopen_r ref_kernel LP_STATE_FILE example_start = (Inl ENOENT, example_start)"
proof -
  have "maps_path 42 \<noteq> LP_STATE_FILE" "ascii ''/lib/libc.so.6'' \<noteq> LP_STATE_FILE" by code_simp+
  then show ?thesis by (simp add: ref_kernel_def example_start_def example_files_def ref_init_def)
qed

text \<open>The program starts with no state file.\<close>

lemma example_load:
  "lp_probe_manager_load ref_kernel \<lparr>m_world = example_start, g_probe_table = t\<rparr> = (Inr (), empty_manager)"
  by (simp add: lp_probe_manager_load_def example_missing lp_probe_manager_init_def empty_manager_def)

lemma example_reachable: "reachable ref_kernel empty_manager" "reachable ref_kernel attached_manager"
proof -
  have "reachable ref_kernel \<lparr>m_world = example_start, g_probe_table = replicate LP_MAX_PROBES zero_desc\<rparr>"
    by (rule reachable.start)
  from reachable.load_missing[OF this] show empty: "reachable ref_kernel empty_manager"
    using example_load by (simp add: example_missing)
  show "reachable ref_kernel attached_manager"
    using empty example_spec_proper example_run(1) by (rule reachable.attach)
qed

lemma example_tables:
  "table_inv (g_probe_table empty_manager) \<and> probe_map (g_probe_table empty_manager) = Map.empty"
  "table_inv attached_table \<and> probe_map attached_table = [(42, ascii ''f'') \<mapsto> example_attached]"
proof -
  show empty: "table_inv (g_probe_table empty_manager) \<and> probe_map (g_probe_table empty_manager) = Map.empty"
    using table_inv_init probe_map_init by (simp add: empty_manager_def)
  show "table_inv attached_table \<and> probe_map attached_table = [(42, ascii ''f'') \<mapsto> example_attached]"
    using attach_table[OF _ example_spec_proper example_run(1)] empty
    by (simp add: attached_manager_def spec_key_def example_spec_fields)
qed



lemma detach_refines_delete_witness:
  "let (r, s) = lp_probe_detach ref_kernel (Some 0) attached_manager
   in r = Inr () \<and> probe_map (g_probe_table s) = Map.empty"
proof -
  obtain w where run: "lp_probe_detach ref_kernel (Some 0) attached_manager =
     (Inr (), \<lparr>m_world = w, g_probe_table = init_table\<rparr>)"
    using example_undo by blast
  have slot: "used_desc (g_probe_table attached_manager ! 0)"
    "probe_key (g_probe_table attached_manager ! 0) = (42, ascii ''f'')"
    by (simp_all add: attached_manager_def attached_slot example_attached_fields used_desc_def probe_key_def)
      (simp add: attached_defs name_field_def LP_MAX_NAME_def ascii_def cstr_of_def)
  show ?thesis
    using detach_refines_delete[OF _ _ slot(1) run] example_tables(2) slot(2) run
    by (simp add: attached_manager_def LP_MAX_PROBES_def Let_def)
qed

lemma ref_stop_regs:
  assumes "stop_all_threads ref_kernel p w = (r, w')"
  shows "rw_regs w' = rw_regs w"
proof -
  have "preserves (\<lambda>v. rw_regs v = rw_regs w) (stop_all_threads ref_kernel p)"
    by (rule threads_preserve)
       (auto intro!: preservesI simp: ref_kernel_def ref_attach_def ref_detach_def ref_waitpid_def
         split: if_splits)
  from preservesD[OF this refl assms] show ?thesis .
qed

lemma example_busy:
  assumes "target_ready v" and "rw_regs w = rw_regs v" and "stop_all_threads ref_kernel p w = (r, w')"
  shows "r_rsp (rw_regs w') - 8 = 0x2FF8 \<and> r_rip (rw_regs w') = 0x800"
  using ref_stop_regs[OF assms(3)] assms(1,2) by (simp add: target_ready_def)

lemma example_code_free:
  "range64 (d_target_addr example_attached) LP_MAX_ORIGINAL_CODE \<inter> range64 0x2FF8 8 = {}"
  "0x800 \<notin> range64 (d_target_addr example_attached) LP_MAX_ORIGINAL_CODE"
  "range64 (d_target_addr example_attached) LP_MAX_ORIGINAL_CODE \<inter>
     range64 (d_runtime_base_addr example_attached) 633008 = {}"
  using range64_offsets_disjoint[of 0 32 "0x1FF8" 8 "0x1000"]
    range64_offsets_disjoint[of 0 32 "0xFFFF000" 633008 "0x1000"]
  by (simp_all add: example_attached_fields LP_MAX_ORIGINAL_CODE_def in_range64)

lemma attach_patches_only_entry_witness:
  "let (r, s) = lp_probe_attach ref_kernel example_spec empty_manager
   in r = Inr example_attached \<and> mem_read (rw_mem (m_world s)) 0x1000 5 = 0xE9 # le32 0x100978AB \<and>
      rw_mem (m_world s) 0x1005 = rw_mem example_start 0x1005"
proof -
  have stack: "range64 (r_rsp (rw_regs v') - 8) 8 \<subseteq> range64 0x2FF8 8"
    if "rw_mem v = rw_mem (m_world empty_manager)" "rw_regs v = rw_regs (m_world empty_manager)"
      "stop_all_threads ref_kernel (sp_pid example_spec) v = (Inr (), v')" for v v'
    using example_busy[OF example_start(1) _ that(3)] that(2) by (simp add: empty_manager_def)
  have free: "range64 (d_target_addr example_attached) LP_MAX_ORIGINAL_CODE \<inter> ({} \<union> range64 0x2FF8 8) = {}"
    using example_code_free by simp
  let ?d = example_attached
  have "let t = d_target_addr ?d; m = rw_mem (m_world empty_manager); m' = rw_mem (m_world attached_manager)
    in (\<exists>n. holds_code ?d (mem_read m t n)) \<and>
       (\<exists>jump. lp_x86_64_make_rel_jmp t (d_entry_stub_addr ?d) = Inr jump \<and> mem_read m' t 5 = jump) \<and>
       (\<forall>x. x \<notin> {} \<union> range64 0x2FF8 8 \<union> range64 (d_runtime_base_addr ?d) 633008 \<union> range64 t 5 \<longrightarrow>
          m' x = m x)"
    by (rule attach_patches_only_entry[OF ref.kernel_exec_axioms example_run(1) stack free])
  then show ?thesis
    using example_run(1)
    by (simp add: example_attached_fields example_spec_fields example_jump empty_manager_def Let_def in_range64)
qed

lemma attach_detach_restores_code_witness:
  "let (r, s) = lp_probe_attach ref_kernel example_spec empty_manager;
       (r', s') = lp_probe_detach ref_kernel (Some 0) s
   in r = Inr example_attached \<and> r' = Inr () \<and> rw_mem (m_world s') 0x1000 = rw_mem example_start 0x1000"
proof -
  obtain w where run: "lp_probe_detach ref_kernel (Some 0) attached_manager =
     (Inr (), \<lparr>m_world = w, g_probe_table = init_table\<rparr>)"
    using example_undo by blast
  let ?busy = "range64 0x2FF8 8 \<union> {0x800}"
  have busy: "range64 (r_rsp (rw_regs v') - 8) 8 \<union> {r_rip (rw_regs v')} \<subseteq> ?busy"
    if "v = m_world attached_manager \<or> rw_mem v = rw_mem (m_world empty_manager) \<and>
          rw_regs v = rw_regs (m_world empty_manager)"
      "stop_all_threads ref_kernel (sp_pid example_spec) v = (Inr (), v')" for v v'
    using example_busy[OF example_start(1) _ that(2)] example_busy[OF example_run(2) _ that(2)] that(1)
    by (auto simp: empty_manager_def attached_manager_def)
  have free: "range64 (d_target_addr example_attached) LP_MAX_ORIGINAL_CODE \<inter>
      ({} \<union> ?busy \<union> range64 (d_runtime_base_addr example_attached) 633008) = {}"
    using example_code_free by blast
  have slot: "g_probe_table attached_manager ! 0 = example_attached"
    by (simp add: attached_manager_def attached_slot)
  have at: "0x1000 \<in> range64 (d_target_addr example_attached) LP_MAX_ORIGINAL_CODE"
    by (simp add: example_attached_fields LP_MAX_ORIGINAL_CODE_def in_range64)
  have "rw_mem (m_world \<lparr>m_world = w, g_probe_table = init_table\<rparr>) 0x1000 =
      rw_mem (m_world empty_manager) 0x1000"
    by (rule attach_detach_restores_code[OF ref.kernel_exec_axioms example_run(1) slot run refl busy free at])
  then show ?thesis
    using example_run(1) run by (simp add: empty_manager_def)
qed

definition installing :: "ref_world manager" where
  "installing = \<lparr>m_world = held example_start, g_probe_table = replicate LP_MAX_PROBES example_found\<rparr>"


lemma switch_sets_flag_only_witness:
  "let (r, s) = set_probe_enabled ref_kernel (Some 0) 0 attached_manager
   in r = Inr () \<and> cfg_enabled (dec_config (mem_read (rw_mem (m_world s)) 0x10000000 24)) = 0 \<and>
      rw_mem (m_world s) 0x10000004 = rw_mem (m_world attached_manager) 0x10000004"
proof -
  have "le32 0 \<noteq> []" using length_le32[of 0] by force
  then obtain s where run: "set_probe_enabled ref_kernel (Some 0) 0 attached_manager = (Inr (), s)"
    using example_run(2)
    by (simp add: set_probe_enabled_def get_slot_def attached_manager_def attached_slot bindE_def
        in_world_def lp_update_remote_enabled_def example_attached_fields lp_runtime_config_enabled_addr_def
        offsetof_config_enabled_def lp_remote_write_def ref_write target_ready_def put_slot_def ref_save)
  from switch_sets_flag_only[OF ref.kernel_exec_axioms run] run show ?thesis
    by (simp add: Let_def attached_manager_def attached_slot example_attached_fields
        lp_runtime_config_set_enabled_def in_range64)
qed

text \<open>
  A kernel whose listing never changes. The function at \<open>0x1000\<close> is all prefixes and does not
  decode, so that the attach fails when the thread is stopped already; and a descriptor without
  code, so that the detach fails there.
\<close>

definition quiet_kernel :: "ref_world kernel" where
  "quiet_kernel = ref_kernel\<lparr>sys_opendir := (\<lambda>path w. (Inr (3, [print_d 42]), w))\<rparr>"

interpretation quiet_threads: kernel_threads quiet_kernel "\<lambda>w. set (rw_stopped w) \<inter> set (rw_attached w)"
proof
qed (use ref_threads.kernel_threads_axioms in \<open>simp_all add: quiet_kernel_def kernel_threads_def keeps_def\<close>)

definition bad_code :: "probe_desc \<Rightarrow> ref_world manager" where
  "bad_code d = \<lparr>m_world = ref_init\<lparr>rw_mem := (\<lambda>_. 0x26)\<rparr>,
     g_probe_table = (replicate LP_MAX_PROBES zero_desc)[0 := d]\<rparr>"

lemma quiet_listing: "sys_opendir quiet_kernel path w = (Inr (3, [print_d 42]), w)" "listed [print_d 42] = [42]"
  by (simp_all add: quiet_kernel_def task_tid_print)

lemma quiet_calls:
  "rw_attached w = [] \<Longrightarrow> rw_stopped w = [] \<Longrightarrow> rw_gone w = [] \<Longrightarrow>
   lp_stop_all_threads quiet_kernel 42 w = (Inr (), held w)"
  "rw_attached w = [42] \<Longrightarrow> rw_stopped w = [42] \<Longrightarrow> lp_resume_all_threads quiet_kernel 42 w = (Inr (), released w)"
  by (simp_all add: lp_stop_all_threads_def stop_all_threads_def quiet_kernel_def ref_kernel_def bindE_def
      task_tid_print MAX_ATTACHED_def attach_one_thread_def ref_attach_def on_fail_def ref_waitpid_def
      WIFSTOPPED_def retE_def held_def lp_resume_all_threads_def resume_all_threads_def ref_detach_def
      released_def)

lemma undecodable: "lp_x86_64_calc_patch_len (Some (replicate 32 0x26)) 5 = Inl EINVAL"
  by code_simp



end
