(* ===== verification/Two_Runs.thy ===== *)
theory Two_Runs
  imports Cli Probe_Example
begin

text \<open>
  The program from outside: one process attaches a probe, another detaches it. What the second
  knows of the first is the state file.
\<close>

section \<open>Single runs\<close>

lemma main_command:
  assumes "lp_main K strerror prog (cmd # argv) s = (0, s')"
  obtains s1 where "lp_probe_manager_load K (c_manager s) = (Inr (), c_manager s1)"
    "cmd = ascii ''attach'' \<Longrightarrow> lp_cmd_attach K strerror argv s1 = (0, s')"
    "cmd = ascii ''detach'' \<Longrightarrow> lp_cmd_detach K strerror argv s1 = (0, s')"
proof -
  obtain q s1 where q: "in_manager (lp_probe_manager_load K) s = (q, s1)" by fastforce
  have "ascii ''detach'' \<noteq> ascii ''attach''" by (simp add: ascii_def)
  with q assms show thesis
    by (cases q) (auto simp: lp_main_def dest: in_manager_eq intro: that)
qed

lemma attach_command_ok:
  assumes "lp_cmd_attach K strerror argv s = (0, s')" and "parse_attach_args argv = Some spec"
  shows "\<exists>d. lp_probe_attach K spec (c_manager s) = (Inr d, c_manager s')"
  using assms
  by (auto simp: lp_cmd_attach_def split: prod.splits sum.splits dest!: in_manager_eq)

lemma detach_command_ok:
  assumes "lp_cmd_detach K strerror argv s = (0, s')" and "parse_pid_func argv = Some (pid, func)"
  shows "\<exists>i. lp_probe_manager_find pid func (g_probe_table (c_manager s)) = Some i \<and>
    lp_probe_detach K (Some i) (c_manager s) = (Inr (), c_manager s')"
  using assms
  by (auto simp: lp_cmd_detach_def find_probe_def split: option.splits prod.splits sum.splits
      dest!: in_manager_eq)

context kernel_exec
begin

lemma load_view:
  assumes "lp_probe_manager_load K t = (r, t')"
  shows "mem (m_world t') p = mem (m_world t) p \<and> regs (m_world t') p = regs (m_world t) p"
  using assms keepsD[OF file_calls(6)[of p]] keepsD[OF file_calls(7)[of p]]
  by (fastforce simp: lp_probe_manager_load_def lp_probe_manager_init_def
      split: prod.splits sum.splits if_splits)

end

text \<open>A successful attach has saved the table that holds its probe.\<close>

lemma attach_saved:
  assumes "kernel_store K contents" and "lp_probe_attach K spec t = (Inr d, t')"
  shows "contents (m_world t') LP_STATE_FILE = Some (enc_state (g_probe_table t'))"
proof -
  from assms(2) obtain t1 u where "lp_probe_manager_save K t1 = (Inr u, t')"
    by (auto simp: lp_probe_attach_def attach_slot_def Let_def bindE_eq retE_def split: if_splits)
  from kernel_store.save_stored[OF assms(1) this] save_table[OF this] show ?thesis by simp
qed

section \<open>Properties\<close>

text \<open>
  C8: detaching undoes attaching across two runs of the program. When \<^verbatim>\<open>lightprobe attach\<close> exits
  with 0, and later, in a new process with the state file and the code of the target left alone,
  \<^verbatim>\<open>lightprobe detach\<close> for the same function exits with 0, then every byte of the 32 at the
  function is what it was before the first run, and the probe is gone from the table, which is
  otherwise the one that the first run left. The threads must not be stopped inside the code
  (\<open>busy\<close> is where they are stopped), and the runtime must not overlap it.
\<close>

theorem attach_then_detach_restores:
  assumes "kernel_exec K mem regs dirty" and "kernel_store K contents"
    and "reachable K (c_manager s)" and "state_saved K (m_world (c_manager s))"
    and "parse_attach_args argv = Some spec" and "proper_name (sp_func_name spec)"
    and "parse_pid_func argv' = Some (sp_pid spec, sp_func_name spec)"
    and "lp_main K strerror prog (ascii ''attach'' # argv) s = (0, s1)"
    and "probe_map (g_probe_table (c_manager s1)) (spec_key spec) = Some d"
    and "lp_main K strerror prog' (ascii ''detach'' # argv') s2 = (0, s3)"
    and "contents (m_world (c_manager s2)) LP_STATE_FILE = contents (m_world (c_manager s1)) LP_STATE_FILE"
    and "\<And>x. x \<in> range64 (d_target_addr d) LP_MAX_ORIGINAL_CODE \<Longrightarrow>
           mem (m_world (c_manager s2)) (sp_pid spec) x = mem (m_world (c_manager s1)) (sp_pid spec) x"
    and "\<And>w0 w w'. w0 = m_world (c_manager s) \<or> w0 = m_world (c_manager s2) \<Longrightarrow>
           mem w (sp_pid spec) = mem w0 (sp_pid spec) \<Longrightarrow> regs w (sp_pid spec) = regs w0 (sp_pid spec) \<Longrightarrow>
           stop_all_threads K (sp_pid spec) w = (Inr (), w') \<Longrightarrow>
           range64 (r_rsp (regs w' (sp_pid spec)) - 8) 8 \<union> {r_rip (regs w' (sp_pid spec))} \<subseteq> busy"
    and "range64 (d_target_addr d) LP_MAX_ORIGINAL_CODE \<inter>
           (dirty \<union> busy \<union> range64 (d_runtime_base_addr d) 633008) = {}"
    and "x \<in> range64 (d_target_addr d) LP_MAX_ORIGINAL_CODE"
  shows "mem (m_world (c_manager s3)) (sp_pid spec) x = mem (m_world (c_manager s)) (sp_pid spec) x \<and>
    probe_map (g_probe_table (c_manager s3)) = (probe_map (g_probe_table (c_manager s1)))(spec_key spec := None)"
proof -
  let ?p = "sp_pid spec" and ?t1 = "g_probe_table (c_manager s1)"
  obtain sl where load1: "lp_probe_manager_load K (c_manager s) = (Inr (), c_manager sl)"
    and run1: "lp_cmd_attach K strerror argv sl = (0, s1)"
    using main_command[OF assms(8)] by blast
  obtain sm where load2: "lp_probe_manager_load K (c_manager s2) = (Inr (), c_manager sm)"
    and run2: "lp_cmd_detach K strerror argv' sm = (0, s3)"
    using main_command[OF assms(10)] by blast
  obtain d' where attach: "lp_probe_attach K spec (c_manager sl) = (Inr d', c_manager s1)"
    using attach_command_ok[OF run1 assms(5)] by blast
  obtain i where find: "lp_probe_manager_find ?p (sp_func_name spec) (g_probe_table (c_manager sm)) = Some i"
    and detach: "lp_probe_detach K (Some i) (c_manager sm) = (Inr (), c_manager s3)"
    using detach_command_ok[OF run2 assms(7)] by blast
  have spec: "proper_spec spec" "?p \<noteq> 0"
    using assms(6) parse_attach_ok[OF assms(5)] positive_not_zero by (auto simp: proper_spec_def)
  have "table_inv (g_probe_table (c_manager sl))"
    using reachable_inv load_reachable[OF assms(3,4) load1] by blast
  from attach_table[OF this spec(1) attach] assms(9) have inv1: "table_inv ?t1" and d': "d' = d" by auto
  have "contents (m_world (c_manager s2)) LP_STATE_FILE = Some (enc_state ?t1)"
    using attach_saved[OF assms(2) attach] assms(11) by simp
  then have table: "g_probe_table (c_manager sm) = ?t1"
    using kernel_store.load_stored[OF assms(2) _ _ _ load2] table_inv_wf[OF inv1] by blast
  have slot: "?t1 ! i = d"
    using find_refines[OF inv1 spec(2) assms(6)] find assms(9) by (simp add: table spec_key_def)
  have used: "i < LP_MAX_PROBES" "used_desc (?t1 ! i)" "probe_key (?t1 ! i) = spec_key spec"
    using find_valid[OF inv1 find[unfolded table] spec(2)] assms(9) inv1 slot
      probes.smap_Some[of ?t1 "spec_key spec" d] by (auto simp: table_inv_def probe_map_def)
  have views: "mem (m_world (c_manager sl)) ?p = mem (m_world (c_manager s)) ?p"
    "regs (m_world (c_manager sl)) ?p = regs (m_world (c_manager s)) ?p"
    "mem (m_world (c_manager sm)) ?p = mem (m_world (c_manager s2)) ?p"
    "regs (m_world (c_manager sm)) ?p = regs (m_world (c_manager s2)) ?p"
    using kernel_exec.load_view[OF assms(1) load1] kernel_exec.load_view[OF assms(1) load2] by auto
  have "mem (m_world (c_manager s3)) ?p x = mem (m_world (c_manager sl)) ?p x"
  proof (rule kernel_exec.attach_detach_effect[OF assms(1) attach[unfolded d'] _ detach _ _ assms(14,15)])
    show "g_probe_table (c_manager sm) ! i = d" using table slot by simp
    show "mem (m_world (c_manager sm)) ?p y = mem (m_world (c_manager s1)) ?p y"
      if "y \<in> range64 (d_target_addr d) LP_MAX_ORIGINAL_CODE" for y
      using assms(12)[OF that] views by simp
    show "range64 (r_rsp (regs w' ?p) - 8) 8 \<union> {r_rip (regs w' ?p)} \<subseteq> busy"
      if "w = m_world (c_manager sm) \<or> mem w ?p = mem (m_world (c_manager sl)) ?p \<and>
            regs w ?p = regs (m_world (c_manager sl)) ?p"
        "stop_all_threads K ?p w = (Inr (), w')" for w w'
      using that(1) assms(13)[OF _ _ _ that(2)] views by metis
  qed
  moreover have "probe_map (g_probe_table (c_manager s3)) = (probe_map ?t1)(spec_key spec := None)"
    using detach_table_map[of "c_manager sm" i K "Inr ()" "c_manager s3"] detach table inv1 used by simp
  ultimately show ?thesis using views by simp
qed

section \<open>Two runs\<close>

definition new_process :: "ref_world \<Rightarrow> ref_world cli" where
  "new_process w =
     \<lparr>c_manager = \<lparr>m_world = w, g_probe_table = replicate LP_MAX_PROBES zero_desc\<rparr>, c_out = [], c_err = []\<rparr>"

definition attach_options :: "attach_option list" where
  "attach_options = [Pid 42, Lib (ascii ''libc.so''), Func (ascii ''f''), Addr 0x1000, Ret]"

definition attach_argv :: "cstr list" where
  "attach_argv = concat (map attach_words attach_options)"

definition detach_argv :: "cstr list" where
  "detach_argv = [ascii ''--func'', ascii ''f'', ascii ''--pid'', print_d 42]"

lemma example_argv:
  "parse_attach_args attach_argv = Some example_spec" "parse_pid_func detach_argv = Some (42, ascii ''f'')"
proof -
  have "\<forall>p. Pid p \<in> set attach_options \<longrightarrow> 0 \<le> sint p" by (simp add: attach_options_def)
  note loop = attach_loop_words[OF this, folded attach_argv_def]
  show "parse_attach_args attach_argv = Some example_spec"
    unfolding parse_attach_args_def loop by (simp add: attach_options_def example_spec_def)
  show "parse_pid_func detach_argv = Some (42, ascii ''f'')"
    by (simp add: detach_argv_def parse_pid_func_def option_words atoi_print_d)
qed

lemma example_state_file:
  "lp_probe_manager_load ref_kernel \<lparr>m_world = attached_world, g_probe_table = t\<rparr> = (Inr (), attached_manager)"
proof -
  let ?bytes = "enc_state attached_table"
  have "map_of (rw_files attached_world) LP_STATE_FILE = Some ?bytes"
    using attach_saved[OF ref_store.kernel_store_axioms example_run(1)] by (simp add: attached_manager_def)
  then have r: "c_fopen_r ref_kernel LP_STATE_FILE attached_world = (Inr (1, ?bytes), attached_world)"
    by (simp add: ref_kernel_def)
  have c: "c_fclose ref_kernel fp attached_world = (Inr (), attached_world)" for fp
    by (simp add: ref_kernel_def)
  show ?thesis
    using dec_enc_state[of attached_table] table_inv_wf[of attached_table] example_tables(2)
    by (simp add: lp_probe_manager_load_def r c attached_manager_def)
qed

lemma example_found_slot: "lp_probe_manager_find 42 (ascii ''f'') attached_table = Some 0"
proof -
  have name: "cstr_of (d_func_name example_attached) = ascii ''f''"
    by (simp add: attached_defs name_field_def LP_MAX_NAME_def ascii_def cstr_of_def)
  moreover have "proper_name (ascii ''f'')" by (simp add: proper_name_def ascii_def LP_MAX_NAME_def)
  ultimately have "strncmp_eq LP_MAX_NAME (d_func_name example_attached) (ascii ''f'')"
    by (subst strncmp_eq_iff) (simp_all add: proper_name_def)
  moreover obtain ts where "take LP_MAX_PROBES attached_table = example_attached # ts"
  proof (cases init_table)
    case (Cons d ds)
    show thesis
      by (rule that[of "take 15 ds"], unfold attached_table_def LP_MAX_PROBES_def Cons) simp
  qed (use init_table_simps(4) in simp)
  ultimately show ?thesis by (simp add: lp_probe_manager_find_def example_attached_fields)
qed

lemma example_main:
  "\<exists>s1. lp_main ref_kernel e p (ascii ''attach'' # attach_argv) (new_process example_start) = (0, s1) \<and>
    c_manager s1 = attached_manager"
  "\<exists>s3. lp_main ref_kernel e p (ascii ''detach'' # detach_argv) (new_process attached_world) = (0, s3)"
proof -
  show "\<exists>s1. lp_main ref_kernel e p (ascii ''attach'' # attach_argv) (new_process example_start) = (0, s1) \<and>
      c_manager s1 = attached_manager"
    using example_load example_argv(1) example_run(1)
    by (simp add: lp_main_def new_process_def in_manager_def lp_cmd_attach_def)
  obtain w where "lp_probe_detach ref_kernel (Some 0) attached_manager =
      (Inr (), \<lparr>m_world = w, g_probe_table = init_table\<rparr>)"
    using example_undo by blast
  moreover have "ascii ''detach'' \<noteq> ascii ''attach''" by (simp add: ascii_def)
  ultimately show "\<exists>s3. lp_main ref_kernel e p (ascii ''detach'' # detach_argv) (new_process attached_world) = (0, s3)"
    using example_state_file example_argv(2) example_found_slot
    by (simp add: lp_main_def new_process_def in_manager_def lp_cmd_detach_def find_probe_def)
      (simp add: attached_manager_def in_manager_def)
qed

lemma attach_then_detach_restores_witness:
  "let (r1, s1) = lp_main ref_kernel (\<lambda>_. []) lightprobe (ascii ''attach'' # attach_argv) (new_process example_start);
       (r2, s2) = lp_main ref_kernel (\<lambda>_. []) lightprobe (ascii ''detach'' # detach_argv)
                    (new_process (m_world (c_manager s1)))
   in r1 = 0 \<and> r2 = 0 \<and> rw_mem (m_world (c_manager s2)) 0x1000 = rw_mem example_start 0x1000"
proof -
  let ?p = 42
  obtain s1 where run1: "lp_main ref_kernel (\<lambda>_. []) lightprobe (ascii ''attach'' # attach_argv)
      (new_process example_start) = (0, s1)" and s1: "c_manager s1 = attached_manager"
    using example_main(1) by blast
  obtain s3 where run2: "lp_main ref_kernel (\<lambda>_. []) lightprobe (ascii ''detach'' # detach_argv)
      (new_process attached_world) = (0, s3)"
    using example_main(2) by blast
  let ?busy = "range64 0x2FF8 8 \<union> {0x800}"
  have reach: "reachable ref_kernel (c_manager (new_process example_start))"
    by (simp add: new_process_def reachable.start)
  have no_file: "state_saved ref_kernel (m_world (c_manager (new_process example_start)))"
    by (simp add: new_process_def state_saved_def example_missing)
  have name: "proper_name (sp_func_name example_spec)" using example_spec_proper by (simp add: proper_spec_def)
  have argv2: "parse_pid_func detach_argv = Some (sp_pid example_spec, sp_func_name example_spec)"
    using example_argv(2) by (simp add: example_spec_fields)
  have probe: "probe_map (g_probe_table (c_manager s1)) (spec_key example_spec) = Some example_attached"
    using example_tables(2) by (simp add: s1 attached_manager_def spec_key_def example_spec_fields)
  have busy: "range64 (r_rsp (rw_regs v') - 8) 8 \<union> {r_rip (rw_regs v')} \<subseteq> ?busy"
    if "w0 = m_world (c_manager (new_process example_start)) \<or> w0 = m_world (c_manager (new_process attached_world))"
      "rw_mem v = rw_mem w0" "rw_regs v = rw_regs w0"
      "stop_all_threads ref_kernel (sp_pid example_spec) v = (Inr (), v')" for w0 v v'
    using example_busy[OF example_start(1) _ that(4)] example_busy[OF example_run(2) _ that(4)] that(1,3)
    by (auto simp: new_process_def)
  have free: "range64 (d_target_addr example_attached) LP_MAX_ORIGINAL_CODE \<inter>
      ({} \<union> ?busy \<union> range64 (d_runtime_base_addr example_attached) 633008) = {}"
    using example_code_free by blast
  have at: "0x1000 \<in> range64 (d_target_addr example_attached) LP_MAX_ORIGINAL_CODE"
    by (simp add: example_attached_fields LP_MAX_ORIGINAL_CODE_def in_range64)
  have stored: "map_of (rw_files (m_world (c_manager (new_process attached_world)))) LP_STATE_FILE =
      map_of (rw_files (m_world (c_manager s1))) LP_STATE_FILE"
    and code: "\<And>x. rw_mem (m_world (c_manager (new_process attached_world))) x = rw_mem (m_world (c_manager s1)) x"
    by (simp_all add: new_process_def s1 attached_manager_def)
  have "rw_mem (m_world (c_manager s3)) 0x1000 = rw_mem (m_world (c_manager (new_process example_start))) 0x1000 \<and>
      probe_map (g_probe_table (c_manager s3)) =
        (probe_map (g_probe_table (c_manager s1)))(spec_key example_spec := None)"
    by (rule attach_then_detach_restores[OF ref.kernel_exec_axioms ref_store.kernel_store_axioms reach no_file
          example_argv(1) name argv2 run1 probe run2 stored code busy free at])
  moreover have "m_world (c_manager s1) = attached_world" by (simp add: s1 attached_manager_def)
  ultimately show ?thesis
    using run1 run2 by (simp add: new_process_def)
qed

section \<open>The other theorems on main\<close>


lemma usage_error_does_nothing_witness:
  "let (r, s) = lp_main ref_kernel (\<lambda>_. []) lightprobe [ascii ''list'', ascii ''all''] (new_process example_start)
   in r = 2 \<and> c_out s = [] \<and> c_manager s = empty_manager"
proof -
  have words: "ascii ''list'' \<noteq> ascii ''attach''" "ascii ''list'' \<noteq> ascii ''detach''" "ascii ''list'' \<noteq> ascii ''enable''"
    "ascii ''list'' \<noteq> ascii ''disable''" "ascii ''list'' \<noteq> ascii ''events''"
    by (simp_all add: ascii_def)
  obtain r s where run: "lp_main ref_kernel (\<lambda>_. []) lightprobe [ascii ''list'', ascii ''all''] (new_process example_start) = (r, s)"
    by fastforce
  then have "r = 2"
    using words example_load by (simp add: lp_main_def new_process_def in_manager_def lp_cmd_list_def)
  with usage_error_does_nothing[OF run] run example_load show ?thesis
    by (simp add: new_process_def)
qed

lemma list_shows_every_probe_witness:
  "let (r, s) = lp_cmd_list [] \<lparr>c_manager = attached_manager, c_out = [], c_err = []\<rparr>
   in r = 0 \<and> c_out s = list_heading @ list_row example_attached"
proof -
  obtain d ds where t: "init_table = d # ds" using init_table_simps(4) by (cases init_table) auto
  have "attached_table = example_attached # ds" unfolding attached_table_def t by simp
  moreover have "filter used_desc ds = []"
    using init_table_simps(1) by (auto simp: t used_desc_def filter_empty_conv)
  moreover have "used_desc example_attached" by (simp add: used_desc_def example_attached_fields)
  ultimately have used: "filter used_desc attached_table = [example_attached]"
    by (metis filter.simps(2))
  have "length attached_table = LP_MAX_PROBES" using example_tables(2) by (simp add: table_inv_def)
  then show ?thesis
    using list_shows_every_probe[of "\<lparr>c_manager = attached_manager, c_out = [], c_err = []\<rparr>"] used
    by (simp add: attached_manager_def)
qed

end
