(* ===== verification/X86_Machine.thy ===== *)
theory X86_Machine
  imports X86_Asm Memory
begin

text \<open>
  What the instructions of \<open>X86_Asm\<close> do (Intel SDM, volume 2): registers, flags and memory of one
  thread, and the runs of an assembly program. The flags that an instruction leaves undefined or
  that no program here reads, and the effect of \<^verbatim>\<open>syscall\<close>, are parameters. Nothing here translates
  a source file; it is what the stubs run on.
\<close>

section \<open>The machine\<close>

text \<open>
  \<open>m_flags\<close> are the flags that user mode can save and restore; bit 0 is the carry flag, bit 6 the
  zero flag. \<open>m_os\<close> is the state of the operating system.
\<close>

record 'o machine =
  m_reg :: "reg \<Rightarrow> u64"
  m_flags :: u64
  m_mem :: memory
  m_os :: 'o

record 'o cpu =
  c_syscall :: "'o machine \<Rightarrow> 'o machine"
  c_flags :: "instr \<Rightarrow> 'o machine \<Rightarrow> u64"

definition zero_flag :: "'o machine \<Rightarrow> bool" where "zero_flag s \<longleftrightarrow> bit (m_flags s) 6"
definition carry_flag :: "'o machine \<Rightarrow> bool" where "carry_flag s \<longleftrightarrow> bit (m_flags s) 0"

section \<open>Memory operands\<close>

definition load32 :: "memory \<Rightarrow> u64 \<Rightarrow> u32" where "load32 m a = le_word (mem_read m a 4)"
definition load64 :: "memory \<Rightarrow> u64 \<Rightarrow> u64" where "load64 m a = le_word (mem_read m a 8)"
definition store32 :: "memory \<Rightarrow> u64 \<Rightarrow> u32 \<Rightarrow> memory" where "store32 m a v = mem_write m a (le32 v)"
definition store64 :: "memory \<Rightarrow> u64 \<Rightarrow> u64 \<Rightarrow> memory" where "store64 m a v = mem_write m a (le64 v)"

lemmas access_defs = load32_def load64_def store32_def store64_def

fun disp_val :: "disp \<Rightarrow> u64" where
  "disp_val NoDisp = 0" | "disp_val (Disp8 d) = scast d" | "disp_val (Disp32 d) = scast d"

fun ea :: "(reg \<Rightarrow> u64) \<Rightarrow> mem \<Rightarrow> u64" where
  "ea r (Mem b None d) = r b + disp_val d"
| "ea r (Mem b (Some (i, scale)) d) = r b + push_bit (unat scale) (r i) + disp_val d"

section \<open>Instructions\<close>

text \<open>A write to a 32-bit register clears the upper half.\<close>

definition set_reg :: "reg \<Rightarrow> u64 \<Rightarrow> 'o machine \<Rightarrow> 'o machine" where
  "set_reg r v s = s\<lparr>m_reg := (m_reg s)(r := v)\<rparr>"

definition set_mem :: "memory \<Rightarrow> 'o machine \<Rightarrow> 'o machine" where
  "set_mem m s = s\<lparr>m_mem := m\<rparr>"

definition low :: "u64 \<Rightarrow> u32" where "low v = ucast v"

definition push :: "u64 \<Rightarrow> 'o machine \<Rightarrow> 'o machine" where
  "push v s = (let sp = m_reg s RSP - 8 in
     s\<lparr>m_reg := (m_reg s)(RSP := sp), m_mem := store64 (m_mem s) sp v\<rparr>)"

text \<open>Everything but the flags; jumps are steps of a program.\<close>

fun core :: "'o cpu \<Rightarrow> instr \<Rightarrow> 'o machine \<Rightarrow> 'o machine" where
  "core C PUSHFQ s = push (m_flags s) s"
| "core C POPFQ s = set_reg RSP (m_reg s RSP + 8) s"
| "core C (PUSH r) s = push (m_reg s r) s"
| "core C (POP r) s = set_reg r (load64 (m_mem s) (m_reg s RSP)) (set_reg RSP (m_reg s RSP + 8) s)"
| "core C (MOVABS r v) s = set_reg r v s"
| "core C (MOV_RI r v) s = set_reg r (ucast v) s"
| "core C (MOV_RR w d r) s = set_reg d (if w then m_reg s r else ucast (low (m_reg s r))) s"
| "core C (MOV_LD w r a) s =
     set_reg r (if w then load64 (m_mem s) (ea (m_reg s) a) else ucast (load32 (m_mem s) (ea (m_reg s) a))) s"
| "core C (MOV_ST w a r) s =
     set_mem (if w then store64 (m_mem s) (ea (m_reg s) a) (m_reg s r)
              else store32 (m_mem s) (ea (m_reg s) a) (low (m_reg s r))) s"
| "core C (MOV_STI w a v) s =
     set_mem (if w then store64 (m_mem s) (ea (m_reg s) a) (scast v)
              else store32 (m_mem s) (ea (m_reg s) a) v) s"
| "core C (ADD_RR d r) s = set_reg d (m_reg s d + m_reg s r) s"
| "core C (ADD_LD r a) s = set_reg r (m_reg s r + load64 (m_mem s) (ea (m_reg s) a)) s"
| "core C (SUB_RR d r) s = set_reg d (m_reg s d - m_reg s r) s"
| "core C (ADD_RI8 r v) s = set_reg r (m_reg s r + scast v) s"
| "core C (SUB_RI8 r v) s = set_reg r (m_reg s r - scast v) s"
| "core C (IMUL_RI r v) s = set_reg r (m_reg s r * scast v) s"
| "core C (AND_EAXI v) s = set_reg RAX (ucast (low (m_reg s RAX) AND v)) s"
| "core C (SHL_RI r v) s = set_reg r (push_bit (unat v mod 64) (m_reg s r)) s"
| "core C (XOR_SELF r) s = set_reg r 0 s"
| "core C (LEA r a) s = set_reg r (ea (m_reg s) a) s"
| "core C (INC w r) s = set_reg r (if w then m_reg s r + 1 else ucast (low (m_reg s r) + 1)) s"
| "core C (DEC32 r) s = set_reg r (ucast (low (m_reg s r) - 1)) s"
| "core C (LOCK_XADD a r) s =
     (let x = ea (m_reg s) a; old = load64 (m_mem s) x in
      set_reg r old (set_mem (store64 (m_mem s) x (old + m_reg s r)) s))"
| "core C (LOCK_CMPXCHG a r) s =
     (let x = ea (m_reg s) a; old = load32 (m_mem s) x in
      if old = low (m_reg s RAX) then set_mem (store32 (m_mem s) x (low (m_reg s r))) s
      else set_reg RAX (ucast old) s)"
| "core C (XCHG a r) s =
     (let x = ea (m_reg s) a in
      set_reg r (load64 (m_mem s) x) (set_mem (store64 (m_mem s) x (m_reg s r)) s))"
| "core C SYSCALL s = (c_syscall C s)\<lparr>m_flags := m_flags s\<rparr>"
| "core C _ s = s"

text \<open>The flags: zero and carry by the result, the others from the parameter.\<close>

definition with_flags :: "'o cpu \<Rightarrow> instr \<Rightarrow> 'o machine \<Rightarrow> bool \<Rightarrow> bool \<Rightarrow> u64" where
  "with_flags C i s z c =
     (c_flags C i s AND NOT 0x41) OR (if z then 0x40 else 0) OR (if c then 1 else 0)"

definition compare_flags :: "'o cpu \<Rightarrow> instr \<Rightarrow> 'o machine \<Rightarrow> 'a::len word \<Rightarrow> 'a word \<Rightarrow> u64" where
  "compare_flags C i s a b = with_flags C i s (a = b) (a < b)"

definition add_flags :: "'o cpu \<Rightarrow> instr \<Rightarrow> 'o machine \<Rightarrow> u64 \<Rightarrow> u64 \<Rightarrow> u64" where
  "add_flags C i s a b = with_flags C i s (a + b = 0) (a + b < a)"

fun new_flags :: "'o cpu \<Rightarrow> instr \<Rightarrow> 'o machine \<Rightarrow> u64" where
  "new_flags C POPFQ s = load64 (m_mem s) (m_reg s RSP)"
| "new_flags C SYSCALL s = m_flags (c_syscall C s)"
| "new_flags C (ADD_RR d r) s = add_flags C (ADD_RR d r) s (m_reg s d) (m_reg s r)"
| "new_flags C (ADD_LD r a) s = add_flags C (ADD_LD r a) s (m_reg s r) (load64 (m_mem s) (ea (m_reg s) a))"
| "new_flags C (ADD_RI8 r v) s = add_flags C (ADD_RI8 r v) s (m_reg s r) (scast v)"
| "new_flags C (LOCK_XADD a r) s =
     add_flags C (LOCK_XADD a r) s (load64 (m_mem s) (ea (m_reg s) a)) (m_reg s r)"
| "new_flags C (SUB_RR d r) s = compare_flags C (SUB_RR d r) s (m_reg s d) (m_reg s r)"
| "new_flags C (SUB_RI8 r v) s = compare_flags C (SUB_RI8 r v) s (m_reg s r) (scast v :: u64)"
| "new_flags C (IMUL_RI r v) s =
     with_flags C (IMUL_RI r v) s (bit (c_flags C (IMUL_RI r v) s) 6)
       (sint (m_reg s r * scast v) \<noteq> sint (m_reg s r) * sint v)"
| "new_flags C (AND_EAXI v) s = with_flags C (AND_EAXI v) s (low (m_reg s RAX) AND v = 0) False"
| "new_flags C (SHL_RI r v) s =
     (let n = unat v mod 64 in
      if n = 0 then m_flags s
      else with_flags C (SHL_RI r v) s (push_bit n (m_reg s r) = 0) (bit (m_reg s r) (64 - n)))"
| "new_flags C (XOR_SELF r) s = with_flags C (XOR_SELF r) s True False"
| "new_flags C (CMP_MI8 a v) s =
     compare_flags C (CMP_MI8 a v) s (load32 (m_mem s) (ea (m_reg s) a)) (scast v)"
| "new_flags C (CMP_RI8 r v) s = compare_flags C (CMP_RI8 r v) s (low (m_reg s r)) (scast v)"
| "new_flags C (CMP_RI64 r v) s = compare_flags C (CMP_RI64 r v) s (m_reg s r) (scast v)"
| "new_flags C (CMP_RR32 a b) s = compare_flags C (CMP_RR32 a b) s (low (m_reg s a)) (low (m_reg s b))"
| "new_flags C (CMP_LD32 r a) s =
     compare_flags C (CMP_LD32 r a) s (low (m_reg s r)) (load32 (m_mem s) (ea (m_reg s) a))"
| "new_flags C (TEST_SELF w r) s =
     with_flags C (TEST_SELF w r) s (if w then m_reg s r = 0 else low (m_reg s r) = 0) False"
| "new_flags C (INC w r) s =
     with_flags C (INC w r) s (if w then m_reg s r + 1 = 0 else low (m_reg s r) + 1 = 0) (carry_flag s)"
| "new_flags C (DEC32 r) s = with_flags C (DEC32 r) s (low (m_reg s r) - 1 = 0) (carry_flag s)"
| "new_flags C (LOCK_CMPXCHG a r) s =
     compare_flags C (LOCK_CMPXCHG a r) s (low (m_reg s RAX)) (load32 (m_mem s) (ea (m_reg s) a))"
| "new_flags C _ s = m_flags s"

definition exec :: "'o cpu \<Rightarrow> instr \<Rightarrow> 'o machine \<Rightarrow> 'o machine" where
  "exec C i s = (core C i s)\<lparr>m_flags := new_flags C i s\<rparr>"

section \<open>Programs\<close>

text \<open>
  A program is left by \<^verbatim>\<open>ret\<close> or by a jump through a register, or ends in a trap; so does a run
  off its end, or to a label that it does not have.
\<close>

datatype ('l, 'o) config = At "'l asm list" "'o machine" | Left u64 "'o machine" | Trap "'o machine"

fun behind :: "'l \<Rightarrow> 'l asm list \<Rightarrow> 'l asm list option" where
  "behind l [] = None"
| "behind l (x # xs) = (if x = L l then Some xs else behind l xs)"

definition goto :: "'l asm list \<Rightarrow> 'l \<Rightarrow> 'o machine \<Rightarrow> ('l, 'o) config" where
  "goto p l s = (case behind l p of None \<Rightarrow> Trap s | Some q \<Rightarrow> At q s)"

fun holds :: "cc \<Rightarrow> 'o machine \<Rightarrow> bool" where
  "holds CC_E s = zero_flag s" | "holds CC_AE s = (\<not> carry_flag s)"

fun step :: "'o cpu \<Rightarrow> 'l asm list \<Rightarrow> ('l, 'o) config \<Rightarrow> ('l, 'o) config" where
  "step C p (At [] s) = Trap s"
| "step C p (At (I RET # q) s) =
     Left (load64 (m_mem s) (m_reg s RSP)) (set_reg RSP (m_reg s RSP + 8) s)"
| "step C p (At (I (JMP_R r) # q) s) = Left (m_reg s r) s"
| "step C p (At (I UD2 # q) s) = Trap s"
| "step C p (At (I i # q) s) = At q (exec C i s)"
| "step C p (At (L l # q) s) = At q s"
| "step C p (At (J l # q) s) = goto p l s"
| "step C p (At (JCC c l # q) s) = (if holds c s then goto p l s else At q s)"
| "step C p (Left a s) = Left a s"
| "step C p (Trap s) = Trap s"

definition runs :: "'o cpu \<Rightarrow> 'l asm list \<Rightarrow> ('l, 'o) config \<Rightarrow> ('l, 'o) config \<Rightarrow> bool" where
  "runs C p c c' \<longleftrightarrow> (\<exists>n. (step C p ^^ n) c = c')"

lemma runs_refl [simp]: "runs C p c c"
  unfolding runs_def by (rule exI[of _ 0]) simp

lemma runs_trans [trans]:
  assumes "runs C p a b" and "runs C p b c" shows "runs C p a c"
proof -
  obtain m n where "(step C p ^^ m) a = b" "(step C p ^^ n) b = c" using assms by (auto simp: runs_def)
  then have "(step C p ^^ (n + m)) a = c" by (simp add: funpow_add)
  then show ?thesis unfolding runs_def by blast
qed

lemma runs_step: "runs C p (step C p c) c' \<Longrightarrow> runs C p c c'"
  unfolding runs_def by (metis funpow_Suc_right comp_apply)

text \<open>A program ends in one way only.\<close>

lemma step_final: "(step C p ^^ n) (Left a s) = Left a s" "(step C p ^^ n) (Trap s) = Trap s"
  by (induction n) simp_all

lemma runs_unique:
  assumes "runs C p c (Left a s)" and "runs C p c (Left b t)"
  shows "a = b \<and> s = t"
proof -
  obtain m n where mn: "(step C p ^^ m) c = Left a s" "(step C p ^^ n) c = Left b t"
    using assms by (auto simp: runs_def)
  have "(step C p ^^ (m + n)) c = Left b t"
    by (subst funpow_add) (simp add: mn step_final)
  moreover have "(step C p ^^ (n + m)) c = Left a s"
    by (subst funpow_add) (simp add: mn step_final)
  ultimately show ?thesis by (simp add: add.commute)
qed

section \<open>Straight-line code\<close>

fun jumps :: "instr \<Rightarrow> bool" where
  "jumps RET = True" | "jumps (JMP_R r) = True" | "jumps UD2 = True" | "jumps _ = False"

fun sees_flags :: "instr \<Rightarrow> bool" where
  "sees_flags PUSHFQ = True" | "sees_flags SYSCALL = True" | "sees_flags _ = False"

definition execs :: "'o cpu \<Rightarrow> instr list \<Rightarrow> 'o machine \<Rightarrow> 'o machine" where
  "execs C is s = fold (exec C) is s"

definition cores :: "'o cpu \<Rightarrow> instr list \<Rightarrow> 'o machine \<Rightarrow> 'o machine" where
  "cores C is s = fold (core C) is s"

lemma execs_simps [simp]: "execs C [] s = s" "execs C (i # is) s = execs C is (exec C i s)"
  by (simp_all add: execs_def)

lemma execs_append: "execs C (is @ js) s = execs C js (execs C is s)"
  by (simp add: execs_def)

lemma cores_simps [simp]: "cores C [] s = s" "cores C (i # is) s = cores C is (core C i s)"
  by (simp_all add: cores_def)

lemma cores_append: "cores C (is @ js) s = cores C js (cores C is s)"
  by (simp add: cores_def)

lemma step_instr: "\<not> jumps i \<Longrightarrow> step C p (At (I i # q) s) = At q (exec C i s)"
  by (cases i) simp_all

lemma runs_code:
  assumes "list_all (\<lambda>i. \<not> jumps i) is"
  shows "runs C p (At (map I is @ q) s) (At q (execs C is s))"
  using assms
  by (induction "is" arbitrary: s) (auto intro: runs_step simp: step_instr)

text \<open>Where the flags are not read they only come along.\<close>

lemma core_flags: "\<not> sees_flags i \<Longrightarrow> core C i (s\<lparr>m_flags := f\<rparr>) = (core C i s)\<lparr>m_flags := f\<rparr>"
  by (cases i) (simp_all add: push_def set_reg_def set_mem_def Let_def)

lemma cores_flags:
  "list_all (\<lambda>i. \<not> sees_flags i) is \<Longrightarrow> cores C is (s\<lparr>m_flags := f\<rparr>) = (cores C is s)\<lparr>m_flags := f\<rparr>"
  by (induction "is" arbitrary: s) (simp_all add: core_flags)

lemma execs_cores:
  assumes "list_all (\<lambda>i. \<not> sees_flags i) is"
  shows "\<exists>f. execs C is s = (cores C is s)\<lparr>m_flags := f\<rparr>"
  using assms
proof (induction "is" arbitrary: s)
  case Nil
  show ?case by (rule exI[of _ "m_flags s"]) simp
next
  case (Cons i "is")
  then obtain f where "execs C is (exec C i s) = (cores C is (exec C i s))\<lparr>m_flags := f\<rparr>" by auto
  moreover have "cores C is (exec C i s) = (cores C is (core C i s))\<lparr>m_flags := new_flags C i s\<rparr>"
    using Cons.prems by (simp add: exec_def cores_flags)
  ultimately show ?case by auto
qed

lemma flag_bits:
  "bit (0x41 :: u64) 6" "bit (0x41 :: u64) 0" "bit (0x40 :: u64) 6" "\<not> bit (0x40 :: u64) 0"
  "\<not> bit (1 :: u64) 6" "bit (1 :: u64) 0"
  by (simp_all add: bit_iff_odd)

lemma flags_bits [simp]:
  "bit (with_flags C i t z c) 6 = z" "bit (with_flags C i t z c) 0 = c"
  "bit (compare_flags C i t a b) 6 = (a = b)" "bit (compare_flags C i t a b) 0 = (a < b)"
  by (simp_all add: with_flags_def compare_flags_def bit_or_iff bit_and_iff bit_not_iff flag_bits del: bit_0)

end
