(* ===== verification/Stub_Memory.thy ===== *)
theory Stub_Memory
  imports X86_Machine Runtime Slots
begin

text \<open>
  The memory that the stubs work on, word by word: loads behind stores, the structures of the
  runtime as the words of their fields, and the event ring and the shadow stack in memory.
\<close>

section \<open>Loads and stores\<close>

definition changed :: "u64 set \<Rightarrow> memory \<Rightarrow> memory \<Rightarrow> bool" where
  "changed A m m' \<longleftrightarrow> (\<forall>x. x \<notin> A \<longrightarrow> m' x = m x)"

lemma changed_refl [simp]: "changed A m m"
  by (simp add: changed_def)

lemma changed_trans [trans]: "changed A m m' \<Longrightarrow> changed A m' m'' \<Longrightarrow> changed A m m''"
  by (simp add: changed_def)

lemma changed_mono: "changed A m m' \<Longrightarrow> A \<subseteq> B \<Longrightarrow> changed B m m'"
  by (auto simp: changed_def)

lemma changed_write:
  "length bs \<le> 2 ^ 64 \<Longrightarrow> range64 a (length bs) \<subseteq> A \<Longrightarrow> changed A m (mem_write m a bs)"
  using mem_write_outside by (fastforce simp: changed_def)

lemma changed_store:
  "range64 a 8 \<subseteq> A \<Longrightarrow> changed A m (store64 m a v)"
  "range64 a 4 \<subseteq> A \<Longrightarrow> changed A m (store32 m a w)"
  using changed_write[of "le64 v" a A m] changed_write[of "le32 w" a A m] by (simp_all add: access_defs)

lemma read_changed:
  "changed A m m' \<Longrightarrow> range64 a n \<inter> A = {} \<Longrightarrow> mem_read m' a n = mem_read m a n"
  by (intro mem_read_cong) (auto simp: changed_def)

lemma load_changed:
  "changed A m m' \<Longrightarrow> range64 a 8 \<inter> A = {} \<Longrightarrow> load64 m' a = load64 m a"
  "changed A m m' \<Longrightarrow> range64 a 4 \<inter> A = {} \<Longrightarrow> load32 m' a = load32 m a"
  by (simp_all add: access_defs read_changed)

lemma ranges_apart:
  assumes "k \<le> unat (q - p)" and "n \<le> unat (p - q)" and "k \<le> 2 ^ 63" and "n \<le> 2 ^ 63"
  shows "range64 q n \<inter> range64 p k = {}"
proof (rule ccontr)
  assume "range64 q n \<inter> range64 p k \<noteq> {}"
  then obtain i j where ij: "i < n" "j < k" "q + of_nat i = p + of_nat j" by (auto simp: range64_def)
  show False
  proof (cases "i \<le> j")
    case True
    then have "q - p = of_nat (j - i)" using ij(3) by (simp add: of_nat_diff algebra_simps)
    then have "unat (q - p) = j - i" using ij assms by (simp add: unat_of_nat64)
    with ij assms show False by simp
  next
    case False
    then have "p - q = of_nat (i - j)" using ij(3) by (simp add: of_nat_diff algebra_simps)
    then have "unat (p - q) = i - j" using ij assms by (simp add: unat_of_nat64)
    with ij assms show False by simp
  qed
qed

lemma load_store_same [simp]:
  "load64 (store64 m a v) a = v" "load32 (store32 m a w) a = w"
  using mem_read_write_same[of "le64 v" m a] mem_read_write_same[of "le32 w" m a]
  by (simp_all add: access_defs)

lemma load_store_far:
  "8 \<le> unat (q - p) \<Longrightarrow> 8 \<le> unat (p - q) \<Longrightarrow> load64 (store64 m p v) q = load64 m q"
  "4 \<le> unat (q - p) \<Longrightarrow> 8 \<le> unat (p - q) \<Longrightarrow> load64 (store32 m p w) q = load64 m q"
  "8 \<le> unat (q - p) \<Longrightarrow> 4 \<le> unat (p - q) \<Longrightarrow> load32 (store64 m p v) q = load32 m q"
  "4 \<le> unat (q - p) \<Longrightarrow> 4 \<le> unat (p - q) \<Longrightarrow> load32 (store32 m p w) q = load32 m q"
  by (simp_all add: access_defs mem_read_write_disjoint ranges_apart)

text \<open>Loads from one area after stores to another.\<close>

lemma range_inside:
  assumes "unat x + n \<le> k"
  shows "range64 (a + x) n \<subseteq> range64 a k"
  using range64_sub[of "unat x" n k a] assms by simp

lemma apart_inside:
  assumes "range64 a j \<inter> range64 b k = {}" and "unat x + n \<le> j" and "unat y + l \<le> k"
  shows "range64 (a + x) n \<inter> range64 (b + y) l = {}"
  using assms range_inside[of x n j a] range_inside[of y l k b] by blast

lemma load_store_apart:
  assumes "range64 a j \<inter> range64 b k = {}"
  shows "unat x + 8 \<le> j \<Longrightarrow> unat y + 8 \<le> k \<Longrightarrow> load64 (store64 m (b + y) v) (a + x) = load64 m (a + x)"
    "unat x + 8 \<le> j \<Longrightarrow> unat y + 4 \<le> k \<Longrightarrow> load64 (store32 m (b + y) w) (a + x) = load64 m (a + x)"
    "unat x + 4 \<le> j \<Longrightarrow> unat y + 8 \<le> k \<Longrightarrow> load32 (store64 m (b + y) v) (a + x) = load32 m (a + x)"
    "unat x + 4 \<le> j \<Longrightarrow> unat y + 4 \<le> k \<Longrightarrow> load32 (store32 m (b + y) w) (a + x) = load32 m (a + x)"
  by (simp_all add: access_defs mem_read_write_disjoint apart_inside[OF assms])

section \<open>Byte sequences in memory\<close>

definition bytes_at :: "memory \<Rightarrow> u64 \<Rightarrow> u8 list \<Rightarrow> bool" where
  "bytes_at m a bs \<longleftrightarrow> mem_read m a (length bs) = bs"

lemma bytes_at_append:
  "bytes_at m a (bs @ cs) \<longleftrightarrow> bytes_at m a bs \<and> bytes_at m (a + of_nat (length bs)) cs"
  by (auto simp: bytes_at_def mem_read_append)

lemma bytes_at_words:
  "bytes_at m a (le64 v) \<longleftrightarrow> load64 m a = v" "bytes_at m a (le32 w) \<longleftrightarrow> load32 m a = w"
proof -
  have "le64 (load64 m a) = mem_read m a 8" "le32 (load32 m a) = mem_read m a 4"
    by (simp_all add: access_defs le64_def le32_def le_bytes_le_word)
  then show "bytes_at m a (le64 v) \<longleftrightarrow> load64 m a = v" "bytes_at m a (le32 w) \<longleftrightarrow> load32 m a = w"
    by (auto simp: bytes_at_def access_defs)
qed

lemma bytes_at_Nil [simp]: "bytes_at m a []"
  by (simp add: bytes_at_def)

lemma bytes_at_changed:
  "bytes_at m a bs \<Longrightarrow> changed A m m' \<Longrightarrow> range64 a (length bs) \<inter> A = {} \<Longrightarrow> bytes_at m' a bs"
  by (simp add: bytes_at_def read_changed)

text \<open>An array of structures of the same size.\<close>

lemma bytes_at_concat:
  assumes "\<forall>x \<in> set xs. length (f x) = w"
  shows "bytes_at m a (concat (map f xs)) \<longleftrightarrow> (\<forall>i < length xs. bytes_at m (a + of_nat (i * w)) (f (xs ! i)))"
  using assms
proof (induction xs arbitrary: a)
  case (Cons x xs)
  have "bytes_at m a (concat (map f (x # xs))) \<longleftrightarrow>
      bytes_at m a (f x) \<and> (\<forall>i < length xs. bytes_at m (a + of_nat w + of_nat (i * w)) (f (xs ! i)))"
    using Cons by (simp add: bytes_at_append)
  also have "\<dots> \<longleftrightarrow> (\<forall>i < Suc (length xs). bytes_at m (a + of_nat (i * w)) (f ((x # xs) ! i)))"
    by (simp add: All_less_Suc2 add.assoc distrib_right)
  finally show ?case by simp
qed simp

section \<open>Events and the ring\<close>

definition event_at :: "memory \<Rightarrow> u64 \<Rightarrow> probe_event \<Rightarrow> bool" where
  "event_at m a e \<longleftrightarrow> bytes_at m a (enc_event e)"

lemma upt_6: "[0..<6] = [0, 1, 2, 3, 4, 5]"
  by (simp add: upt_rec)

lemma event_at_fields:
  assumes "ev_args e = [a0, a1, a2, a3, a4, a5]"
  shows "event_at m a e \<longleftrightarrow>
     load64 m a = ev_timestamp_ns e \<and> load32 m (a + 8) = ev_pid e \<and> load32 m (a + 12) = ev_tid e \<and>
     load32 m (a + 16) = ev_probe_id e \<and> load32 m (a + 20) = ev_event_type e \<and>
     load64 m (a + 24) = a0 \<and> load64 m (a + 32) = a1 \<and> load64 m (a + 40) = a2 \<and>
     load64 m (a + 48) = a3 \<and> load64 m (a + 56) = a4 \<and> load64 m (a + 64) = a5 \<and>
     load64 m (a + 72) = ev_retval e \<and> load64 m (a + 80) = ev_duration_ns e"
  using assms
  by (simp add: event_at_def enc_event_def bytes_at_append bytes_at_words add.assoc)

definition buffer_at :: "memory \<Rightarrow> u64 \<Rightarrow> lp_event_buffer \<Rightarrow> bool" where
  "buffer_at m a b \<longleftrightarrow> wf_event_buffer b \<and> bytes_at m a (enc_event_buffer b)"

definition event_pos :: "u64 \<Rightarrow> nat \<Rightarrow> u64" where
  "event_pos a i = a + of_nat (offsetof_events + i * sizeof_probe_event)"

lemma buffer_at_fields:
  assumes "wf_event_buffer b"
  shows "buffer_at m a b \<longleftrightarrow>
     load64 m a = eb_write_index b \<and> load64 m (a + 8) = eb_capacity b \<and>
     (\<forall>i < LP_EVENT_BUFFER_CAPACITY. event_at m (event_pos a i) (eb_events b ! i))"
proof -
  have "\<forall>e \<in> set (eb_events b). length (enc_event e) = sizeof_probe_event"
    using assms event_codec.length_enc by (auto simp: wf_event_buffer_def)
  from bytes_at_concat[OF this] show ?thesis
    using assms
    by (simp add: buffer_at_def enc_event_buffer_def bytes_at_append bytes_at_words event_at_def
        event_pos_def offsetof_events_def wf_event_buffer_def add.assoc)
qed

section \<open>The shadow stack\<close>

definition entry_at :: "memory \<Rightarrow> u64 \<Rightarrow> lp_shadow_stack_entry \<Rightarrow> bool" where
  "entry_at m a e \<longleftrightarrow> bytes_at m a (enc_shadow_entry e)"

definition ret_pos :: "u64 \<Rightarrow> nat \<Rightarrow> u64" where "ret_pos a j = a + of_nat (8 + j * 8)"
definition time_pos :: "u64 \<Rightarrow> nat \<Rightarrow> u64" where "time_pos a j = a + of_nat (520 + j * 8)"

lemma entry_at_fields:
  assumes "wf_shadow_entry e"
  shows "entry_at m a e \<longleftrightarrow>
     load32 m a = ss_tid e \<and> load32 m (a + 4) = ss_depth e \<and>
     (\<forall>j < LP_SHADOW_STACK_DEPTH. load64 m (ret_pos a j) = ss_return_addrs e ! j) \<and>
     (\<forall>j < LP_SHADOW_STACK_DEPTH. load64 m (time_pos a j) = ss_entry_timestamps e ! j)"
  using assms
  by (simp add: entry_at_def enc_shadow_entry_def bytes_at_append bytes_at_words
      bytes_at_concat[where f = le64 and w = 8]
      wf_shadow_entry_def ret_pos_def time_pos_def codec64.length_concat_enc lp_sizes add.assoc)

definition shadow_at :: "memory \<Rightarrow> u64 \<Rightarrow> lp_shadow_stack \<Rightarrow> bool" where
  "shadow_at m a ss \<longleftrightarrow>
     length ss = LP_SHADOW_STACK_THREADS \<and> (\<forall>e \<in> set ss. wf_shadow_entry e) \<and>
     bytes_at m a (enc_shadow_stack ss)"

definition slot_pos :: "u64 \<Rightarrow> nat \<Rightarrow> u64" where
  "slot_pos a i = a + of_nat (i * sizeof_lp_shadow_stack_entry)"

lemma length_enc_shadow_entry:
  "wf_shadow_entry e \<Longrightarrow> length (enc_shadow_entry e) = sizeof_lp_shadow_stack_entry"
  by (simp add: enc_shadow_entry_def wf_shadow_entry_def codec64.length_concat_enc
      sizeof_lp_shadow_stack_entry_def lp_sizes)

lemma shadow_at_slots:
  assumes "length ss = LP_SHADOW_STACK_THREADS" and "\<forall>e \<in> set ss. wf_shadow_entry e"
  shows "shadow_at m a ss \<longleftrightarrow> (\<forall>i < LP_SHADOW_STACK_THREADS. entry_at m (slot_pos a i) (ss ! i))"
  using assms bytes_at_concat[of ss enc_shadow_entry sizeof_lp_shadow_stack_entry m a]
  by (simp add: shadow_at_def enc_shadow_stack_def entry_at_def slot_pos_def length_enc_shadow_entry)

section \<open>Updates of one structure\<close>

lemma offsets_apart:
  assumes "x + n \<le> y \<or> y + k \<le> x" and "x + n \<le> 2 ^ 64" and "y + k \<le> 2 ^ 64"
  shows "range64 (a + of_nat x) n \<inter> range64 (a + of_nat y) k = {}"
  using assms range64_offsets_disjoint[of x n y k a] range64_offsets_disjoint[of y k x n a] by blast

lemma load_store_offsets:
  assumes "x < 2 ^ 60" and "y < 2 ^ 60"
  shows "x + 8 \<le> y \<or> y + 8 \<le> x \<Longrightarrow> load64 (store64 m (a + of_nat y) v) (a + of_nat x) = load64 m (a + of_nat x)"
    "x + 4 \<le> y \<or> y + 8 \<le> x \<Longrightarrow> load32 (store64 m (a + of_nat y) v) (a + of_nat x) = load32 m (a + of_nat x)"
    "x + 8 \<le> y \<or> y + 4 \<le> x \<Longrightarrow> load64 (store32 m (a + of_nat y) w) (a + of_nat x) = load64 m (a + of_nat x)"
    "x + 4 \<le> y \<or> y + 4 \<le> x \<Longrightarrow> load32 (store32 m (a + of_nat y) w) (a + of_nat x) = load32 m (a + of_nat x)"
  using assms by (simp_all add: access_defs mem_read_write_disjoint offsets_apart)

text \<open>What is written to one slot of an array leaves the other slots alone.\<close>

lemma buffer_at_push:
  assumes b: "buffer_at m a b" and i: "i < LP_EVENT_BUFFER_CAPACITY"
    and e: "event_at m' (event_pos a i) e" "wf_event e"
    and w: "load64 m' a = w" and same: "changed (range64 a 8 \<union> range64 (event_pos a i) 88 \<union> X) m m'"
    and X: "range64 a sizeof_lp_event_buffer \<inter> X = {}"
  shows "buffer_at m' a (b\<lparr>eb_events := (eb_events b)[i := e], eb_write_index := w\<rparr>)"
proof -
  let ?b = "b\<lparr>eb_events := (eb_events b)[i := e], eb_write_index := w\<rparr>"
  have wf: "wf_event_buffer b" using b by (simp add: buffer_at_def)
  then have wf': "wf_event_buffer ?b"
    using e(2) set_update_subset_insert[of "eb_events b"] by (fastforce simp: wf_event_buffer_def)
  have "event_at m' (event_pos a j) (eb_events ?b ! j)" if j: "j < LP_EVENT_BUFFER_CAPACITY" for j
  proof (cases "j = i")
    case True
    then show ?thesis using e wf i by (simp add: wf_event_buffer_def)
  next
    case False
    have old: "event_at m (event_pos a j) (eb_events b ! j)" using b wf j by (simp add: buffer_at_fields)
    have "wf_event (eb_events b ! j)" using wf j by (simp add: wf_event_buffer_def)
    then have len: "length (enc_event (eb_events b ! j)) = 88"
      by (simp add: event_codec.length_enc sizeof_probe_event_def)
    have "range64 (event_pos a j) 88 \<inter> range64 (a + of_nat 0) 8 = {}"
      using j unfolding event_pos_def
      by (intro offsets_apart) (auto simp: lp_sizes sizeof_probe_event_def offsetof_events_def)
    moreover have "range64 (event_pos a j) 88 \<inter> range64 (event_pos a i) 88 = {}"
      using i j False unfolding event_pos_def
      by (intro offsets_apart) (auto simp: lp_sizes sizeof_probe_event_def offsetof_events_def)
    moreover have "range64 (event_pos a j) 88 \<inter> X = {}"
      using j X range64_sub[of "offsetof_events + j * sizeof_probe_event" 88 sizeof_lp_event_buffer a]
      by (auto simp: event_pos_def lp_sizes sizeof_probe_event_def offsetof_events_def sizeof_lp_event_buffer_def)
    ultimately have "event_at m' (event_pos a j) (eb_events b ! j)"
      using old len bytes_at_changed[OF _ same] by (simp add: event_at_def Int_Un_distrib)
    then show ?thesis using False by simp
  qed
  moreover have "load64 m' (a + 8) = eb_capacity b"
  proof -
    have "range64 (a + of_nat 8) 8 \<inter> range64 (a + of_nat 0) 8 = {}"
      by (intro offsets_apart) auto
    moreover have "range64 (a + of_nat 8) 8 \<inter> range64 (event_pos a i) 88 = {}"
      using i unfolding event_pos_def
      by (intro offsets_apart) (auto simp: lp_sizes sizeof_probe_event_def offsetof_events_def)
    moreover have "range64 (a + of_nat 8) 8 \<inter> X = {}"
      using X range64_sub[of 8 8 sizeof_lp_event_buffer a] by (auto simp: sizeof_lp_event_buffer_def)
    ultimately have "load64 m' (a + 8) = load64 m (a + 8)"
      using load_changed(1)[OF same, of "a + 8"] by (simp add: Int_Un_distrib)
    then show ?thesis using b wf by (simp add: buffer_at_fields)
  qed
  ultimately show ?thesis using w wf' by (simp add: buffer_at_fields)
qed

lemma shadow_at_update:
  assumes ss: "shadow_at m a ss" and i: "i < LP_SHADOW_STACK_THREADS"
    and e: "entry_at m' (slot_pos a i) e" "wf_shadow_entry e"
    and same: "changed (range64 (slot_pos a i) sizeof_lp_shadow_stack_entry) m m'"
  shows "shadow_at m' a (ss[i := e])"
proof -
  have len: "length ss = LP_SHADOW_STACK_THREADS" and wf: "\<forall>e \<in> set ss. wf_shadow_entry e"
    using ss by (simp_all add: shadow_at_def)
  have "entry_at m' (slot_pos a j) (ss[i := e] ! j)" if j: "j < LP_SHADOW_STACK_THREADS" for j
  proof (cases "j = i")
    case True
    then show ?thesis using e i len by simp
  next
    case False
    have old: "entry_at m (slot_pos a j) (ss ! j)" using ss len wf j by (simp add: shadow_at_slots)
    have "length (enc_shadow_entry (ss ! j)) = sizeof_lp_shadow_stack_entry"
      using wf j len by (simp add: length_enc_shadow_entry)
    moreover have "range64 (slot_pos a j) sizeof_lp_shadow_stack_entry \<inter>
        range64 (slot_pos a i) sizeof_lp_shadow_stack_entry = {}"
      using i j False unfolding slot_pos_def
      by (intro offsets_apart) (auto simp: lp_sizes sizeof_lp_shadow_stack_entry_def)
    ultimately show ?thesis
      using old False bytes_at_changed[OF _ same] by (simp add: entry_at_def)
  qed
  moreover have "\<forall>x \<in> set (ss[i := e]). wf_shadow_entry x"
    using wf e(2) set_update_subset_insert[of ss i e] by auto
  ultimately show ?thesis using len by (simp add: shadow_at_slots)
qed

end
