(* ===== verification/Stub_Pieces.thy ===== *)
theory Stub_Pieces
  imports Stub_Memory Stub_Programs
begin

text \<open>
  What the straight-line pieces of the stubs do, on any processor and any system whose two system
  calls behave: saved registers, the claimed slot of the event ring, the fields of the event, the
  clock, and the jump out with every register as it was.
\<close>

section \<open>The system calls of the stubs\<close>

text \<open>
  \<^verbatim>\<open>gettid\<close> returns the id of the thread; \<^verbatim>\<open>clock_gettime\<close> for clock 0 stores seconds and
  nanoseconds behind the pointer. Both clobber \<open>rcx\<close> and \<open>r11\<close> and nothing else.
\<close>

locale stub_kernel =
  fixes C :: "'o cpu"
    and tid_of :: "'o \<Rightarrow> u32"
    and clock :: "'o \<Rightarrow> u64 \<times> u64"
  assumes gettid: "m_reg s RAX = 186 \<Longrightarrow>
      \<exists>c r. c_syscall C s = s\<lparr>m_reg := (m_reg s)(RAX := ucast (tid_of (m_os s)), RCX := c, R11 := r)\<rparr>"
    and gettime: "m_reg s RAX = 228 \<Longrightarrow> m_reg s RDI = 0 \<Longrightarrow>
      \<exists>c r os. tid_of os = tid_of (m_os s) \<and>
        c_syscall C s = s\<lparr>m_reg := (m_reg s)(RAX := 0, RCX := c, R11 := r),
          m_mem := mem_write (m_mem s) (m_reg s RSI) (le64 (fst (clock (m_os s))) @ le64 (snd (clock (m_os s)))),
          m_os := os\<rparr>"

definition nanoseconds :: "u64 \<times> u64 \<Rightarrow> u64" where
  "nanoseconds t = fst t * 1000000000 + snd t"

lemma exec_syscall: "execs C [SYSCALL] s = c_syscall C s"
  by (simp add: exec_def)

lemma offset_right: "numeral k + (a :: u64) = a + numeral k"
  by (rule add.commute)

lemmas core_simps = push_def set_reg_def set_mem_def Let_def low_def offset_right

section \<open>Saving and restoring the registers\<close>

text \<open>The sixteen words that the entry stub pushes, at \<open>sp\<close>.\<close>

definition entry_frame :: "'o machine \<Rightarrow> u64 \<Rightarrow> memory \<Rightarrow> bool" where
  "entry_frame s sp m \<longleftrightarrow>
     load64 m sp = m_reg s R15 \<and> load64 m (sp + 8) = m_reg s R14 \<and>
     load64 m (sp + 16) = m_reg s R13 \<and> load64 m (sp + 24) = m_reg s R12 \<and>
     load64 m (sp + 32) = m_reg s R11 \<and> load64 m (sp + 40) = m_reg s R10 \<and>
     load64 m (sp + 48) = m_reg s R9 \<and> load64 m (sp + 56) = m_reg s R8 \<and>
     load64 m (sp + 64) = m_reg s RBP \<and> load64 m (sp + 72) = m_reg s RDI \<and>
     load64 m (sp + 80) = m_reg s RSI \<and> load64 m (sp + 88) = m_reg s RDX \<and>
     load64 m (sp + 96) = m_reg s RCX \<and> load64 m (sp + 104) = m_reg s RBX \<and>
     load64 m (sp + 112) = m_reg s RAX \<and> load64 m (sp + 120) = m_flags s"

lemma word_apart:
  "range64 a n \<inter> A = {} \<Longrightarrow> unat x + 8 \<le> n \<Longrightarrow> range64 (a + x) 8 \<inter> A = {}"
  "range64 a n \<inter> A = {} \<Longrightarrow> 8 \<le> n \<Longrightarrow> range64 a 8 \<inter> A = {}"
  using range_inside[of x 8 n a] range_inside[of 0 8 n a] by auto

lemma entry_frame_changed:
  assumes "entry_frame s sp m" and "changed A m m'" and "range64 sp 128 \<inter> A = {}"
  shows "entry_frame s sp m'"
  using assms(1) unfolding entry_frame_def
  by (simp add: load_changed[OF assms(2)] word_apart[OF assms(3)])

lemma changed_stores:
  "changed A m m' \<Longrightarrow> range64 a 8 \<subseteq> A \<Longrightarrow> changed A m (store64 m' a v)"
  "changed A m m' \<Longrightarrow> range64 a 4 \<subseteq> A \<Longrightarrow> changed A m (store32 m' a w)"
  by (blast intro: changed_trans changed_store)+

lemma below_inside: "range64 (a - x) 8 \<subseteq> range64 (a - y) n" if "unat (y - x) + 8 \<le> n"
  using range_inside[of "y - x" 8 n "a - y"] that by simp

text \<open>A sequence of pushes writes the words in one block, the last one first.\<close>

fun push_mem :: "memory \<Rightarrow> u64 \<Rightarrow> u64 list \<Rightarrow> memory" where
  "push_mem m r [] = m"
| "push_mem m r (v # vs) = push_mem (store64 m (r - 8) v) (r - 8) vs"

lemma cores_pushes:
  assumes "RSP \<notin> set rs"
  shows "cores C (map PUSH rs) s = s\<lparr>m_reg := (m_reg s)(RSP := m_reg s RSP - of_nat (8 * length rs)),
       m_mem := push_mem (m_mem s) (m_reg s RSP) (map (m_reg s) rs)\<rparr>"
  using assms
proof (induction rs arbitrary: s)
  case (Cons r rs)
  let ?t = "push (m_reg s r) s"
  have t: "m_reg ?t = (m_reg s)(RSP := m_reg s RSP - 8)"
    "m_mem ?t = store64 (m_mem s) (m_reg s RSP - 8) (m_reg s r)"
    by (simp_all add: push_def Let_def)
  have "cores C (map PUSH (r # rs)) s = cores C (map PUSH rs) ?t" by simp
  also have "\<dots> = ?t\<lparr>m_reg := (m_reg ?t)(RSP := m_reg ?t RSP - of_nat (8 * length rs)),
       m_mem := push_mem (m_mem ?t) (m_reg ?t RSP) (map (m_reg ?t) rs)\<rparr>"
    using Cons.prems by (intro Cons.IH) simp
  also have "map (m_reg ?t) rs = map (m_reg s) rs" using Cons.prems by (auto simp: t)
  finally show ?case by (simp add: t push_def Let_def diff_diff_eq cong: if_cong)
qed simp

lemma push_mem_snoc: "push_mem m r (vs @ [v]) = store64 (push_mem m r vs) (r - of_nat (8 * Suc (length vs))) v"
  by (induction vs arbitrary: m r) (simp_all add: algebra_simps)

lemma push_mem_write:
  "8 * length vs \<le> 2 ^ 60 \<Longrightarrow>
   push_mem m r vs = mem_write m (r - of_nat (8 * length vs)) (concat (map le64 (rev vs)))"
proof (induction vs rule: rev_induct)
  case (snoc v vs)
  let ?bs = "concat (map le64 (rev vs))" and ?b = "r - of_nat (8 * Suc (length vs))"
  have len: "length ?bs = 8 * length vs" by (simp add: codec64.length_concat_enc)
  have a: "r - of_nat (8 * length vs) = ?b + of_nat (length (le64 v))" by simp
  have "range64 (?b + of_nat 0) 8 \<inter> range64 (?b + of_nat 8) (length ?bs) = {}"
    using snoc.prems by (intro range64_offsets_disjoint) (simp_all add: len)
  then have "push_mem m r (vs @ [v]) = mem_write (mem_write m ?b (le64 v)) (?b + of_nat (length (le64 v))) ?bs"
    using snoc len
    by (subst mem_write_commute) (simp_all add: push_mem_snoc store64_def a[symmetric] del: of_nat_mult)
  also have "\<dots> = mem_write m ?b (le64 v @ ?bs)"
    using snoc.prems len by (intro mem_write_append) simp
  finally show ?case by simp
qed simp

text \<open>The head of a stub: flags and registers are pushed, \<open>r10\<close> is loaded.\<close>

lemma save_run:
  assumes "RSP \<notin> set rs" and "length rs < 100"
  defines "n \<equiv> 8 * Suc (length rs)"
  shows "\<exists>m f. execs C (PUSHFQ # map PUSH rs @ [MOVABS R10 a]) s =
       s\<lparr>m_reg := (m_reg s)(RSP := m_reg s RSP - of_nat n, R10 := a), m_mem := m, m_flags := f\<rparr> \<and>
     bytes_at m (m_reg s RSP - of_nat n) (concat (map le64 (rev (m_flags s # map (m_reg s) rs)))) \<and>
     changed (range64 (m_reg s RSP - of_nat n) n) (m_mem s) m"
proof -
  let ?vs = "m_flags s # map (m_reg s) rs" and ?is = "map PUSH rs @ [MOVABS R10 a]"
  let ?bs = "concat (map le64 (rev ?vs))"
  define m where "m = push_mem (m_mem s) (m_reg s RSP) ?vs"
  let ?t = "s\<lparr>m_reg := (m_reg s)(RSP := m_reg s RSP - of_nat n, R10 := a), m_mem := m\<rparr>"
  have map_push: "map (m_reg (push v s)) rs = map (m_reg s) rs" for v
    using assms(1) by (auto simp: push_def Let_def)
  have cores: "cores C ?is (push (m_flags s) s) = ?t"
    unfolding cores_append
    by (subst cores_pushes[OF assms(1)], unfold map_push)
       (simp add: push_def Let_def set_reg_def m_def n_def diff_diff_eq fun_upd_twist)
  have "list_all (\<lambda>i. \<not> sees_flags i) ?is" by (simp add: list_all_iff)
  from execs_cores[OF this] obtain f where "execs C ?is (push (m_flags s) s) = ?t\<lparr>m_flags := f\<rparr>"
    unfolding cores[symmetric] by blast
  moreover have "exec C PUSHFQ s = push (m_flags s) s" by (simp add: exec_def push_def Let_def)
  ultimately have run: "execs C (PUSHFQ # ?is) s = ?t\<lparr>m_flags := f\<rparr>" by simp
  have len: "length ?bs = n" by (simp add: n_def codec64.length_concat_enc)
  have m: "m = mem_write (m_mem s) (m_reg s RSP - of_nat n) ?bs"
    unfolding m_def n_def using push_mem_write[of ?vs "m_mem s" "m_reg s RSP"] assms(2) by simp
  have small: "length ?bs \<le> 2 ^ 64" unfolding len using assms(2) by (simp add: n_def)
  have "bytes_at m (m_reg s RSP - of_nat n) ?bs"
    using mem_read_write_same[of ?bs "m_mem s" "m_reg s RSP - of_nat n"] small unfolding m bytes_at_def by simp
  moreover have "changed (range64 (m_reg s RSP - of_nat n) n) (m_mem s) m"
    using changed_write[OF small, of "m_reg s RSP - of_nat n", unfolded len, OF subset_refl] unfolding m .
  ultimately show ?thesis using run by (intro exI[of _ m] exI[of _ f]) simp
qed

text \<open>The registers in the order of their pushes.\<close>

definition entry_saved :: "reg list" where
  "entry_saved = [RAX, RBX, RCX, RDX, RSI, RDI, RBP, R8, R9, R10, R11, R12, R13, R14, R15]"

lemma entry_head_eq: "entry_head config = PUSHFQ # map PUSH entry_saved @ [MOVABS R10 config]"
  by (simp add: entry_head_def entry_saved_def)

lemma entry_head_run:
  "\<exists>m f. execs C (entry_head config @ test_enabled) s =
       s\<lparr>m_reg := (m_reg s)(RSP := m_reg s RSP - 128, R10 := config), m_mem := m, m_flags := f\<rparr> \<and>
     bit f 6 = (load32 m config = 0) \<and> entry_frame s (m_reg s RSP - 128) m \<and>
     changed (range64 (m_reg s RSP - 128) 128) (m_mem s) m"
proof -
  have rs: "RSP \<notin> set entry_saved" "length entry_saved < 100" by (simp_all add: entry_saved_def)
  obtain m f where head: "execs C (entry_head config) s =
      s\<lparr>m_reg := (m_reg s)(RSP := m_reg s RSP - 128, R10 := config), m_mem := m, m_flags := f\<rparr>" (is "_ = ?t")
    and m: "bytes_at m (m_reg s RSP - 128) (concat (map le64 (rev (m_flags s # map (m_reg s) entry_saved))))"
      "changed (range64 (m_reg s RSP - 128) 128) (m_mem s) m"
    using save_run[OF rs, of C config s] by (auto simp: entry_head_eq entry_saved_def)
  let ?f = "compare_flags C (CMP_MI8 (at R10) 0) ?t (load32 m config) 0"
  have "execs C (entry_head config @ test_enabled) s = ?t\<lparr>m_flags := ?f\<rparr>"
    unfolding execs_append head by (simp add: test_enabled_def exec_def at_def)
  then show ?thesis
    using m
    by (intro exI[of _ m] exI[of _ ?f])
       (simp add: entry_saved_def bytes_at_append bytes_at_words entry_frame_def add.assoc del: bit_0)
qed

text \<open>The jump out: the word below the stack pointer is overwritten, nothing else.\<close>

lemma abs_jmp_run:
  "\<exists>m. runs C p (At (map I (abs_jmp target) @ q) s) (Left target (s\<lparr>m_mem := m\<rparr>)) \<and>
     changed (range64 (m_reg s RSP - 8) 8) (m_mem s) m \<and> load64 m (m_reg s RSP - 8) = target"
proof -
  let ?is = "[PUSH R11, MOVABS R11 target, XCHG (at RSP) R11]"
  let ?m = "store64 (store64 (m_mem s) (m_reg s RSP - 8) (m_reg s R11)) (m_reg s RSP - 8) target"
  let ?t = "s\<lparr>m_reg := (m_reg s)(RSP := m_reg s RSP - 8), m_mem := ?m\<rparr>"
  have "execs C ?is s = ?t"
    by (simp add: exec_def core_simps at_def fun_upd_twist)
  then have "runs C p (At (map I ?is @ I RET # q) s) (At (I RET # q) ?t)"
    using runs_code[of ?is C p "I RET # q" s] by simp
  also have "runs C p (At (I RET # q) ?t) (Left target (s\<lparr>m_mem := ?m\<rparr>))"
    by (rule runs_step) (simp add: set_reg_def)
  finally show ?thesis
    by (intro exI[of _ ?m]) (simp add: abs_jmp_def changed_stores)
qed

lemma entry_restore_run:
  assumes "entry_frame s sp (m_mem t)" and "m_reg t RSP = sp"
  shows "execs C entry_restore t = t\<lparr>m_reg := (m_reg s)(RSP := sp + 128), m_flags := m_flags s\<rparr>"
proof -
  have pops: "cores C (butlast entry_restore) t = t\<lparr>m_reg := (m_reg s)(RSP := sp + 120)\<rparr>"
    (is "?l = t\<lparr>m_reg := ?r\<rparr>")
  proof -
    have "?l = t\<lparr>m_reg := m_reg ?l\<rparr>" by (simp add: entry_restore_def core_simps)
    moreover have "m_reg ?l = ?r"
    proof
      fix x show "m_reg ?l x = ?r x"
        using assms by (cases x) (simp_all add: entry_restore_def core_simps entry_frame_def)
    qed
    ultimately show ?thesis by simp
  qed
  have "list_all (\<lambda>i. \<not> sees_flags i) (butlast entry_restore)" by (simp add: entry_restore_def)
  from execs_cores[OF this] obtain f where
    "execs C (butlast entry_restore) t = t\<lparr>m_reg := ?r, m_flags := f\<rparr>"
    using pops by metis
  moreover have "entry_restore = butlast entry_restore @ [POPFQ]" by (simp add: entry_restore_def)
  ultimately have "execs C entry_restore t = exec C POPFQ (t\<lparr>m_reg := ?r, m_flags := f\<rparr>)"
    by (metis execs_append execs_simps)
  also have "\<dots> = t\<lparr>m_reg := (m_reg s)(RSP := sp + 128), m_flags := m_flags s\<rparr>"
    using assms(1) by (simp add: exec_def set_reg_def entry_frame_def offset_right)
  finally show ?thesis .
qed

lemma entry_exit_run:
  assumes "entry_frame s sp (m_mem t)" and "m_reg t RSP = sp" and "m_reg s RSP = sp + 128"
  shows "\<exists>m. runs C p (At (map I (entry_restore @ abs_jmp target) @ q) t)
       (Left target (t\<lparr>m_reg := m_reg s, m_flags := m_flags s, m_mem := m\<rparr>)) \<and>
     changed (range64 (sp + 120) 8) (m_mem t) m"
proof -
  let ?t = "t\<lparr>m_reg := m_reg s, m_flags := m_flags s\<rparr>"
  have "execs C entry_restore t = ?t"
    using entry_restore_run[OF assms(1,2), of C] assms(3) by (simp add: fun_upd_idem)
  then have "runs C p (At (map I entry_restore @ map I (abs_jmp target) @ q) t) (At (map I (abs_jmp target) @ q) ?t)"
    using runs_code[of entry_restore C p "map I (abs_jmp target) @ q" t] by (simp add: entry_restore_def)
  moreover obtain m where "runs C p (At (map I (abs_jmp target) @ q) ?t) (Left target (?t\<lparr>m_mem := m\<rparr>))"
    "changed (range64 (sp + 120) 8) (m_mem t) m"
    using abs_jmp_run[of C p target q ?t] assms(3) by (auto simp: offset_right)
  ultimately show ?thesis by (auto intro: runs_trans)
qed

section \<open>The event\<close>

text \<open>The write index, taken modulo the capacity, selects the slot.\<close>

lemma and_fff: "unat (low w AND 0xFFF) = unat w mod LP_EVENT_BUFFER_CAPACITY"
proof -
  have "(low w AND 0xFFF) = take_bit 12 (low w)"
    by (simp add: take_bit_eq_mask mask_eq_decr_exp)
  then have "unat (low w AND 0xFFF) = take_bit 12 (unat (low w))" by (simp add: unsigned_take_bit_eq)
  also have "\<dots> = take_bit 12 (unat w)"
    by (simp add: low_def unsigned_ucast_eq)
  finally show ?thesis by (simp add: take_bit_eq_mod LP_EVENT_BUFFER_CAPACITY_def)
qed

lemma event_slot_run:
  assumes "m_reg s R10 = config" and "load64 (m_mem s) (config + 8) = buffer"
    and "load64 (m_mem s) buffer = w" and "b \<in> {R10, R11}"
  shows "\<exists>f x y. execs C (event_slot b) s = s\<lparr>m_reg := (m_reg s)(b := buffer, RAX := x, R9 := y,
      R8 := event_pos buffer (unat w mod LP_EVENT_BUFFER_CAPACITY)),
    m_mem := store64 (m_mem s) buffer (w + 1), m_flags := f\<rparr>"
proof -
  define i :: u64 where "i = ucast (low w AND 0xFFF)"
  have "unat (low w AND 0xFFF) < 2 ^ LENGTH(32)" by (rule unsigned_less)
  then have "unat (low w AND 0xFFF) < 2 ^ 64" by simp
  then have "unat i = unat w mod LP_EVENT_BUFFER_CAPACITY"
    by (simp add: i_def and_fff[symmetric] unsigned_ucast_eq take_bit_nat_eq_self)
  then have pos: "event_pos buffer (unat w mod LP_EVENT_BUFFER_CAPACITY) = buffer + 88 * i + 16"
    by (simp add: event_pos_def offsetof_events_def sizeof_probe_event_def algebra_simps flip: \<open>unat i = _\<close>)
  have "cores C (event_slot b) s = s\<lparr>m_reg := (m_reg s)(b := buffer, RAX := i, R9 := push_bit 3 i,
      R8 := buffer + 88 * i + 16), m_mem := store64 (m_mem s) buffer (w + 1)\<rparr>"
    using assms
    by (auto simp: event_slot_def core_simps at_defs i_def[unfolded low_def, symmetric] fun_eq_iff
        push_bit_eq_mult)
  moreover have "list_all (\<lambda>i. \<not> sees_flags i) (event_slot b)" by (simp add: event_slot_def)
  ultimately show ?thesis using execs_cores[of "event_slot b" C s] unfolding pos by metis
qed

text \<open>The fields that are known from the start, the arguments from the saved registers.\<close>

lemma entry_fields_run:
  assumes "entry_frame s sp (m_mem t)" and "m_reg t RSP = sp" and "m_reg t R8 = a"
    and "range64 sp 128 \<inter> range64 a 88 = {}"
  shows "\<exists>m f x. execs C (entry_ids d @ entry_args) t = t\<lparr>m_reg := (m_reg t)(RAX := x), m_mem := m, m_flags := f\<rparr> \<and>
    changed (range64 a 88) (m_mem t) m \<and> load32 m (a + 8) = d_pid d \<and> load32 m (a + 16) = d_probe_id d \<and>
    load32 m (a + 20) = PROBE_EVENT_ENTRY \<and> load64 m (a + 24) = m_reg s RDI \<and>
    load64 m (a + 32) = m_reg s RSI \<and> load64 m (a + 40) = m_reg s RDX \<and> load64 m (a + 48) = m_reg s RCX \<and>
    load64 m (a + 56) = m_reg s R8 \<and> load64 m (a + 64) = m_reg s R9"
proof -
  let ?is = "entry_ids d @ entry_args"
  let ?m = "store64 (store64 (store64 (store64 (store64 (store64 (store32 (store32 (store32 (m_mem t)
      (a + 8) (d_pid d)) (a + 16) (d_probe_id d)) (a + 20) 1) (a + 24) (m_reg s RDI)) (a + 32) (m_reg s RSI))
      (a + 40) (m_reg s RDX)) (a + 48) (m_reg s RCX)) (a + 56) (m_reg s R8)) (a + 64) (m_reg s R9)"
  have "cores C ?is t = t\<lparr>m_reg := (m_reg t)(RAX := m_reg s R9), m_mem := ?m\<rparr>"
    using assms(1-3)
    by (simp add: entry_ids_def entry_args_def core_simps at_defs entry_frame_def
        load_store_apart[OF assms(4)])
  moreover have "list_all (\<lambda>i. \<not> sees_flags i) ?is" by (simp add: entry_ids_def entry_args_def)
  ultimately obtain f where "execs C ?is t = t\<lparr>m_reg := (m_reg t)(RAX := m_reg s R9), m_mem := ?m, m_flags := f\<rparr>"
    using execs_cores[of ?is C t] by auto
  moreover have "changed (range64 a 88) (m_mem t) ?m"
    by (intro changed_stores range_inside changed_refl) simp_all
  ultimately show ?thesis
    by (intro exI[of _ ?m] exI[of _ f] exI[of _ "m_reg s R9"])
       (simp add: load_store_far PROBE_EVENT_ENTRY_def)
qed

context stub_kernel
begin

lemma clock_time_run:
  assumes "m_reg t RSP = sp"
  shows "\<exists>c r os f. tid_of os = tid_of (m_os t) \<and> execs C clock_time t =
    t\<lparr>m_reg := (m_reg t)(RAX := nanoseconds (clock (m_os t)), RDI := 0, RSI := sp, RCX := c, R11 := r),
      m_mem := mem_write (m_mem t) sp (le64 (fst (clock (m_os t))) @ le64 (snd (clock (m_os t)))),
      m_os := os, m_flags := f\<rparr>"
proof -
  let ?call = "[MOV_RI RAX 228, XOR_SELF RDI, MOV_RR True RSI RSP]"
  let ?sum = "[MOV_LD True RAX (at RSP), IMUL_RI RAX 1000000000, ADD_LD RAX (at8 RSP 8)]"
  let ?now = "clock (m_os t)"
  let ?t = "t\<lparr>m_reg := (m_reg t)(RAX := 228, RDI := 0, RSI := sp)\<rparr>"
  have call: "cores C ?call t = ?t" using assms by (simp add: core_simps)
  obtain f where f: "execs C ?call t = ?t\<lparr>m_flags := f\<rparr>"
    using execs_cores[of ?call C t] unfolding call by auto
  let ?v = "?t\<lparr>m_flags := f\<rparr>"
  have "m_reg ?v RAX = 228" "m_reg ?v RDI = 0" by simp_all
  from gettime[OF this] obtain c r os where os: "tid_of os = tid_of (m_os t)"
    and sys: "c_syscall C ?v = ?v\<lparr>m_reg := (m_reg ?v)(RAX := 0, RCX := c, R11 := r),
      m_mem := mem_write (m_mem t) sp (le64 (fst ?now) @ le64 (snd ?now)), m_os := os\<rparr>"
    by auto
  let ?u = "t\<lparr>m_reg := (m_reg t)(RAX := 0, RDI := 0, RSI := sp, RCX := c, R11 := r),
      m_flags := f, m_mem := mem_write (m_mem t) sp (le64 (fst ?now) @ le64 (snd ?now)), m_os := os\<rparr>"
  have u: "c_syscall C ?v = ?u"
    unfolding sys by (cases t) (simp add: fun_eq_iff)
  have "bytes_at (mem_write (m_mem t) sp (le64 (fst ?now) @ le64 (snd ?now))) sp (le64 (fst ?now) @ le64 (snd ?now))"
    using mem_read_write_same[of "le64 (fst ?now) @ le64 (snd ?now)" "m_mem t" sp] by (simp add: bytes_at_def)
  then have words: "load64 (m_mem ?u) sp = fst ?now" "load64 (m_mem ?u) (sp + 8) = snd ?now"
    by (simp_all add: bytes_at_append bytes_at_words)
  have sum: "cores C ?sum ?u = ?u\<lparr>m_reg := (m_reg ?u)(RAX := nanoseconds ?now)\<rparr>"
    using assms words by (simp add: core_simps at_defs nanoseconds_def)
  obtain g where g: "execs C ?sum ?u = (?u\<lparr>m_reg := (m_reg ?u)(RAX := nanoseconds ?now)\<rparr>)\<lparr>m_flags := g\<rparr>"
    using execs_cores[of ?sum C ?u] unfolding sum by auto
  have split: "clock_time = ?call @ [SYSCALL] @ ?sum" by (simp add: clock_time_def)
  have "execs C clock_time t = execs C ?sum (c_syscall C (execs C ?call t))"
    unfolding split execs_append exec_syscall ..
  also have "\<dots> = (?u\<lparr>m_reg := (m_reg ?u)(RAX := nanoseconds ?now)\<rparr>)\<lparr>m_flags := g\<rparr>"
    unfolding f u g ..
  also have "\<dots> = t\<lparr>m_reg := (m_reg t)(RAX := nanoseconds ?now, RDI := 0, RSI := sp, RCX := c, R11 := r),
      m_mem := mem_write (m_mem t) sp (le64 (fst ?now) @ le64 (snd ?now)), m_os := os, m_flags := g\<rparr>"
    by (cases t) (simp add: fun_eq_iff)
  finally show ?thesis using os by blast
qed

end

end
