(* ===== verification/Shadow_Stack.thy ===== *)
theory Shadow_Stack
  imports Stub_Pieces
begin

text \<open>
  The shadow stack that the return probe keeps per thread: its operations as the design states
  them, and the search loop of the stubs that finds the slot of a thread.
\<close>

section \<open>Push and pop\<close>

text \<open>A thread gets the first slot that is its own or free; a full slot takes no more.\<close>

definition claimable :: "u32 \<Rightarrow> lp_shadow_stack_entry \<Rightarrow> bool" where
  "claimable tid e \<longleftrightarrow> ss_tid e = 0 \<or> ss_tid e = tid"

definition push_entry :: "u64 \<Rightarrow> u64 \<Rightarrow> lp_shadow_stack_entry \<Rightarrow> lp_shadow_stack_entry" where
  "push_entry ret time e =
     e\<lparr>ss_return_addrs := (ss_return_addrs e)[unat (ss_depth e) := ret],
       ss_entry_timestamps := (ss_entry_timestamps e)[unat (ss_depth e) := time],
       ss_depth := ss_depth e + 1\<rparr>"

text \<open>The result says whether the return address has been taken over.\<close>

definition shadow_push :: "u32 \<Rightarrow> u64 \<Rightarrow> u64 \<Rightarrow> lp_shadow_stack \<Rightarrow> lp_shadow_stack \<times> bool" where
  "shadow_push tid ret time ss =
     (case first_slot (claimable tid) 0 ss of
        None \<Rightarrow> (ss, False)
      | Some i \<Rightarrow>
          let e = (ss ! i)\<lparr>ss_tid := tid\<rparr> in
          if LP_SHADOW_STACK_DEPTH \<le> unat (ss_depth e) then (ss[i := e], False)
          else (ss[i := push_entry ret time e], True))"

definition shadow_pop :: "u32 \<Rightarrow> lp_shadow_stack \<Rightarrow> (u64 \<times> u64 \<times> lp_shadow_stack) option" where
  "shadow_pop tid ss =
     (case first_slot (\<lambda>e. ss_tid e = tid) 0 ss of
        None \<Rightarrow> None
      | Some i \<Rightarrow>
          let e = ss ! i; d = ss_depth e - 1 in
          if ss_depth e = 0 then None
          else Some (ss_return_addrs e ! unat d, ss_entry_timestamps e ! unat d, ss[i := e\<lparr>ss_depth := d\<rparr>]))"

definition wf_shadow :: "lp_shadow_stack \<Rightarrow> bool" where
  "wf_shadow ss \<longleftrightarrow>
     length ss = LP_SHADOW_STACK_THREADS \<and>
     (\<forall>e \<in> set ss. wf_shadow_entry e \<and> unat (ss_depth e) \<le> LP_SHADOW_STACK_DEPTH)"

lemma low_ucast [simp]: "low (ucast v) = v" "low 0 = 0"
  by (rule bit_word_eqI; simp add: low_def bit_ucast_iff)+

section \<open>Running into a test\<close>

lemma test_run:
  assumes "list_all (\<lambda>i. \<not> jumps i \<and> \<not> sees_flags i) (is @ [i])"
  shows "\<exists>f. runs C p (At (map I (is @ [i]) @ JCC c l # q) s)
    (let s' = (cores C (is @ [i]) s)\<lparr>m_flags := new_flags C i ((cores C is s)\<lparr>m_flags := f\<rparr>)\<rparr>
     in if holds c s' then goto p l s' else At q s')"
proof -
  have plain: "list_all (\<lambda>i. \<not> sees_flags i) is" "\<not> sees_flags i" "list_all (\<lambda>i. \<not> jumps i) (is @ [i])"
    using assms by (simp_all add: list_all_iff)
  obtain f where f: "execs C is s = (cores C is s)\<lparr>m_flags := f\<rparr>"
    using execs_cores[OF plain(1)] by blast
  let ?s = "(cores C (is @ [i]) s)\<lparr>m_flags := new_flags C i ((cores C is s)\<lparr>m_flags := f\<rparr>)\<rparr>"
  have "execs C (is @ [i]) s = ?s"
    using f by (simp add: execs_append cores_append exec_def core_flags[OF plain(2)])
  then have "runs C p (At (map I (is @ [i]) @ JCC c l # q) s) (At (JCC c l # q) ?s)"
    using runs_code[OF plain(3)] by metis
  also have "runs C p (At (JCC c l # q) ?s) (if holds c ?s then goto p l ?s else At q ?s)"
    by (rule runs_step) simp
  finally show ?thesis unfolding Let_def by (rule exI)
qed

lemma jump_run: "runs C p (At (J l # q) s) (goto p l s)"
  by (rule runs_step) simp

lemma label_run: "runs C p (At (L l # q) s) (At q s)"
  by (rule runs_step) simp

lemma behind_code: "behind l (map I is @ q) = behind l q" "behind l (map I is) = None"
  by (induction "is") simp_all

section \<open>Pieces of the search\<close>

text \<open>The stubs keep these while they search.\<close>

definition same_work :: "'o machine \<Rightarrow> 'o machine \<Rightarrow> bool" where
  "same_work t t' \<longleftrightarrow> m_reg t' RSP = m_reg t RSP \<and> m_reg t' R8 = m_reg t R8 \<and>
     m_reg t' R9 = m_reg t R9 \<and> m_reg t' R10 = m_reg t R10 \<and> m_reg t' RBP = m_reg t RBP \<and>
     m_reg t' R13 = m_reg t R13 \<and> m_reg t' R14 = m_reg t R14 \<and> m_reg t' R15 = m_reg t R15 \<and> m_os t' = m_os t"

lemma same_work_trans: "same_work s t \<Longrightarrow> same_work t u \<Longrightarrow> same_work s u"
  by (simp add: same_work_def)

lemma loop_bound_run:
  assumes "m_reg t RBX = of_nat i" and "i \<le> LP_SHADOW_STACK_THREADS"
  shows "\<exists>t'. runs C p (At (map I loop_bound @ JCC CC_AE l # q) t)
      (if i = LP_SHADOW_STACK_THREADS then goto p l t' else At q t') \<and>
    same_work t t' \<and> m_mem t' = m_mem t \<and> m_reg t' RBX = of_nat i"
proof -
  obtain f where "runs C p (At (map I loop_bound @ JCC CC_AE l # q) t)
      (let s' = t\<lparr>m_flags := new_flags C (CMP_RI64 RBX 256) (t\<lparr>m_flags := f\<rparr>)\<rparr>
       in if holds CC_AE s' then goto p l s' else At q s')" (is "runs _ _ _ (let s' = ?t in _)")
    using test_run[of "[]" "CMP_RI64 RBX 256" C p CC_AE l q t] by (auto simp: loop_bound_def)
  moreover have "holds CC_AE ?t \<longleftrightarrow> i = LP_SHADOW_STACK_THREADS"
    using assms by (auto simp: carry_flag_def LP_SHADOW_STACK_THREADS_def word_less_nat_alt unat_of_nat64 simp del: bit_0)
  ultimately show ?thesis
    using assms(1) by (intro exI[of _ ?t]) (auto simp: Let_def same_work_def split: if_splits)
qed

lemma slot_addr_cores:
  assumes "m_reg t RBX = of_nat i" and "b \<in> {R9, R10}"
  shows "cores C (slot_addr b) t = t\<lparr>m_reg := (m_reg t)(R11 := slot_pos (m_reg t b) i)\<rparr>"
  using assms
  by (auto simp: slot_addr_def core_simps slot_pos_def sizeof_lp_shadow_stack_entry_def mult.commute)

lemma scan_load_run:
  assumes "m_reg t RBX = of_nat i" and "load32 (m_mem t) (slot_pos (m_reg t R9) i) = v"
  shows "\<exists>t'. runs C p (At (map I scan_load @ JCC CC_E l # q) t) (if v = 0 then goto p l t' else At q t') \<and>
    same_work t t' \<and> m_mem t' = m_mem t \<and> m_reg t' RBX = of_nat i \<and> m_reg t' RCX = ucast v \<and>
    m_reg t' R11 = slot_pos (m_reg t R9) i"
proof -
  let ?is = "slot_addr R9 @ [MOV_LD False RCX (at R11)]"
  let ?u = "t\<lparr>m_reg := (m_reg t)(R11 := slot_pos (m_reg t R9) i, RCX := ucast v)\<rparr>"
  have "cores C (slot_addr R9) t = t\<lparr>m_reg := (m_reg t)(R11 := slot_pos (m_reg t R9) i)\<rparr>"
    by (rule slot_addr_cores[OF assms(1)]) simp
  then have u: "cores C ?is t = ?u"
    using assms(2) by (simp add: cores_append at_def set_reg_def)
  have "scan_load = ?is @ [TEST_SELF False RCX]" by (simp add: scan_load_def)
  moreover have "cores C (?is @ [TEST_SELF False RCX]) t = ?u"
    unfolding cores_append[of C ?is] u by simp
  moreover obtain f where "runs C p (At (map I (?is @ [TEST_SELF False RCX]) @ JCC CC_E l # q) t)
      (let s' = (cores C (?is @ [TEST_SELF False RCX]) t)\<lparr>m_flags := new_flags C (TEST_SELF False RCX) ((cores C ?is t)\<lparr>m_flags := f\<rparr>)\<rparr>
       in if holds CC_E s' then goto p l s' else At q s')"
    using test_run[of ?is "TEST_SELF False RCX" C p CC_E l q t] by (auto simp: slot_addr_def)
  ultimately have "runs C p (At (map I scan_load @ JCC CC_E l # q) t)
      (let s' = ?u\<lparr>m_flags := new_flags C (TEST_SELF False RCX) (?u\<lparr>m_flags := f\<rparr>)\<rparr>
       in if holds CC_E s' then goto p l s' else At q s')" (is "runs _ _ _ (let s' = ?t in _)")
    unfolding u by (simp only:)
  moreover have "holds CC_E ?t \<longleftrightarrow> v = 0"
    by (simp add: zero_flag_def)
  ultimately show ?thesis
    using assms(1) by (intro exI[of _ ?t]) (auto simp: Let_def same_work_def split: if_splits)
qed

text \<open>Comparing a register with the thread id of the event.\<close>

lemma tid_cmp_run:
  assumes "m_reg t r = ucast v" and "load32 (m_mem t) (m_reg t R8 + 12) = tid"
  shows "\<exists>f. runs C p (At (I (CMP_LD32 r (at8 R8 12)) # JCC CC_E l # q) t)
    (if v = tid then goto p l (t\<lparr>m_flags := f\<rparr>) else At q (t\<lparr>m_flags := f\<rparr>))"
proof -
  obtain f where "runs C p (At (map I ([] @ [CMP_LD32 r (at8 R8 12)]) @ JCC CC_E l # q) t)
      (let s' = (cores C ([] @ [CMP_LD32 r (at8 R8 12)]) t)\<lparr>m_flags := new_flags C (CMP_LD32 r (at8 R8 12)) ((cores C [] t)\<lparr>m_flags := f\<rparr>)\<rparr>
       in if holds CC_E s' then goto p l s' else At q s')"
    using test_run[of "[]" "CMP_LD32 r (at8 R8 12)" C p CC_E l q t] by auto
  then show ?thesis
    using assms by (auto simp: Let_def at8_def zero_flag_def intro!: exI split: if_splits)
qed

lemma scan_claim_run:
  assumes "m_reg t R11 = a" and "load32 (m_mem t) a = 0" and "load32 (m_mem t) (m_reg t R8 + 12) = tid"
  shows "\<exists>t'. runs C p (At (map I scan_claim @ JCC CC_E l # q) t) (goto p l t') \<and>
    same_work t t' \<and> m_mem t' = store32 (m_mem t) a tid \<and> m_reg t' R11 = a"
proof -
  let ?is = "[XOR_SELF RAX, MOV_LD False RDX (at8 R8 12)]" and ?i = "LOCK_CMPXCHG (at R11) RDX"
  let ?u = "t\<lparr>m_reg := (m_reg t)(RAX := 0, RDX := ucast tid)\<rparr>"
  have u: "cores C ?is t = ?u" using assms by (simp add: at8_def set_reg_def)
  have w: "cores C (?is @ [?i]) t = ?u\<lparr>m_mem := store32 (m_mem t) a tid\<rparr>"
    unfolding cores_append u using assms by (simp add: at_def set_mem_def Let_def)
  obtain f where "runs C p (At (map I (?is @ [?i]) @ JCC CC_E l # q) t)
      (let s' = (cores C (?is @ [?i]) t)\<lparr>m_flags := new_flags C ?i ((cores C ?is t)\<lparr>m_flags := f\<rparr>)\<rparr>
       in if holds CC_E s' then goto p l s' else At q s')"
    using test_run[of ?is ?i C p CC_E l q t] by auto
  then have "runs C p (At (map I scan_claim @ JCC CC_E l # q) t)
      (let s' = ?u\<lparr>m_mem := store32 (m_mem t) a tid, m_flags := new_flags C ?i (?u\<lparr>m_flags := f\<rparr>)\<rparr>
       in if holds CC_E s' then goto p l s' else At q s')" (is "runs _ _ _ (let s' = ?t in _)")
    unfolding u w by (simp add: scan_claim_def)
  moreover have "holds CC_E ?t" using assms(1,2) by (simp add: zero_flag_def at_def)
  ultimately show ?thesis
    using assms(1) by (intro exI[of _ ?t]) (auto simp: Let_def same_work_def)
qed

lemma next_slot_run:
  assumes "m_reg t RBX = of_nat i"
  shows "\<exists>t'. runs C p (At (map I next_slot @ J l # q) t) (goto p l t') \<and>
    same_work t t' \<and> m_mem t' = m_mem t \<and> m_reg t' RBX = of_nat (Suc i)"
proof -
  let ?t = "exec C (INC True RBX) t"
  have "runs C p (At (map I next_slot @ J l # q) t) (At (J l # q) ?t)"
    using runs_code[of next_slot C p "J l # q" t] by (simp add: next_slot_def)
  also have "runs C p (At (J l # q) ?t) (goto p l ?t)" by (rule jump_run)
  finally show ?thesis
    using assms by (intro exI[of _ ?t]) (simp add: exec_def set_reg_def same_work_def)
qed

section \<open>The words of a slot\<close>

lemma slot_words:
  "a = a + of_nat 0" "a + 4 = a + of_nat 4"
  "ret_pos a j = a + of_nat (8 + j * 8)" "time_pos a j = a + of_nat (520 + j * 8)" for a :: u64
  by (simp_all add: ret_pos_def time_pos_def)

lemma load_tid_store:
  assumes "j < LP_SHADOW_STACK_DEPTH"
  shows "load32 (store32 m (a + 4) w) a = load32 m a" "load32 (store32 m a w) (a + 4) = load32 m (a + 4)"
    "load32 (store64 m (ret_pos a j) v) a = load32 m a" "load32 (store64 m (time_pos a j) v) a = load32 m a"
    "load32 (store64 m (ret_pos a j) v) (a + 4) = load32 m (a + 4)"
    "load32 (store64 m (time_pos a j) v) (a + 4) = load32 m (a + 4)"
    "load64 (store32 m a w) (ret_pos a j) = load64 m (ret_pos a j)"
    "load64 (store32 m a w) (time_pos a j) = load64 m (time_pos a j)"
    "load64 (store32 m (a + 4) w) (ret_pos a j) = load64 m (ret_pos a j)"
    "load64 (store32 m (a + 4) w) (time_pos a j) = load64 m (time_pos a j)"
  using assms load_store_offsets[of 0 "8 + j * 8" m a] load_store_offsets[of 0 "520 + j * 8" m a]
    load_store_offsets[of 4 "8 + j * 8" m a] load_store_offsets[of 4 "520 + j * 8" m a]
    load_store_offsets[of "8 + j * 8" 0 m a] load_store_offsets[of "520 + j * 8" 0 m a]
    load_store_offsets[of "8 + j * 8" 4 m a] load_store_offsets[of "520 + j * 8" 4 m a]
    load_store_offsets[of 0 4 m a] load_store_offsets[of 4 0 m a]
  by (simp_all add: ret_pos_def time_pos_def LP_SHADOW_STACK_DEPTH_def)

lemma load_word_store:
  assumes "i < LP_SHADOW_STACK_DEPTH" and "j < LP_SHADOW_STACK_DEPTH"
  shows "load64 (store64 m (ret_pos a i) v) (ret_pos a j) = (if i = j then v else load64 m (ret_pos a j))"
    "load64 (store64 m (time_pos a i) v) (time_pos a j) = (if i = j then v else load64 m (time_pos a j))"
    "load64 (store64 m (ret_pos a i) v) (time_pos a j) = load64 m (time_pos a j)"
    "load64 (store64 m (time_pos a i) v) (ret_pos a j) = load64 m (ret_pos a j)"
  using assms unfolding ret_pos_def time_pos_def LP_SHADOW_STACK_DEPTH_def
  by (auto simp del: of_nat_add of_nat_mult intro!: load_store_offsets(1))

lemma entry_at_claim:
  assumes "entry_at m a e" and "wf_shadow_entry e"
  shows "entry_at (store32 m a tid) a (e\<lparr>ss_tid := tid\<rparr>)"
proof -
  have wf: "wf_shadow_entry (e\<lparr>ss_tid := tid\<rparr>)" using assms(2) by (simp add: wf_shadow_entry_def)
  have "load32 (store32 m a tid) (a + 4) = load32 m (a + 4)"
    using load_tid_store(2)[of 0] by (simp add: LP_SHADOW_STACK_DEPTH_def)
  then show ?thesis
    using assms(1) unfolding entry_at_fields[OF wf] entry_at_fields[OF assms(2)]
    by (simp add: load_tid_store)
qed

lemma entry_at_depth:
  assumes "entry_at m a e" and "wf_shadow_entry e"
  shows "entry_at (store32 m (a + 4) n) a (e\<lparr>ss_depth := n\<rparr>)"
proof -
  have wf: "wf_shadow_entry (e\<lparr>ss_depth := n\<rparr>)" using assms(2) by (simp add: wf_shadow_entry_def)
  have "load32 (store32 m (a + 4) n) a = load32 m a"
    using load_tid_store(1)[of 0] by (simp add: LP_SHADOW_STACK_DEPTH_def)
  then show ?thesis
    using assms(1) unfolding entry_at_fields[OF wf] entry_at_fields[OF assms(2)]
    by (simp add: load_tid_store)
qed

lemma entry_at_push:
  assumes "entry_at m a e" and "wf_shadow_entry e" and "unat (ss_depth e) < LP_SHADOW_STACK_DEPTH"
  defines "j \<equiv> unat (ss_depth e)"
  shows "entry_at (store32 (store64 (store64 m (ret_pos a j) ret) (time_pos a j) time) (a + 4) (ss_depth e + 1)) a
    (push_entry ret time e)"
proof -
  let ?m = "store64 (store64 m (ret_pos a j) ret) (time_pos a j) time"
  let ?e = "e\<lparr>ss_return_addrs := (ss_return_addrs e)[j := ret],
      ss_entry_timestamps := (ss_entry_timestamps e)[j := time]\<rparr>"
  have wf: "wf_shadow_entry ?e" using assms(2) by (simp add: wf_shadow_entry_def)
  have j: "j < LP_SHADOW_STACK_DEPTH" using assms(3) by (simp add: j_def)
  have "entry_at ?m a ?e"
    using assms(1,2) j unfolding entry_at_fields[OF wf] entry_at_fields[OF assms(2)]
    by (auto simp: load_tid_store[OF j] load_word_store[OF j] wf_shadow_entry_def nth_list_update)
  from entry_at_depth[OF this wf, of "ss_depth e + 1"] show ?thesis
    by (simp add: push_entry_def j_def)
qed

section \<open>Pushing\<close>

lemma push_check_run:
  assumes "load32 (m_mem t) (m_reg t R11 + 4) = v"
  shows "\<exists>t'. runs C p (At (map I push_check @ JCC CC_AE l # q) t)
      (if LP_SHADOW_STACK_DEPTH \<le> unat v then goto p l t' else At q t') \<and>
    same_work t t' \<and> m_mem t' = m_mem t \<and> m_reg t' R11 = m_reg t R11 \<and> m_reg t' RCX = ucast v"
proof -
  let ?is = "[MOV_LD False RAX (at8 R8 12), MOV_LD False RCX (at8 R11 4)]" and ?i = "CMP_RI8 RCX 64"
  let ?u = "t\<lparr>m_reg := (m_reg t)(RAX := ucast (load32 (m_mem t) (m_reg t R8 + 12)), RCX := ucast v)\<rparr>"
  have u: "cores C ?is t = ?u" using assms by (simp add: at8_def set_reg_def)
  have w: "cores C (?is @ [?i]) t = ?u" unfolding cores_append u by simp
  obtain f where "runs C p (At (map I (?is @ [?i]) @ JCC CC_AE l # q) t)
      (let s' = (cores C (?is @ [?i]) t)\<lparr>m_flags := new_flags C ?i ((cores C ?is t)\<lparr>m_flags := f\<rparr>)\<rparr>
       in if holds CC_AE s' then goto p l s' else At q s')"
    using test_run[of ?is ?i C p CC_AE l q t] by auto
  then have "runs C p (At (map I push_check @ JCC CC_AE l # q) t)
      (let s' = ?u\<lparr>m_flags := new_flags C ?i (?u\<lparr>m_flags := f\<rparr>)\<rparr>
       in if holds CC_AE s' then goto p l s' else At q s')" (is "runs _ _ _ (let s' = ?t in _)")
    unfolding u w by (simp add: push_check_def)
  moreover have "holds CC_AE ?t \<longleftrightarrow> LP_SHADOW_STACK_DEPTH \<le> unat v"
    by (simp add: carry_flag_def LP_SHADOW_STACK_DEPTH_def word_less_nat_alt not_less del: bit_0)
  ultimately show ?thesis
    by (intro exI[of _ ?t]) (auto simp: Let_def same_work_def split: if_splits)
qed

lemma slot_index: "push_bit 3 (ucast v :: u64) = of_nat (unat v * 8)"
  by (simp add: push_bit_eq_mult mult.commute)

lemma push_body_run:
  assumes "m_reg t R11 = a" and "m_reg t RCX = ucast v"
    and "load64 (m_mem t) (m_reg t RSP + 128) = ret"
    and "load64 (store64 (m_mem t) (ret_pos a (unat v)) ret) (m_reg t R8) = time"
  shows "\<exists>t'. runs C p (At (map I (push_body ret_stub) @ J l # q) t) (goto p l t') \<and> same_work t t' \<and>
    m_mem t' = store64 (store32 (store64 (store64 (m_mem t) (ret_pos a (unat v)) ret) (time_pos a (unat v)) time)
      (a + 4) (v + 1)) (m_reg t RSP + 128) ret_stub"
proof -
  have pos: "a + push_bit 3 (ucast v) + 8 = ret_pos a (unat v)" "a + push_bit 3 (ucast v) + 520 = time_pos a (unat v)"
    by (simp_all add: slot_index ret_pos_def time_pos_def add.commute add.left_commute)
  let ?u = "cores C (push_body ret_stub) t"
  have u: "m_mem ?u = store64 (store32 (store64 (store64 (m_mem t) (ret_pos a (unat v)) ret) (time_pos a (unat v)) time)
      (a + 4) (v + 1)) (m_reg t RSP + 128) ret_stub" "same_work t ?u"
    using assms
    by (simp_all add: push_body_def at_defs set_reg_def set_mem_def pos same_work_def)
  have plain: "list_all (\<lambda>i. \<not> sees_flags i) (push_body ret_stub)" "list_all (\<lambda>i. \<not> jumps i) (push_body ret_stub)"
    by (simp_all add: push_body_def)
  obtain f where "execs C (push_body ret_stub) t = ?u\<lparr>m_flags := f\<rparr>" using execs_cores[OF plain(1)] by blast
  then have "runs C p (At (map I (push_body ret_stub) @ J l # q) t) (goto p l (?u\<lparr>m_flags := f\<rparr>))"
    using runs_code[OF plain(2), of C p "J l # q" t] jump_run by (metis runs_trans)
  then show ?thesis using u by (intro exI[of _ "?u\<lparr>m_flags := f\<rparr>"]) (simp add: same_work_def)
qed

end
