(* ===== verification/Slot_Search.thy ===== *)
theory Slot_Search
  imports Shadow_Stack
begin

text \<open>
  The entry stub in parts, and the return probe's part of it: the loop that looks for the slot of
  the thread, and the push of the return address.
\<close>

section \<open>The parts of the program\<close>

definition restore_part :: "probe_desc \<Rightarrow> lbl asm list" where
  "restore_part d = map I (entry_restore @ abs_jmp (d_trampoline_addr d)) @ []"

definition no_ret_part :: "probe_desc \<Rightarrow> lbl asm list" where
  "no_ret_part d = L Done # L Restore # restore_part d"

definition next_part :: "probe_desc \<Rightarrow> lbl asm list" where
  "next_part d = map I next_slot @ J Loop # L NoRet # no_ret_part d"

definition push_part :: "probe_desc \<Rightarrow> lbl asm list" where
  "push_part d = map I push_check @ JCC CC_AE NoRet #
     map I (push_body (d_ret_stub_addr d)) @ J Done # L Next # next_part d"

definition claim_part :: "probe_desc \<Rightarrow> lbl asm list" where
  "claim_part d = map I scan_claim @ JCC CC_E Found #
     map I scan_race @ JCC CC_E Found # J Next # L Found # push_part d"

definition cmp_part :: "probe_desc \<Rightarrow> lbl asm list" where
  "cmp_part d = I (CMP_LD32 RCX (at8 R8 12)) # JCC CC_E Found # J Next # L TryClaim # claim_part d"

definition load_part :: "probe_desc \<Rightarrow> lbl asm list" where
  "load_part d = map I scan_load @ JCC CC_E TryClaim # cmp_part d"

definition loop_part :: "probe_desc \<Rightarrow> lbl asm list" where
  "loop_part d = map I loop_bound @ JCC CC_AE NoRet # load_part d"

lemma scan_cmp_map: "map I scan_cmp = [I (CMP_LD32 RCX (at8 R8 12))]"
  by (simp add: scan_cmp_def)

lemmas part_defs = loop_part_def load_part_def cmp_part_def scan_cmp_map claim_part_def push_part_def next_part_def no_ret_part_def restore_part_def

definition work_part :: "probe_desc \<Rightarrow> lbl asm list" where
  "work_part d = map I (event_slot R11 @ entry_ids d @ entry_args @ entry_time @ entry_zero) @
     (if d_has_retprobe d = 0 then L Restore # restore_part d
      else map I (scan_init (d_shadow_stack_addr d)) @ JCC CC_E NoRet #
        map I scan_clear @ L Loop # loop_part d)"

lemma entry_prog_parts:
  "entry_prog d = map I (entry_head (d_config_addr d) @ test_enabled) @ JCC CC_E Restore # work_part d"
  by (simp add: entry_prog_def work_part_def retprobe_prog_def part_defs)

lemma goto_restore: "goto (entry_prog d) Restore s = At (restore_part d) s"
  by (simp add: goto_def entry_prog_def retprobe_prog_def part_defs behind_code del: list.map map_append)

lemma goto_parts:
  assumes "d_has_retprobe d \<noteq> 0"
  shows "goto (entry_prog d) Loop s = At (loop_part d) s" "goto (entry_prog d) TryClaim s = At (claim_part d) s"
    "goto (entry_prog d) Found s = At (push_part d) s" "goto (entry_prog d) Next s = At (next_part d) s"
    "goto (entry_prog d) NoRet s = At (no_ret_part d) s" "goto (entry_prog d) Done s = At (L Restore # restore_part d) s"
  using assms
  by (simp_all add: goto_def entry_prog_def retprobe_prog_def part_defs behind_code del: list.map map_append)

section \<open>The search for the slot of the thread\<close>

text \<open>One round of the loop: the owner of slot \<open>i\<close> is read; the slot is taken, if it can be, or passed over.\<close>

lemma owner_run:
  assumes "d_has_retprobe d \<noteq> 0" and "load32 (m_mem t) (slot_pos (m_reg t R9) i) = v"
    and "m_reg t RBX = of_nat i" and "i < LP_SHADOW_STACK_THREADS"
  shows "\<exists>t'. runs C (entry_prog d) (At (loop_part d) t) (if v = 0 then At (claim_part d) t' else At (cmp_part d) t') \<and>
    same_work t t' \<and> m_mem t' = m_mem t \<and> m_reg t' RBX = of_nat i \<and> m_reg t' RCX = ucast v \<and>
    m_reg t' R11 = slot_pos (m_reg t R9) i"
proof -
  let ?run = "runs C (entry_prog d)"
  have i: "i \<le> LP_SHADOW_STACK_THREADS" using assms(4) by simp
  obtain t1 where t1: "?run (At (loop_part d) t) (At (load_part d) t1)"
    "same_work t t1" "m_mem t1 = m_mem t" "m_reg t1 RBX = of_nat i"
    using loop_bound_run[OF assms(3) i, of C "entry_prog d" NoRet, where q = "load_part d", folded loop_part_def] assms(4)
    by auto
  have r9: "m_reg t1 R9 = m_reg t R9" using t1(2) by (simp add: same_work_def)
  have "load32 (m_mem t1) (slot_pos (m_reg t1 R9) i) = v" using assms(2) t1(3) r9 by simp
  from scan_load_run[OF t1(4) this, of C "entry_prog d" TryClaim, where q = "cmp_part d", folded load_part_def]
  obtain t2 where t2: "?run (At (load_part d) t1) (if v = 0 then At (claim_part d) t2 else At (cmp_part d) t2)"
    "same_work t1 t2" "m_mem t2 = m_mem t1" "m_reg t2 RBX = of_nat i" "m_reg t2 RCX = ucast v"
    "m_reg t2 R11 = slot_pos (m_reg t1 R9) i"
    unfolding goto_parts[OF assms(1)] by blast
  then show ?thesis
    using runs_trans[OF t1(1) t2(1)] same_work_trans[OF t1(2) t2(2)] t1(3) r9 by (intro exI[of _ t2]) simp
qed

lemma compare_run:
  assumes "d_has_retprobe d \<noteq> 0" and "m_reg t RCX = ucast v" and "load32 (m_mem t) (m_reg t R8 + 12) = tid"
    and "m_reg t RBX = of_nat i"
  shows "\<exists>t'. runs C (entry_prog d) (At (cmp_part d) t) (if v = tid then At (push_part d) t' else At (loop_part d) t') \<and>
    same_work t t' \<and> m_mem t' = m_mem t \<and> (if v = tid then m_reg t' R11 = m_reg t R11 else m_reg t' RBX = of_nat (Suc i))"
proof -
  let ?run = "runs C (entry_prog d)" and ?q = "J Next # L TryClaim # claim_part d"
  obtain f where f: "?run (At (cmp_part d) t) (if v = tid then At (push_part d) (t\<lparr>m_flags := f\<rparr>) else At ?q (t\<lparr>m_flags := f\<rparr>))"
    using tid_cmp_run[OF assms(2,3), of C "entry_prog d" Found, where q = ?q, folded cmp_part_def]
    unfolding goto_parts[OF assms(1)] by blast
  have same: "same_work t (t\<lparr>m_flags := f\<rparr>)" by (simp add: same_work_def)
  show ?thesis
  proof (cases "v = tid")
    case True
    then show ?thesis using f same by (intro exI[of _ "t\<lparr>m_flags := f\<rparr>"]) simp
  next
    case False
    have "?run (At (cmp_part d) t) (At ?q (t\<lparr>m_flags := f\<rparr>))" using f False by simp
    also have "?run (At ?q (t\<lparr>m_flags := f\<rparr>)) (At (next_part d) (t\<lparr>m_flags := f\<rparr>))"
      using jump_run[of C "entry_prog d" Next] by (simp add: goto_parts[OF assms(1)])
    finally have reach: "?run (At (cmp_part d) t) (At (next_part d) (t\<lparr>m_flags := f\<rparr>))" .
    have "m_reg (t\<lparr>m_flags := f\<rparr>) RBX = of_nat i" using assms(4) by simp
    from next_slot_run[OF this, of C "entry_prog d" Loop, where q = "L NoRet # no_ret_part d", folded next_part_def]
    obtain t' where "?run (At (next_part d) (t\<lparr>m_flags := f\<rparr>)) (At (loop_part d) t')" "same_work (t\<lparr>m_flags := f\<rparr>) t'"
      "m_mem t' = m_mem t" "m_reg t' RBX = of_nat (Suc i)"
      unfolding goto_parts[OF assms(1)] by auto
    then show ?thesis
      using runs_trans[OF reach] same_work_trans[OF same] False by (intro exI[of _ t']) simp
  qed
qed

lemma round_run:
  assumes "d_has_retprobe d \<noteq> 0" and "load32 (m_mem t) (slot_pos (m_reg t R9) i) = v"
    and "load32 (m_mem t) (m_reg t R8 + 12) = tid" and "m_reg t RBX = of_nat i" and "i < LP_SHADOW_STACK_THREADS"
  shows "\<exists>t'. same_work t t' \<and>
    (if v = 0 \<or> v = tid
     then runs C (entry_prog d) (At (loop_part d) t) (At (push_part d) t') \<and> m_reg t' R11 = slot_pos (m_reg t R9) i \<and>
       m_mem t' = (if v = 0 then store32 (m_mem t) (slot_pos (m_reg t R9) i) tid else m_mem t)
     else runs C (entry_prog d) (At (loop_part d) t) (At (loop_part d) t') \<and> m_mem t' = m_mem t \<and>
       m_reg t' RBX = of_nat (Suc i))"
proof -
  let ?run = "runs C (entry_prog d)" and ?a = "slot_pos (m_reg t R9) i"
  obtain t1 where t1: "?run (At (loop_part d) t) (if v = 0 then At (claim_part d) t1 else At (cmp_part d) t1)"
    and work: "same_work t t1" and m1: "m_mem t1 = m_mem t" and r1: "m_reg t1 RBX = of_nat i" "m_reg t1 RCX = ucast v" "m_reg t1 R11 = ?a"
    using owner_run[OF assms(1,2,4,5)] by blast
  have tid: "load32 (m_mem t1) (m_reg t1 R8 + 12) = tid" using assms(3) work m1 by (simp add: same_work_def)
  show ?thesis
  proof (cases "v = 0")
    case True
    have "load32 (m_mem t1) ?a = 0" using assms(2) m1 True by simp
    from scan_claim_run[OF r1(3) this tid, of C "entry_prog d" Found,
        where q = "map I scan_race @ JCC CC_E Found # J Next # L Found # push_part d", folded claim_part_def]
    obtain t2 where "?run (At (claim_part d) t1) (At (push_part d) t2)" "same_work t1 t2"
      "m_mem t2 = store32 (m_mem t) ?a tid" "m_reg t2 R11 = ?a"
      using m1 unfolding goto_parts[OF assms(1)] by auto
    then show ?thesis using runs_trans[OF t1] same_work_trans[OF work] True by (intro exI[of _ t2]) simp
  next
    case False
    obtain t2 where "?run (At (cmp_part d) t1) (if v = tid then At (push_part d) t2 else At (loop_part d) t2)" "same_work t1 t2"
      "m_mem t2 = m_mem t" "if v = tid then m_reg t2 R11 = ?a else m_reg t2 RBX = of_nat (Suc i)"
      using compare_run[OF assms(1) r1(2) tid r1(1), of C, unfolded m1 r1(3)] by blast
    then show ?thesis using runs_trans[OF t1] same_work_trans[OF work] False by (intro exI[of _ t2]) auto
  qed
qed

lemma search_run:
  assumes "d_has_retprobe d \<noteq> 0" and "shadow_at (m_mem t) (m_reg t R9) ss"
    and "load32 (m_mem t) (m_reg t R8 + 12) = tid"
    and "m_reg t RBX = of_nat i" and "i \<le> LP_SHADOW_STACK_THREADS"
  shows "\<exists>t'. same_work t t' \<and>
    (case first_slot (claimable tid) i (drop i ss) of
       None \<Rightarrow> runs C (entry_prog d) (At (loop_part d) t) (At (no_ret_part d) t') \<and> m_mem t' = m_mem t
     | Some k \<Rightarrow> runs C (entry_prog d) (At (loop_part d) t) (At (push_part d) t') \<and>
         m_reg t' R11 = slot_pos (m_reg t R9) k \<and>
         m_mem t' = (if ss_tid (ss ! k) = 0 then store32 (m_mem t) (slot_pos (m_reg t R9) k) tid else m_mem t))"
  using assms(2-)
proof (induction "LP_SHADOW_STACK_THREADS - i" arbitrary: i t)
  case 0
  then have i: "i = LP_SHADOW_STACK_THREADS" by simp
  have "length ss = LP_SHADOW_STACK_THREADS" using "0.prems"(1) by (simp add: shadow_at_def)
  then have none: "drop i ss = []" using i by simp
  show ?case
    using loop_bound_run[OF "0.prems"(3,4), of C "entry_prog d" NoRet, where q = "load_part d", folded loop_part_def] i
    unfolding none by (auto simp: goto_parts[OF assms(1)])
next
  case (Suc n)
  let ?run = "runs C (entry_prog d)" and ?e = "ss ! i"
  have i: "i < LP_SHADOW_STACK_THREADS" using Suc.hyps(2) by simp
  have ss: "length ss = LP_SHADOW_STACK_THREADS" "\<forall>e \<in> set ss. wf_shadow_entry e"
    using Suc.prems(1) by (simp_all add: shadow_at_def)
  have drop: "drop i ss = ?e # drop (Suc i) ss" using i ss(1) by (simp add: Cons_nth_drop_Suc)
  have "entry_at (m_mem t) (slot_pos (m_reg t R9) i) ?e" using Suc.prems(1) ss i by (simp add: shadow_at_slots)
  then have "load32 (m_mem t) (slot_pos (m_reg t R9) i) = ss_tid ?e" using ss i by (simp add: entry_at_fields)
  from round_run[OF assms(1) this Suc.prems(2,3) i, of C] obtain t1 where work: "same_work t t1" and t1:
    "if claimable tid ?e
     then ?run (At (loop_part d) t) (At (push_part d) t1) \<and> m_reg t1 R11 = slot_pos (m_reg t R9) i \<and>
       m_mem t1 = (if ss_tid ?e = 0 then store32 (m_mem t) (slot_pos (m_reg t R9) i) tid else m_mem t)
     else ?run (At (loop_part d) t) (At (loop_part d) t1) \<and> m_mem t1 = m_mem t \<and> m_reg t1 RBX = of_nat (Suc i)"
    unfolding claimable_def by blast
  show ?case
  proof (cases "claimable tid ?e")
    case True
    then show ?thesis using work t1 unfolding drop by (intro exI[of _ t1]) simp
  next
    case False
    then have reach: "?run (At (loop_part d) t) (At (loop_part d) t1)" and m1: "m_mem t1 = m_mem t" "m_reg t1 RBX = of_nat (Suc i)"
      using t1 by simp_all
    have r9: "m_reg t1 R9 = m_reg t R9" using work by (simp add: same_work_def)
    have "shadow_at (m_mem t) (m_reg t R9) ss" "load32 (m_mem t) (m_reg t1 R8 + 12) = tid"
      using Suc.prems(1,2) work by (simp_all add: same_work_def)
    moreover have "n = LP_SHADOW_STACK_THREADS - Suc i" "Suc i \<le> LP_SHADOW_STACK_THREADS" using Suc.hyps(2) i by simp_all
    ultimately obtain t2 where t2: "same_work t1 t2"
      "case first_slot (claimable tid) (Suc i) (drop (Suc i) ss) of
         None \<Rightarrow> ?run (At (loop_part d) t1) (At (no_ret_part d) t2) \<and> m_mem t2 = m_mem t
       | Some k \<Rightarrow> ?run (At (loop_part d) t1) (At (push_part d) t2) \<and> m_reg t2 R11 = slot_pos (m_reg t R9) k \<and>
           m_mem t2 = (if ss_tid (ss ! k) = 0 then store32 (m_mem t) (slot_pos (m_reg t R9) k) tid else m_mem t)"
      using Suc.hyps(1)[of "Suc i" t1, unfolded m1(1) r9] m1(2) by blast
    show ?thesis
      using t2(2) False runs_trans[OF reach] same_work_trans[OF work t2(1)] unfolding drop
      by (intro exI[of _ t2]) (auto split: option.splits)
  qed
qed

end
