(* ===== verification/Entry_Push.thy ===== *)
theory Entry_Push
  imports Slot_Search
begin

text \<open>
  The part of the entry stub that only a return probe has: it is \<open>shadow_push\<close> on the shadow stack
  in memory, and the word of the return address follows its result.
\<close>

abbreviation shadow_area :: "u64 \<Rightarrow> u64 set" where
  "shadow_area S \<equiv> range64 S sizeof_lp_shadow_stack"

lemma slot_area:
  assumes "k < LP_SHADOW_STACK_THREADS"
  shows "range64 (slot_pos S k) sizeof_lp_shadow_stack_entry \<subseteq> shadow_area S"
  using assms range64_sub[of "k * sizeof_lp_shadow_stack_entry" sizeof_lp_shadow_stack_entry sizeof_lp_shadow_stack S]
  by (simp add: slot_pos_def sizeof_lp_shadow_stack_entry_def sizeof_lp_shadow_stack_def lp_sizes)

lemma slot_word_area:
  "unat x + 4 \<le> 1032 \<Longrightarrow> range64 (a + x) 4 \<subseteq> range64 a sizeof_lp_shadow_stack_entry"
  "j < LP_SHADOW_STACK_DEPTH \<Longrightarrow> range64 (ret_pos a j) 8 \<subseteq> range64 a sizeof_lp_shadow_stack_entry"
  "j < LP_SHADOW_STACK_DEPTH \<Longrightarrow> range64 (time_pos a j) 8 \<subseteq> range64 a sizeof_lp_shadow_stack_entry"
  using range_inside[of x 4 1032 a] range64_sub[of "8 + j * 8" 8 1032 a] range64_sub[of "520 + j * 8" 8 1032 a]
  by (simp_all add: ret_pos_def time_pos_def sizeof_lp_shadow_stack_entry_def lp_sizes)

lemma shadow_at_wf: "shadow_at m a ss \<Longrightarrow> k < LP_SHADOW_STACK_THREADS \<Longrightarrow> wf_shadow_entry (ss ! k)"
  by (simp add: shadow_at_def)

lemma shadow_at_entry:
  "shadow_at m a ss \<Longrightarrow> k < LP_SHADOW_STACK_THREADS \<Longrightarrow> entry_at m (slot_pos a k) (ss ! k)"
  using shadow_at_slots[of ss m a] by (simp add: shadow_at_def)

lemma shadow_at_claim:
  assumes "shadow_at m S ss" and "k < LP_SHADOW_STACK_THREADS"
  shows "shadow_at (store32 m (slot_pos S k) tid) S (ss[k := (ss ! k)\<lparr>ss_tid := tid\<rparr>])"
    "changed (shadow_area S) m (store32 m (slot_pos S k) tid)"
proof -
  have e: "entry_at m (slot_pos S k) (ss ! k)" "wf_shadow_entry (ss ! k)"
    using assms by (simp_all add: shadow_at_entry shadow_at_wf)
  have ch: "changed (range64 (slot_pos S k) sizeof_lp_shadow_stack_entry) m (store32 m (slot_pos S k) tid)"
    using slot_word_area(1)[of 0 "slot_pos S k"] by (intro changed_store) simp
  show "shadow_at (store32 m (slot_pos S k) tid) S (ss[k := (ss ! k)\<lparr>ss_tid := tid\<rparr>])"
    using entry_at_claim[OF e] e(2) by (intro shadow_at_update[OF assms _ _ ch]) (simp_all add: wf_shadow_entry_def)
  show "changed (shadow_area S) m (store32 m (slot_pos S k) tid)"
    using changed_mono[OF ch slot_area[OF assms(2)]] .
qed

text \<open>What the push stores.\<close>

definition pushed :: "memory \<Rightarrow> u64 \<Rightarrow> nat \<Rightarrow> u64 \<Rightarrow> u64 \<Rightarrow> lp_shadow_stack_entry \<Rightarrow> memory" where
  "pushed m S k ret time e =
     store32 (store64 (store64 m (ret_pos (slot_pos S k) (unat (ss_depth e))) ret)
       (time_pos (slot_pos S k) (unat (ss_depth e))) time) (slot_pos S k + 4) (ss_depth e + 1)"

lemma shadow_at_pushed:
  assumes "shadow_at m S ss" and "k < LP_SHADOW_STACK_THREADS" and "unat (ss_depth (ss ! k)) < LP_SHADOW_STACK_DEPTH"
  shows "shadow_at (pushed m S k ret time (ss ! k)) S (ss[k := push_entry ret time (ss ! k)])"
    "changed (shadow_area S) m (pushed m S k ret time (ss ! k))"
proof -
  have e: "entry_at m (slot_pos S k) (ss ! k)" "wf_shadow_entry (ss ! k)"
    using assms(1,2) by (simp_all add: shadow_at_entry shadow_at_wf)
  have ch: "changed (range64 (slot_pos S k) sizeof_lp_shadow_stack_entry) m (pushed m S k ret time (ss ! k))"
    unfolding pushed_def by (intro changed_stores changed_refl slot_word_area assms(3)) simp
  show "shadow_at (pushed m S k ret time (ss ! k)) S (ss[k := push_entry ret time (ss ! k)])"
    using entry_at_push[OF e assms(3)] e(2)
    by (intro shadow_at_update[OF assms(1,2) _ _ ch]) (simp_all add: pushed_def push_entry_def wf_shadow_entry_def)
  show "changed (shadow_area S) m (pushed m S k ret time (ss ! k))"
    using changed_mono[OF ch slot_area[OF assms(2)]] .
qed

section \<open>The found slot\<close>

lemma no_ret_run: "runs C p (At (no_ret_part d) t) (At (restore_part d) t)"
proof -
  have "runs C p (At (no_ret_part d) t) (At (L Restore # restore_part d) t)"
    unfolding no_ret_part_def by (rule label_run)
  also have "runs C p (At (L Restore # restore_part d) t) (At (restore_part d) t)" by (rule label_run)
  finally show ?thesis .
qed

lemma found_run:
  assumes d: "d_has_retprobe d \<noteq> 0"
    and ss: "shadow_at (m_mem t) S ss" "k < LP_SHADOW_STACK_THREADS" and slot: "m_reg t R11 = slot_pos S k"
    and ret: "load64 (m_mem t) (m_reg t RSP + 128) = ret" and time: "load64 (m_mem t) (m_reg t R8) = time"
    and apart: "range64 (m_reg t R8) 8 \<inter> shadow_area S = {}"
  shows "\<exists>t'. runs C (entry_prog d) (At (push_part d) t) (At (restore_part d) t') \<and> same_work t t' \<and>
    m_mem t' = (if LP_SHADOW_STACK_DEPTH \<le> unat (ss_depth (ss ! k)) then m_mem t
      else store64 (pushed (m_mem t) S k ret time (ss ! k)) (m_reg t RSP + 128) (d_ret_stub_addr d))"
proof -
  let ?run = "runs C (entry_prog d)" and ?e = "ss ! k" and ?a = "slot_pos S k"
  let ?q = "map I (push_body (d_ret_stub_addr d)) @ J Done # L Next # next_part d"
  have "load32 (m_mem t) (?a + 4) = ss_depth ?e"
    using shadow_at_entry[OF ss] shadow_at_wf[OF ss] by (simp add: entry_at_fields)
  then have "load32 (m_mem t) (m_reg t R11 + 4) = ss_depth ?e" using slot by simp
  from push_check_run[OF this, of C "entry_prog d" NoRet, where q = ?q, folded push_part_def]
  obtain t1 where t1: "?run (At (push_part d) t) (if LP_SHADOW_STACK_DEPTH \<le> unat (ss_depth ?e)
      then goto (entry_prog d) NoRet t1 else At ?q t1)" "same_work t t1" "m_mem t1 = m_mem t"
    "m_reg t1 R11 = ?a" "m_reg t1 RCX = ucast (ss_depth ?e)"
    using slot by auto
  show ?thesis
  proof (cases "LP_SHADOW_STACK_DEPTH \<le> unat (ss_depth ?e)")
    case True
    then have "?run (At (push_part d) t) (At (no_ret_part d) t1)" using t1(1) by (simp add: goto_parts[OF d])
    then have "?run (At (push_part d) t) (At (restore_part d) t1)" using no_ret_run by (rule runs_trans)
    then show ?thesis using True t1(2,3) by auto
  next
    case False
    have regs: "m_reg t1 RSP = m_reg t RSP" "m_reg t1 R8 = m_reg t R8" using t1(2) by (simp_all add: same_work_def)
    let ?j = "unat (ss_depth ?e)"
    have "range64 (ret_pos ?a ?j) 8 \<subseteq> shadow_area S"
      using False slot_word_area(2)[of ?j ?a] slot_area[OF ss(2), of S] by auto
    then have "range64 (m_reg t R8) 8 \<inter> range64 (ret_pos ?a ?j) 8 = {}" using apart by blast
    from load_changed(1)[OF changed_store(1)[OF subset_refl] this]
    have "load64 (store64 (m_mem t1) (ret_pos ?a ?j) ret) (m_reg t1 R8) = time" using time t1(3) regs by simp
    moreover have "load64 (m_mem t1) (m_reg t1 RSP + 128) = ret" using ret t1(3) regs by simp
    ultimately obtain t2 where t2: "?run (At ?q t1) (goto (entry_prog d) Done t2)" "same_work t1 t2"
      "m_mem t2 = store64 (pushed (m_mem t) S k ret time ?e) (m_reg t RSP + 128) (d_ret_stub_addr d)"
      using push_body_run[OF t1(4,5), of ret time C "entry_prog d" "d_ret_stub_addr d" Done "L Next # next_part d"]
        t1(3) regs(1) unfolding pushed_def by auto
    have "?run (At (push_part d) t) (At ?q t1)" using t1(1) False by simp
    also have "?run (At ?q t1) (At (L Restore # restore_part d) t2)" using t2(1) by (simp add: goto_parts[OF d])
    also have "?run (At (L Restore # restore_part d) t2) (At (restore_part d) t2)" by (rule label_run)
    finally show ?thesis using False t2(3) same_work_trans[OF t1(2) t2(2)] by auto
  qed
qed

section \<open>The return probe of the entry stub\<close>

definition probe_part :: "probe_desc \<Rightarrow> lbl asm list" where
  "probe_part d = map I (scan_init (d_shadow_stack_addr d)) @ JCC CC_E NoRet # map I scan_clear @ L Loop # loop_part d"

lemma probe_start_run:
  assumes "d_shadow_stack_addr d \<noteq> 0"
  shows "\<exists>t'. runs C p (At (probe_part d) t) (At (loop_part d) t') \<and> m_mem t' = m_mem t \<and> m_os t' = m_os t \<and>
    m_reg t' RSP = m_reg t RSP \<and> m_reg t' R8 = m_reg t R8 \<and> m_reg t' R9 = d_shadow_stack_addr d \<and>
    m_reg t' RBX = of_nat 0"
proof -
  let ?S = "d_shadow_stack_addr d" and ?q = "map I scan_clear @ L Loop # loop_part d"
  let ?u = "t\<lparr>m_reg := (m_reg t)(R9 := ?S)\<rparr>"
  obtain f where "runs C p (At (map I ([MOVABS R9 ?S] @ [TEST_SELF True R9]) @ JCC CC_E NoRet # ?q) t)
      (let s' = ?u\<lparr>m_flags := new_flags C (TEST_SELF True R9) (?u\<lparr>m_flags := f\<rparr>)\<rparr>
       in if holds CC_E s' then goto p NoRet s' else At ?q s')" (is "runs _ _ _ (let s' = ?t in _)")
    using test_run[of "[MOVABS R9 ?S]" "TEST_SELF True R9" C p CC_E NoRet ?q t] by (auto simp: set_reg_def)
  moreover have "\<not> holds CC_E ?t" using assms by (simp add: zero_flag_def)
  ultimately have "runs C p (At (probe_part d) t) (At ?q ?t)" by (simp add: probe_part_def scan_init_def)
  also have "runs C p (At ?q ?t) (At (L Loop # loop_part d) (execs C scan_clear ?t))"
    by (rule runs_code) (simp add: scan_clear_def)
  also have "runs C p (At (L Loop # loop_part d) (execs C scan_clear ?t)) (At (loop_part d) (execs C scan_clear ?t))"
    by (rule label_run)
  finally show ?thesis
    by (intro exI[of _ "execs C scan_clear ?t"]) (simp add: scan_clear_def exec_def set_reg_def)
qed

lemma claimed_at:
  assumes ss: "shadow_at m S ss" and k: "first_slot (claimable tid) 0 ss = Some k"
  defines "m' \<equiv> if ss_tid (ss ! k) = 0 then store32 m (slot_pos S k) tid else m"
  shows "shadow_at m' S (ss[k := (ss ! k)\<lparr>ss_tid := tid\<rparr>])" "changed (shadow_area S) m m'"
proof -
  have len: "k < LP_SHADOW_STACK_THREADS" "claimable tid (ss ! k)"
    using first_slot_nth[OF k] ss by (simp_all add: shadow_at_def)
  have own: "ss[k := (ss ! k)\<lparr>ss_tid := tid\<rparr>] = ss" if "ss_tid (ss ! k) \<noteq> 0"
  proof -
    have "(ss ! k)\<lparr>ss_tid := tid\<rparr> = ss ! k" using len(2) that by (simp add: claimable_def)
    then show ?thesis by simp
  qed
  show "shadow_at m' S (ss[k := (ss ! k)\<lparr>ss_tid := tid\<rparr>])" "changed (shadow_area S) m m'"
    using shadow_at_claim[OF ss len(1), of tid] ss own by (auto simp: m'_def)
qed

lemma taken_run:
  assumes d: "d_has_retprobe d \<noteq> 0" and k: "first_slot (claimable tid) 0 ss = Some k"
    and ss: "shadow_at (m_mem t) S (ss[k := (ss ! k)\<lparr>ss_tid := tid\<rparr>])"
    and regs: "m_reg t RSP = sp" "m_reg t R8 = a" "m_reg t R11 = slot_pos S k"
    and time: "load64 (m_mem t) a = time" and ret: "load64 (m_mem t) (sp + 128) = ret"
    and apart: "range64 a 8 \<inter> shadow_area S = {}"
  shows "\<exists>t' m ss' took. shadow_push tid ret time ss = (ss', took) \<and>
    runs C (entry_prog d) (At (push_part d) t) (At (restore_part d) t') \<and> m_reg t' RSP = sp \<and>
    m_mem t' = (if took then store64 m (sp + 128) (d_ret_stub_addr d) else m) \<and>
    shadow_at m S ss' \<and> changed (shadow_area S) (m_mem t) m"
proof -
  let ?e = "(ss ! k)\<lparr>ss_tid := tid\<rparr>" and ?ss = "ss[k := (ss ! k)\<lparr>ss_tid := tid\<rparr>]"
  have len: "k < LP_SHADOW_STACK_THREADS" "?ss ! k = ?e"
    using first_slot_nth[OF k] ss by (simp_all add: shadow_at_def)
  obtain t' where t': "runs C (entry_prog d) (At (push_part d) t) (At (restore_part d) t')" "m_reg t' RSP = sp"
    "m_mem t' = (if LP_SHADOW_STACK_DEPTH \<le> unat (ss_depth ?e) then m_mem t
       else store64 (pushed (m_mem t) S k ret time ?e) (sp + 128) (d_ret_stub_addr d))"
    using found_run[OF d ss len(1) regs(3), of ret time C] ret time apart regs(1,2) unfolding len(2)
    by (auto simp: same_work_def)
  show ?thesis
  proof (cases "LP_SHADOW_STACK_DEPTH \<le> unat (ss_depth (ss ! k))")
    case True
    then show ?thesis
      using k t' ss
      by (intro exI[of _ t'] exI[of _ "m_mem t"] exI[of _ ?ss] exI[of _ False]) (simp add: shadow_push_def Let_def)
  next
    case False
    then have "unat (ss_depth (?ss ! k)) < LP_SHADOW_STACK_DEPTH" unfolding len(2) by simp
    from shadow_at_pushed[OF ss len(1) this, of ret time, unfolded len(2)] show ?thesis
      using False k t'
      by (intro exI[of _ t'] exI[of _ "pushed (m_mem t) S k ret time ?e"] exI[of _ "ss[k := push_entry ret time ?e]"]
          exI[of _ True]) (simp add: shadow_push_def Let_def)
  qed
qed

lemma probe_part_run:
  assumes d: "d_has_retprobe d \<noteq> 0" "d_shadow_stack_addr d \<noteq> 0"
    and ss: "shadow_at (m_mem t) (d_shadow_stack_addr d) ss"
    and sp: "m_reg t RSP = sp" and a: "m_reg t R8 = a"
    and tid: "load32 (m_mem t) (a + 12) = tid" and time: "load64 (m_mem t) a = time"
    and ret: "load64 (m_mem t) (sp + 128) = ret"
    and apart: "range64 (sp + 128) 8 \<inter> shadow_area (d_shadow_stack_addr d) = {}"
      "range64 a 88 \<inter> shadow_area (d_shadow_stack_addr d) = {}"
  shows "\<exists>t' m ss' took. shadow_push tid ret time ss = (ss', took) \<and>
    runs C (entry_prog d) (At (probe_part d) t) (At (restore_part d) t') \<and> m_reg t' RSP = sp \<and>
    m_mem t' = (if took then store64 m (sp + 128) (d_ret_stub_addr d) else m) \<and>
    shadow_at m (d_shadow_stack_addr d) ss' \<and> changed (shadow_area (d_shadow_stack_addr d)) (m_mem t) m"
proof -
  let ?run = "runs C (entry_prog d)" and ?S = "d_shadow_stack_addr d"
  obtain t1 where t1: "?run (At (probe_part d) t) (At (loop_part d) t1)" "m_mem t1 = m_mem t"
    "m_reg t1 RSP = sp" "m_reg t1 R8 = a" "m_reg t1 R9 = ?S" "m_reg t1 RBX = of_nat 0"
    using probe_start_run[OF d(2), of C "entry_prog d" t] sp a by auto
  have "shadow_at (m_mem t1) (m_reg t1 R9) ss" "load32 (m_mem t1) (m_reg t1 R8 + 12) = tid"
    using ss tid t1 by simp_all
  from search_run[OF d(1) this t1(6) le0, of C, unfolded drop_0 t1(2,5)] obtain t2 where work: "same_work t1 t2" and t2:
    "case first_slot (claimable tid) 0 ss of
       None \<Rightarrow> ?run (At (loop_part d) t1) (At (no_ret_part d) t2) \<and> m_mem t2 = m_mem t
     | Some k \<Rightarrow> ?run (At (loop_part d) t1) (At (push_part d) t2) \<and> m_reg t2 R11 = slot_pos ?S k \<and>
         m_mem t2 = (if ss_tid (ss ! k) = 0 then store32 (m_mem t) (slot_pos ?S k) tid else m_mem t)"
    by blast
  have r2: "m_reg t2 RSP = sp" "m_reg t2 R8 = a" using work t1 by (simp_all add: same_work_def)
  show ?thesis
  proof (cases "first_slot (claimable tid) 0 ss")
    case None
    then have "?run (At (loop_part d) t1) (At (no_ret_part d) t2)" "m_mem t2 = m_mem t" using t2 by simp_all
    then have "?run (At (probe_part d) t) (At (restore_part d) t2)"
      using t1(1) no_ret_run by (blast intro: runs_trans)
    then show ?thesis
      using None r2 \<open>m_mem t2 = m_mem t\<close> ss
      by (intro exI[of _ t2] exI[of _ "m_mem t"] exI[of _ ss] exI[of _ False]) (simp add: shadow_push_def)
  next
    case (Some k)
    have t2': "?run (At (loop_part d) t1) (At (push_part d) t2)" "m_reg t2 R11 = slot_pos ?S k" and
      m2: "m_mem t2 = (if ss_tid (ss ! k) = 0 then store32 (m_mem t) (slot_pos ?S k) tid else m_mem t)"
      using t2 Some by simp_all
    note claimed = claimed_at[OF ss Some, folded m2]
    have apart8: "range64 a 8 \<inter> shadow_area ?S = {}" using apart(2) range_inside[of 0 8 88 a] by auto
    have "load64 (m_mem t2) a = time" "load64 (m_mem t2) (sp + 128) = ret"
      using load_changed(1)[OF claimed(2) apart8] load_changed(1)[OF claimed(2) apart(1)] time ret by simp_all
    from taken_run[OF d(1) Some claimed(1) r2 t2'(2) this apart8, of C] obtain t3 m ss' took where
      "shadow_push tid ret time ss = (ss', took)" "?run (At (push_part d) t2) (At (restore_part d) t3)" "m_reg t3 RSP = sp"
      "m_mem t3 = (if took then store64 m (sp + 128) (d_ret_stub_addr d) else m)" "shadow_at m ?S ss'"
      "changed (shadow_area ?S) (m_mem t2) m" by blast
    then show ?thesis
      using runs_trans[OF t1(1) runs_trans[OF t2'(1)]] changed_trans[OF claimed(2)] by blast
  qed
qed

end
