(* ===== verification/Ret_Search.thy ===== *)
theory Ret_Search
  imports Entry_Push
begin

text \<open>
  The return stub in parts: the registers it saves, its search for the slot of the thread, and the
  pop of the return address.
\<close>

section \<open>The parts of the program\<close>

definition fallback_part :: "lbl asm list" where
  "fallback_part = map I trap @ []"

definition back_part :: "lbl asm list" where
  "back_part = map I next_slot @ J Loop # L Fallback # fallback_part"

definition return_part :: "probe_desc \<Rightarrow> lbl asm list" where
  "return_part d = map I (pop_body @ ret_event d @ ret_restore @ jmp_r11) @ L Next # back_part"

definition pop_part :: "probe_desc \<Rightarrow> lbl asm list" where
  "pop_part d = map I pop_check @ JCC CC_E Fallback # return_part d"

definition match_part :: "probe_desc \<Rightarrow> lbl asm list" where
  "match_part d = map I ret_load @ JCC CC_E Found # J Next # L Found # pop_part d"

definition seek_part :: "probe_desc \<Rightarrow> lbl asm list" where
  "seek_part d = map I loop_bound @ JCC CC_AE Fallback # match_part d"

lemmas ret_parts = seek_part_def match_part_def pop_part_def return_part_def back_part_def fallback_part_def

lemma ret_prog_parts:
  "ret_prog d = map I (ret_head (d_shadow_stack_addr d) @ ret_tid) @ L Loop # seek_part d"
  by (simp add: ret_prog_def ret_parts)

lemma goto_ret_parts:
  "goto (ret_prog d) Loop s = At (seek_part d) s" "goto (ret_prog d) Found s = At (pop_part d) s"
  "goto (ret_prog d) Next s = At back_part s" "goto (ret_prog d) Fallback s = At fallback_part s"
  by (simp_all add: goto_def ret_prog_def ret_parts behind_code del: list.map map_append)

lemma fallback_run: "runs C p (At fallback_part t) (Trap t)"
  by (rule runs_step) (simp add: fallback_part_def trap_def)

section \<open>The saved registers\<close>

definition ret_frame :: "'o machine \<Rightarrow> u64 \<Rightarrow> memory \<Rightarrow> bool" where
  "ret_frame s sp m \<longleftrightarrow>
     load64 m sp = m_reg s R12 \<and> load64 m (sp + 16) = m_reg s R10 \<and> load64 m (sp + 24) = m_reg s R9 \<and>
     load64 m (sp + 32) = m_reg s R8 \<and> load64 m (sp + 40) = m_reg s RDI \<and> load64 m (sp + 48) = m_reg s RSI \<and>
     load64 m (sp + 56) = m_reg s RDX \<and> load64 m (sp + 64) = m_reg s RCX \<and> load64 m (sp + 72) = m_reg s RBX \<and>
     load64 m (sp + 80) = m_reg s RAX \<and> load64 m (sp + 88) = m_flags s"

text \<open>The word for \<open>r11\<close> is left out: the pop puts the return address there.\<close>

lemma ret_frame_changed:
  assumes "ret_frame s sp m" and "changed A m m'" and "range64 sp 96 \<inter> A \<subseteq> range64 (sp + 8) 8"
  shows "ret_frame s sp m'"
proof -
  have same: "load64 m' (sp + x) = load64 m (sp + x)" if "unat x + 8 \<le> 96" "16 \<le> unat x \<or> x = 0" for x
  proof (rule load_changed(1)[OF assms(2)])
    have "range64 (sp + of_nat (unat x)) 8 \<inter> range64 (sp + of_nat 8) 8 = {}"
      using that by (intro offsets_apart) auto
    then show "range64 (sp + x) 8 \<inter> A = {}" using range_inside[OF that(1), of sp] assms(3) by auto
  qed
  show ?thesis using assms(1) same[of 0] by (simp add: ret_frame_def same)
qed

definition ret_saved :: "reg list" where
  "ret_saved = [RAX, RBX, RCX, RDX, RSI, RDI, R8, R9, R10, R11, R12]"

lemma ret_head_eq: "ret_head a = PUSHFQ # map PUSH ret_saved @ [MOVABS R10 a]"
  by (simp add: ret_head_def ret_saved_def)

lemma ret_head_run:
  "\<exists>m f. execs C (ret_head a) s =
       s\<lparr>m_reg := (m_reg s)(RSP := m_reg s RSP - 96, R10 := a), m_mem := m, m_flags := f\<rparr> \<and>
     ret_frame s (m_reg s RSP - 96) m \<and> changed (range64 (m_reg s RSP - 96) 96) (m_mem s) m"
proof -
  have rs: "RSP \<notin> set ret_saved" "length ret_saved < 100" by (simp_all add: ret_saved_def)
  obtain m f where run: "execs C (ret_head a) s =
      s\<lparr>m_reg := (m_reg s)(RSP := m_reg s RSP - 96, R10 := a), m_mem := m, m_flags := f\<rparr>"
    and m: "bytes_at m (m_reg s RSP - 96) (concat (map le64 (rev (m_flags s # map (m_reg s) ret_saved))))"
      "changed (range64 (m_reg s RSP - 96) 96) (m_mem s) m"
    using save_run[OF rs, of C a s] by (auto simp: ret_head_eq ret_saved_def)
  then show ?thesis
    by (intro exI[of _ m] exI[of _ f]) (simp add: ret_saved_def bytes_at_append bytes_at_words ret_frame_def add.assoc)
qed

section \<open>The search\<close>

lemma match_run:
  assumes "m_reg t RBX = of_nat i" and "load32 (m_mem t) (slot_pos (m_reg t R10) i) = v"
    and "m_reg t R8 = ucast tid"
  shows "\<exists>t'. runs C p (At (map I ret_load @ JCC CC_E l # q) t) (if v = tid then goto p l t' else At q t') \<and>
    same_work t t' \<and> m_mem t' = m_mem t \<and> m_reg t' RBX = of_nat i \<and> m_reg t' R11 = slot_pos (m_reg t R10) i"
proof -
  let ?is = "slot_addr R10 @ [MOV_LD False RCX (at R11)]" and ?i = "CMP_RR32 RCX R8"
  let ?u = "t\<lparr>m_reg := (m_reg t)(R11 := slot_pos (m_reg t R10) i, RCX := ucast v)\<rparr>"
  have "cores C (slot_addr R10) t = t\<lparr>m_reg := (m_reg t)(R11 := slot_pos (m_reg t R10) i)\<rparr>"
    by (rule slot_addr_cores[OF assms(1)]) simp
  then have u: "cores C ?is t = ?u"
    using assms(2) by (simp add: cores_append at_def set_reg_def)
  have w: "cores C (?is @ [?i]) t = ?u" unfolding cores_append[of C ?is] u by simp
  have split: "ret_load = ?is @ [?i]" by (simp add: ret_load_def)
  obtain f where "runs C p (At (map I (?is @ [?i]) @ JCC CC_E l # q) t)
      (let s' = (cores C (?is @ [?i]) t)\<lparr>m_flags := new_flags C ?i ((cores C ?is t)\<lparr>m_flags := f\<rparr>)\<rparr>
       in if holds CC_E s' then goto p l s' else At q s')"
    using test_run[of ?is ?i C p CC_E l q t] by (auto simp: slot_addr_def)
  then have "runs C p (At (map I ret_load @ JCC CC_E l # q) t)
      (let s' = ?u\<lparr>m_flags := new_flags C ?i (?u\<lparr>m_flags := f\<rparr>)\<rparr>
       in if holds CC_E s' then goto p l s' else At q s')" (is "runs _ _ _ (let s' = ?t in _)")
    unfolding u w split .
  moreover have "holds CC_E ?t \<longleftrightarrow> v = tid" using assms(3) by (simp add: zero_flag_def)
  ultimately show ?thesis
    using assms(1) by (intro exI[of _ ?t]) (auto simp: Let_def same_work_def split: if_splits)
qed

lemma seek_round_run:
  assumes "load32 (m_mem t) (slot_pos (m_reg t R10) i) = v" and "m_reg t R8 = ucast tid"
    and "m_reg t RBX = of_nat i" and "i < LP_SHADOW_STACK_THREADS"
  shows "\<exists>t'. same_work t t' \<and> m_mem t' = m_mem t \<and>
    (if v = tid then runs C (ret_prog d) (At (seek_part d) t) (At (pop_part d) t') \<and> m_reg t' R11 = slot_pos (m_reg t R10) i
     else runs C (ret_prog d) (At (seek_part d) t) (At (seek_part d) t') \<and> m_reg t' RBX = of_nat (Suc i))"
proof -
  let ?run = "runs C (ret_prog d)" and ?q = "J Next # L Found # pop_part d"
  have i: "i \<le> LP_SHADOW_STACK_THREADS" using assms(4) by simp
  obtain t1 where t1: "?run (At (seek_part d) t) (At (match_part d) t1)"
    and work: "same_work t t1" and m1: "m_mem t1 = m_mem t" "m_reg t1 RBX = of_nat i"
    using loop_bound_run[OF assms(3) i, of C "ret_prog d" Fallback, where q = "match_part d", folded seek_part_def] assms(4)
    by auto
  have "load32 (m_mem t1) (slot_pos (m_reg t1 R10) i) = v" "m_reg t1 R8 = ucast tid" "m_reg t1 R10 = m_reg t R10"
    using assms(1,2) work m1(1) by (simp_all add: same_work_def)
  from match_run[OF m1(2) this(1,2), of C "ret_prog d" Found, where q = ?q, folded match_part_def] this(3)
  obtain t2 where t2: "?run (At (match_part d) t1) (if v = tid then At (pop_part d) t2 else At ?q t2)"
    "same_work t1 t2" "m_mem t2 = m_mem t" "m_reg t2 RBX = of_nat i" "m_reg t2 R11 = slot_pos (m_reg t R10) i"
    using m1(1) unfolding goto_ret_parts by auto
  have work2: "same_work t t2" using work t2(2) by (rule same_work_trans)
  note reach = runs_trans[OF t1 t2(1)]
  show ?thesis
  proof (cases "v = tid")
    case True
    then show ?thesis using reach work2 t2(3,5) by (intro exI[of _ t2]) simp
  next
    case False
    have "?run (At (seek_part d) t) (At ?q t2)" using reach False by simp
    also have "?run (At ?q t2) (At back_part t2)" using jump_run[of C "ret_prog d" Next] by (simp add: goto_ret_parts)
    finally have reach2: "?run (At (seek_part d) t) (At back_part t2)" .
    obtain t3 where "?run (At back_part t2) (At (seek_part d) t3)" "same_work t2 t3" "m_mem t3 = m_mem t"
      "m_reg t3 RBX = of_nat (Suc i)"
      using next_slot_run[OF t2(4), of C "ret_prog d" Loop, where q = "L Fallback # fallback_part", folded back_part_def] t2(3)
      unfolding goto_ret_parts by auto
    then show ?thesis using runs_trans[OF reach2] same_work_trans[OF work2] False by (intro exI[of _ t3]) simp
  qed
qed

lemma seek_run:
  assumes "shadow_at (m_mem t) (m_reg t R10) ss" and "m_reg t R8 = ucast tid"
    and "m_reg t RBX = of_nat i" and "i \<le> LP_SHADOW_STACK_THREADS"
  shows "\<exists>t'. same_work t t' \<and> m_mem t' = m_mem t \<and>
    (case first_slot (\<lambda>e. ss_tid e = tid) i (drop i ss) of
       None \<Rightarrow> runs C (ret_prog d) (At (seek_part d) t) (Trap t')
     | Some k \<Rightarrow> runs C (ret_prog d) (At (seek_part d) t) (At (pop_part d) t') \<and> m_reg t' R11 = slot_pos (m_reg t R10) k)"
  using assms
proof (induction "LP_SHADOW_STACK_THREADS - i" arbitrary: i t)
  case 0
  then have i: "i = LP_SHADOW_STACK_THREADS" by simp
  have "length ss = LP_SHADOW_STACK_THREADS" using "0.prems"(1) by (simp add: shadow_at_def)
  then have none: "drop i ss = []" using i by simp
  obtain t' where t': "runs C (ret_prog d) (At (seek_part d) t) (At fallback_part t')" "same_work t t'" "m_mem t' = m_mem t"
    using loop_bound_run[OF "0.prems"(3,4), of C "ret_prog d" Fallback, where q = "match_part d", folded seek_part_def] i
    by (auto simp: goto_ret_parts)
  have "runs C (ret_prog d) (At (seek_part d) t) (Trap t')" using t'(1) fallback_run by (rule runs_trans)
  then show ?case unfolding none using t'(2,3) by auto
next
  case (Suc n)
  let ?run = "runs C (ret_prog d)" and ?e = "ss ! i"
  have i: "i < LP_SHADOW_STACK_THREADS" using Suc.hyps(2) by simp
  have ss: "length ss = LP_SHADOW_STACK_THREADS" using Suc.prems(1) by (simp add: shadow_at_def)
  have drop: "drop i ss = ?e # drop (Suc i) ss" using i ss by (simp add: Cons_nth_drop_Suc)
  have "load32 (m_mem t) (slot_pos (m_reg t R10) i) = ss_tid ?e"
    using shadow_at_entry[OF Suc.prems(1) i] shadow_at_wf[OF Suc.prems(1) i] by (simp add: entry_at_fields)
  from seek_round_run[OF this Suc.prems(2,3) i, of C d] obtain t1 where work: "same_work t t1" "m_mem t1 = m_mem t" and t1:
    "if ss_tid ?e = tid then ?run (At (seek_part d) t) (At (pop_part d) t1) \<and> m_reg t1 R11 = slot_pos (m_reg t R10) i
     else ?run (At (seek_part d) t) (At (seek_part d) t1) \<and> m_reg t1 RBX = of_nat (Suc i)"
    by blast
  show ?case
  proof (cases "ss_tid ?e = tid")
    case True
    then show ?thesis using work t1 unfolding drop by (intro exI[of _ t1]) simp
  next
    case False
    then have reach: "?run (At (seek_part d) t) (At (seek_part d) t1)" and rbx: "m_reg t1 RBX = of_nat (Suc i)" using t1 by simp_all
    have r1: "m_reg t1 R10 = m_reg t R10" "m_reg t1 R8 = ucast tid" using work(1) Suc.prems(2) by (simp_all add: same_work_def)
    have "n = LP_SHADOW_STACK_THREADS - Suc i" "Suc i \<le> LP_SHADOW_STACK_THREADS" "shadow_at (m_mem t1) (m_reg t1 R10) ss"
      using Suc.hyps(2) i Suc.prems(1) work(2) r1 by simp_all
    from Suc.hyps(1)[OF this(1,3) r1(2) rbx this(2), unfolded r1(1) work(2)]
    obtain t2 where t2: "same_work t1 t2" "m_mem t2 = m_mem t"
      "case first_slot (\<lambda>e. ss_tid e = tid) (Suc i) (drop (Suc i) ss) of
         None \<Rightarrow> ?run (At (seek_part d) t1) (Trap t2)
       | Some k \<Rightarrow> ?run (At (seek_part d) t1) (At (pop_part d) t2) \<and> m_reg t2 R11 = slot_pos (m_reg t R10) k"
      by blast
    show ?thesis
      using t2(2,3) False runs_trans[OF reach] same_work_trans[OF work(1) t2(1)] unfolding drop
      by (intro exI[of _ t2]) (auto split: option.splits)
  qed
qed

section \<open>The pop\<close>

lemma pop_check_run:
  assumes "load32 (m_mem t) (m_reg t R11 + 4) = v"
  shows "\<exists>t'. runs C p (At (map I pop_check @ JCC CC_E l # q) t) (if v = 0 then goto p l t' else At q t') \<and>
    same_work t t' \<and> m_mem t' = m_mem t \<and> m_reg t' R11 = m_reg t R11 \<and> m_reg t' RCX = ucast v"
proof -
  let ?is = "[MOV_LD False RCX (at8 R11 4)]" and ?i = "TEST_SELF False RCX"
  let ?u = "t\<lparr>m_reg := (m_reg t)(RCX := ucast v)\<rparr>"
  have u: "cores C ?is t = ?u" using assms by (simp add: at8_def set_reg_def)
  have w: "cores C (?is @ [?i]) t = ?u" unfolding cores_append u by simp
  obtain f where "runs C p (At (map I (?is @ [?i]) @ JCC CC_E l # q) t)
      (let s' = (cores C (?is @ [?i]) t)\<lparr>m_flags := new_flags C ?i ((cores C ?is t)\<lparr>m_flags := f\<rparr>)\<rparr>
       in if holds CC_E s' then goto p l s' else At q s')"
    using test_run[of ?is ?i C p CC_E l q t] by auto
  then have "runs C p (At (map I pop_check @ JCC CC_E l # q) t)
      (let s' = ?u\<lparr>m_flags := new_flags C ?i (?u\<lparr>m_flags := f\<rparr>)\<rparr>
       in if holds CC_E s' then goto p l s' else At q s')" (is "runs _ _ _ (let s' = ?t in _)")
    unfolding u w by (simp add: pop_check_def)
  moreover have "holds CC_E ?t \<longleftrightarrow> v = 0" by (simp add: zero_flag_def)
  ultimately show ?thesis
    by (intro exI[of _ ?t]) (auto simp: Let_def same_work_def split: if_splits)
qed

lemma pop_body_cores:
  assumes "m_reg t R11 = a" and "m_reg t RCX = ucast v" and "m_reg t RSP = sp"
    and "load64 (store32 (m_mem t) (a + 4) (v - 1)) (ret_pos a (unat (v - 1))) = ret"
  shows "cores C pop_body t = t\<lparr>m_reg := (m_reg t)(RCX := ucast (v - 1), RDX := ret, RBX := a, R12 := ucast (v - 1)),
    m_mem := store64 (store32 (m_mem t) (a + 4) (v - 1)) (sp + 8) ret\<rparr>"
proof -
  have "a + push_bit 3 (ucast (v - 1)) + 8 = ret_pos a (unat (v - 1))"
    by (simp add: slot_index ret_pos_def add.commute add.left_commute)
  then show ?thesis
    using assms by (simp add: pop_body_def at_defs set_reg_def set_mem_def fun_upd_twist)
qed

end
