(* ===== verification/Frames.thy ===== *)
theory Frames
  imports Ret_Search
begin

text \<open>
  The shadow stack as what it stands for: for every thread the calls that have not returned yet,
  each with its return address and its entry time, the innermost first.
\<close>

definition slot_frames :: "lp_shadow_stack_entry \<Rightarrow> (u64 \<times> u64) list" where
  "slot_frames e = rev (take (unat (ss_depth e)) (zip (ss_return_addrs e) (ss_entry_timestamps e)))"

definition frames :: "u32 \<Rightarrow> lp_shadow_stack \<Rightarrow> (u64 \<times> u64) list" where
  "frames tid ss = (case first_slot (\<lambda>e. ss_tid e = tid) 0 ss of None \<Rightarrow> [] | Some i \<Rightarrow> slot_frames (ss ! i))"

text \<open>Slots are taken in order and never given back.\<close>

definition shadow_ok :: "lp_shadow_stack \<Rightarrow> bool" where
  "shadow_ok ss \<longleftrightarrow> wf_shadow ss \<and>
     (\<forall>i < length ss. ss_tid (ss ! i) = 0 \<longrightarrow> ss_depth (ss ! i) = 0 \<and> (\<forall>j < length ss. i < j \<longrightarrow> ss_tid (ss ! j) = 0))"

lemma shadow_ok_init: "shadow_ok lp_shadow_stack_init"
  by (simp add: shadow_ok_def wf_shadow_def lp_shadow_stack_init_def wf_shadow_entry_def)

text \<open>What the first slot is.\<close>

lemma first_slot_iff:
  "first_slot P 0 xs = Some i \<longleftrightarrow> i < length xs \<and> P (xs ! i) \<and> (\<forall>j < i. \<not> P (xs ! j))"
proof -
  have "first_slot P n xs = Some m \<longleftrightarrow> n \<le> m \<and> m - n < length xs \<and> P (xs ! (m - n)) \<and> (\<forall>j < m - n. \<not> P (xs ! j))" for n m
  proof (induction xs arbitrary: n)
    case (Cons x xs)
    show ?case
    proof (cases "P x")
      case True
      then show ?thesis by (cases "m - n") (auto simp: nth_Cons')
    next
      case False
      have "(n \<le> m \<and> m - n < Suc (length xs) \<and> P ((x # xs) ! (m - n)) \<and> (\<forall>j < m - n. \<not> P ((x # xs) ! j))) \<longleftrightarrow>
          (Suc n \<le> m \<and> m - Suc n < length xs \<and> P (xs ! (m - Suc n)) \<and> (\<forall>j < m - Suc n. \<not> P (xs ! j)))"
      proof (cases "m - n")
        case 0
        then show ?thesis using False by auto
      next
        case (Suc k)
        then have "m - Suc n = k" "Suc n \<le> m" "n \<le> m" by simp_all
        then show ?thesis using False Suc by (auto simp: less_Suc_eq_0_disj All_less_Suc2)
      qed
      then show ?thesis using False Cons.IH by simp
    qed
  qed simp
  from this[of 0 i] show ?thesis by simp
qed

lemma option_eqI: "(\<And>k. a = Some k \<longleftrightarrow> b = Some k) \<Longrightarrow> a = b"
  by (cases a; cases b) auto

lemma frames_update:
  assumes "first_slot (\<lambda>e. ss_tid e = tid) 0 ss = Some i" and "ss_tid e = tid"
  shows "frames tid (ss[i := e]) = slot_frames e"
    "t \<noteq> tid \<Longrightarrow> frames t (ss[i := e]) = frames t ss"
proof -
  have i: "i < length ss" "ss_tid (ss ! i) = tid" "\<forall>j < i. ss_tid (ss ! j) \<noteq> tid"
    using assms(1) by (simp_all add: first_slot_iff)
  have "first_slot (\<lambda>e. ss_tid e = tid) 0 (ss[i := e]) = Some i"
    using i assms(2) by (simp add: first_slot_iff)
  then show "frames tid (ss[i := e]) = slot_frames e" using i(1) by (simp add: frames_def)
  assume t: "t \<noteq> tid"
  have same: "ss_tid (ss[i := e] ! j) = ss_tid (ss ! j)" for j
    using i(1,2) assms(2) by (cases "j = i") simp_all
  have "first_slot (\<lambda>e. ss_tid e = t) 0 (ss[i := e]) = first_slot (\<lambda>e. ss_tid e = t) 0 ss"
    by (rule option_eqI) (simp add: first_slot_iff same)
  moreover have "k \<noteq> i" if "first_slot (\<lambda>e. ss_tid e = t) 0 ss = Some k" for k
    using that i(2) t by (auto simp: first_slot_iff)
  ultimately show "frames t (ss[i := e]) = frames t ss"
    by (auto simp: frames_def split: option.splits)
qed

text \<open>An update of a slot that keeps its owner, and the claim of the first free slot.\<close>

lemma shadow_ok_update:
  assumes "shadow_ok ss" and "i < length ss" and "ss_tid e \<noteq> 0" and "wf_shadow_entry e"
    and "unat (ss_depth e) \<le> LP_SHADOW_STACK_DEPTH" and "\<forall>j < i. ss_tid (ss ! j) \<noteq> 0"
  shows "shadow_ok (ss[i := e])"
proof -
  have "\<forall>x \<in> set (ss[i := e]). wf_shadow_entry x \<and> unat (ss_depth x) \<le> LP_SHADOW_STACK_DEPTH"
    using assms(1,4,5) set_update_subset_insert[of ss i e] unfolding shadow_ok_def wf_shadow_def by blast
  moreover have "ss_depth (ss[i := e] ! k) = 0 \<and> (\<forall>j < length ss. k < j \<longrightarrow> ss_tid (ss[i := e] ! j) = 0)"
    if k: "k < length ss" "ss_tid (ss[i := e] ! k) = 0" for k
  proof -
    have ne: "k \<noteq> i" using k assms(2,3) by auto
    then have free: "ss_tid (ss ! k) = 0" using k(2) by simp
    then have "\<not> k < i" using assms(6) by blast
    then have "i < k" using ne by simp
    then show ?thesis using assms(1) free k(1) ne unfolding shadow_ok_def by auto
  qed
  ultimately show ?thesis using assms(1) by (simp add: shadow_ok_def wf_shadow_def)
qed

text \<open>The slot that a push takes is the thread's own, or a free one that stands for no call.\<close>

lemma claimed_slot:
  assumes ok: "shadow_ok ss" and tid: "tid \<noteq> 0" and i: "first_slot (claimable tid) 0 ss = Some i"
    and e: "wf_shadow_entry e" "unat (ss_depth e) \<le> LP_SHADOW_STACK_DEPTH" "ss_tid e = tid"
  shows "frames tid ss = slot_frames (ss ! i)" "frames tid (ss[i := e]) = slot_frames e" "shadow_ok (ss[i := e])"
    "t \<noteq> tid \<Longrightarrow> t \<noteq> 0 \<Longrightarrow> frames t (ss[i := e]) = frames t ss"
proof -
  have slot: "i < length ss" "claimable tid (ss ! i)" "\<forall>j < i. ss_tid (ss ! j) \<noteq> 0 \<and> ss_tid (ss ! j) \<noteq> tid"
    using i by (simp_all add: first_slot_iff claimable_def)
  show "shadow_ok (ss[i := e])" using shadow_ok_update[OF ok slot(1) _ e(1,2)] slot(3) tid e(3) by simp
  show "frames tid (ss[i := e]) = slot_frames e"
    using slot e(3) by (simp add: frames_def first_slot_iff[THEN iffD2, of i])
  have depth: "slot_frames (ss ! i) = []" if "ss_tid (ss ! i) = 0"
    using ok slot(1) that by (simp add: shadow_ok_def slot_frames_def)
  show "frames tid ss = slot_frames (ss ! i)"
  proof (cases "ss_tid (ss ! i) = 0")
    case True
    have "ss_tid (ss ! j) \<noteq> tid" if "j < length ss" for j
    proof (cases j i rule: linorder_cases)
      case greater
      then have "ss_tid (ss ! j) = 0" using ok slot(1) True that unfolding shadow_ok_def by blast
      then show ?thesis using tid by simp
    qed (use slot True tid in auto)
    then have "first_slot (\<lambda>e. ss_tid e = tid) 0 ss = None" by (fastforce simp: first_slot_None in_set_conv_nth)
    then show ?thesis using depth[OF True] by (simp add: frames_def)
  next
    case False
    then have "first_slot (\<lambda>e. ss_tid e = tid) 0 ss = Some i" using slot by (simp add: first_slot_iff claimable_def)
    then show ?thesis by (simp add: frames_def)
  qed
  assume t: "t \<noteq> tid" "t \<noteq> 0"
  have same: "(ss_tid (ss[i := e] ! j) = t) = (ss_tid (ss ! j) = t)" for j
    using slot(1,2) e(3) t by (cases "j = i") (auto simp: claimable_def)
  have eq: "first_slot (\<lambda>e. ss_tid e = t) 0 (ss[i := e]) = first_slot (\<lambda>e. ss_tid e = t) 0 ss"
    by (rule option_eqI) (simp add: first_slot_iff same)
  have "k \<noteq> i" if "first_slot (\<lambda>e. ss_tid e = t) 0 ss = Some k" for k
    using that slot(2) t by (auto simp: first_slot_iff claimable_def)
  then show "frames t (ss[i := e]) = frames t ss"
    using eq by (auto simp: frames_def split: option.splits)
qed

lemma slot_frames_push:
  assumes "wf_shadow_entry e" and "unat (ss_depth e) < LP_SHADOW_STACK_DEPTH"
  shows "slot_frames (push_entry ret time e) = (ret, time) # slot_frames e"
proof -
  let ?n = "unat (ss_depth e)" and ?z = "zip (ss_return_addrs e) (ss_entry_timestamps e)"
  have "unat (ss_depth e + 1) = Suc ?n"
    using assms(2) by (simp add: unat_word_ariths LP_SHADOW_STACK_DEPTH_def)
  moreover have "?n < length ?z" using assms by (simp add: wf_shadow_entry_def)
  then have "take (Suc ?n) (?z[?n := (ret, time)]) = take ?n ?z @ [(ret, time)]"
    by (simp add: take_Suc_conv_app_nth)
  ultimately show ?thesis by (simp add: slot_frames_def push_entry_def zip_update)
qed

theorem push_frames:
  assumes "shadow_ok ss" and "tid \<noteq> 0" and "shadow_push tid ret time ss = (ss', took)"
  shows "shadow_ok ss'" "frames tid ss' = (if took then [(ret, time)] else []) @ frames tid ss"
    "t \<noteq> tid \<Longrightarrow> t \<noteq> 0 \<Longrightarrow> frames t ss' = frames t ss"
proof -
  have "shadow_ok ss' \<and> frames tid ss' = (if took then [(ret, time)] else []) @ frames tid ss \<and>
    (t \<noteq> tid \<and> t \<noteq> 0 \<longrightarrow> frames t ss' = frames t ss)"
  proof (cases "first_slot (claimable tid) 0 ss")
    case None
    then show ?thesis using assms by (simp add: shadow_push_def)
  next
    case (Some i)
    define e where "e = (ss ! i)\<lparr>ss_tid := tid\<rparr>"
    have "ss ! i \<in> set ss" using Some by (simp add: first_slot_iff)
    then have wf: "wf_shadow_entry e" "unat (ss_depth e) \<le> LP_SHADOW_STACK_DEPTH"
      using assms(1) by (auto simp: e_def shadow_ok_def wf_shadow_def wf_shadow_entry_def)
    have tid: "ss_tid e = tid" and sf: "slot_frames e = slot_frames (ss ! i)" by (simp_all add: e_def slot_frames_def)
    note same = claimed_slot[OF assms(1,2) Some]
    show ?thesis
    proof (cases "LP_SHADOW_STACK_DEPTH \<le> unat (ss_depth e)")
      case True
      then have "ss' = ss[i := e]" "\<not> took" using assms(3) Some by (auto simp: shadow_push_def Let_def e_def)
      then show ?thesis using same[OF wf tid] sf by simp
    next
      case False
      have "unat (ss_depth e + 1) \<le> LP_SHADOW_STACK_DEPTH"
        using False by (simp add: unat_word_ariths LP_SHADOW_STACK_DEPTH_def)
      then have p: "wf_shadow_entry (push_entry ret time e)" "unat (ss_depth (push_entry ret time e)) \<le> LP_SHADOW_STACK_DEPTH"
        "ss_tid (push_entry ret time e) = tid"
        using wf(1) tid by (simp_all add: push_entry_def wf_shadow_entry_def)
      have "ss' = ss[i := push_entry ret time e]" "took"
        using assms(3) Some False by (auto simp: shadow_push_def Let_def e_def)
      then show ?thesis using same[OF p] slot_frames_push[OF wf(1)] sf False by simp
    qed
  qed
  then show "shadow_ok ss'" "frames tid ss' = (if took then [(ret, time)] else []) @ frames tid ss"
    "t \<noteq> tid \<Longrightarrow> t \<noteq> 0 \<Longrightarrow> frames t ss' = frames t ss" by blast+
qed

lemma slot_frames_pop:
  assumes "wf_shadow_entry e" and "unat (ss_depth e) \<le> LP_SHADOW_STACK_DEPTH" and "ss_depth e \<noteq> 0"
  defines "v \<equiv> ss_depth e - 1"
  shows "slot_frames e = (ss_return_addrs e ! unat v, ss_entry_timestamps e ! unat v) # slot_frames (e\<lparr>ss_depth := v\<rparr>)"
    "unat v < LP_SHADOW_STACK_DEPTH"
proof -
  let ?z = "zip (ss_return_addrs e) (ss_entry_timestamps e)"
  have n: "unat (ss_depth e) = Suc (unat v)"
    using assms(3) unat_minus_one[of "ss_depth e"] unat_gt_0[of "ss_depth e"] by (simp add: v_def)
  then show v: "unat v < LP_SHADOW_STACK_DEPTH" using assms(2) by simp
  have "unat v < length ?z" using v assms(1) by (simp add: wf_shadow_entry_def)
  then show "slot_frames e = (ss_return_addrs e ! unat v, ss_entry_timestamps e ! unat v) # slot_frames (e\<lparr>ss_depth := v\<rparr>)"
    by (simp add: slot_frames_def n take_Suc_conv_app_nth)
qed

theorem pop_frames:
  assumes "shadow_ok ss" and "tid \<noteq> 0"
  shows "case shadow_pop tid ss of
      None \<Rightarrow> frames tid ss = []
    | Some (ret, start, ss') \<Rightarrow> frames tid ss = (ret, start) # frames tid ss' \<and> shadow_ok ss' \<and>
        (\<forall>t. t \<noteq> tid \<longrightarrow> frames t ss' = frames t ss)"
proof (cases "first_slot (\<lambda>e. ss_tid e = tid) 0 ss")
  case None
  then show ?thesis by (simp add: shadow_pop_def frames_def)
next
  case (Some i)
  have i: "i < length ss" "ss_tid (ss ! i) = tid" using Some by (simp_all add: first_slot_iff)
  have wf: "wf_shadow_entry (ss ! i)" "unat (ss_depth (ss ! i)) \<le> LP_SHADOW_STACK_DEPTH"
    using assms(1) i(1) by (simp_all add: shadow_ok_def wf_shadow_def)
  show ?thesis
  proof (cases "ss_depth (ss ! i) = 0")
    case True
    then show ?thesis using Some by (simp add: shadow_pop_def Let_def frames_def slot_frames_def)
  next
    case False
    define v where "v = ss_depth (ss ! i) - 1"
    let ?e = "(ss ! i)\<lparr>ss_depth := v\<rparr>"
    note pop = slot_frames_pop[OF wf False, folded v_def]
    have "\<forall>j < i. ss_tid (ss ! j) \<noteq> 0"
      using assms i unfolding shadow_ok_def by (metis less_trans)
    then have "shadow_ok (ss[i := ?e])"
      using shadow_ok_update[OF assms(1) i(1), of ?e] pop(2) wf(1) i(2) assms(2) by (simp add: wf_shadow_entry_def)
    moreover have "frames tid (ss[i := ?e]) = slot_frames ?e" "t \<noteq> tid \<Longrightarrow> frames t (ss[i := ?e]) = frames t ss" for t
      using frames_update[OF Some, of ?e] i(2) by simp_all
    moreover have "frames tid ss = slot_frames (ss ! i)" using Some by (simp add: frames_def)
    moreover have "shadow_pop tid ss = Some (ss_return_addrs (ss ! i) ! unat v, ss_entry_timestamps (ss ! i) ! unat v, ss[i := ?e])"
      using Some False by (simp add: shadow_pop_def Let_def v_def)
    ultimately show ?thesis using pop(1) by simp
  qed
qed

end
