(* ===== verification/Probe_Memory.thy ===== *)
theory Probe_Memory
  imports Stub_Pieces Events Probe_Manager
begin

text \<open>
  The data of one probe in the target: configuration, event ring and shadow stack at the addresses
  that its descriptor records, and what an event written by a stub makes of them.
\<close>

lemma load_write_apart:
  assumes "range64 a j \<inter> range64 b (length bs) = {}" and "length bs \<le> 2 ^ 64"
  shows "8 \<le> j \<Longrightarrow> load64 (mem_write m b bs) a = load64 m a"
    "unat x + 8 \<le> j \<Longrightarrow> load64 (mem_write m b bs) (a + x) = load64 m (a + x)"
    "unat x + 4 \<le> j \<Longrightarrow> load32 (mem_write m b bs) (a + x) = load32 m (a + x)"
  using assms(2) apart_inside[OF assms(1), of 0 8 0 "length bs"] apart_inside[OF assms(1), of x 8 0 "length bs"]
    apart_inside[OF assms(1), of x 4 0 "length bs"]
  by (simp_all add: access_defs mem_read_write_disjoint)

section \<open>A probe in memory\<close>

text \<open>The addresses of a descriptor are those of a runtime at \<open>base\<close>.\<close>

definition placed :: "probe_desc \<Rightarrow> u64 \<Rightarrow> bool" where
  "placed d base \<longleftrightarrow>
     (case lp_remote_runtime_layout_init (Some any_layout) base of
        Inl _ \<Rightarrow> False
      | Inr l \<Rightarrow> d = lp_probe_desc_set_runtime_layout d l)"

lemma placed_addrs:
  assumes "placed d base"
  shows "d_config_addr d = base" "d_event_buffer_addr d = base + 32" "d_shadow_stack_addr d = base + 360496"
proof -
  have d: "d = lp_probe_desc_set_runtime_layout d
      (case lp_remote_runtime_layout_init (Some any_layout) base of Inl _ \<Rightarrow> any_layout | Inr l \<Rightarrow> l)"
    using assms by (simp add: placed_def layout_init_eq)
  show "d_config_addr d = base" "d_event_buffer_addr d = base + 32" "d_shadow_stack_addr d = base + 360496"
    by (subst d, simp add: lp_probe_desc_set_runtime_layout_def layout_init_eq)+
qed

definition runtime_at :: "probe_desc \<Rightarrow> lp_runtime_config \<Rightarrow> lp_event_buffer \<Rightarrow> lp_shadow_stack \<Rightarrow> memory \<Rightarrow> bool" where
  "runtime_at d c b ss m \<longleftrightarrow>
     bytes_at m (d_config_addr d) (enc_config c) \<and> cfg_event_buffer_addr c = d_event_buffer_addr d \<and>
     buffer_at m (d_event_buffer_addr d) b \<and> eb_capacity b = of_nat LP_EVENT_BUFFER_CAPACITY \<and>
     shadow_at m (d_shadow_stack_addr d) ss"

text \<open>The data that the stubs write.\<close>

definition stub_data :: "probe_desc \<Rightarrow> u64 set" where
  "stub_data d = range64 (d_event_buffer_addr d) sizeof_lp_event_buffer \<union>
     range64 (d_shadow_stack_addr d) sizeof_lp_shadow_stack"

text \<open>The areas do not meet, nor does the stack below the return address meet them.\<close>

lemma areas_apart:
  assumes "placed d base"
  shows "range64 (d_config_addr d) 24 \<inter> range64 (d_event_buffer_addr d) sizeof_lp_event_buffer = {}"
    "range64 (d_config_addr d) 24 \<inter> range64 (d_shadow_stack_addr d) sizeof_lp_shadow_stack = {}"
    "range64 (d_event_buffer_addr d) sizeof_lp_event_buffer \<inter> range64 (d_shadow_stack_addr d) sizeof_lp_shadow_stack = {}"
  using offsets_apart[of 0 24 32 sizeof_lp_event_buffer base] offsets_apart[of 0 24 360496 sizeof_lp_shadow_stack base]
    offsets_apart[of 32 sizeof_lp_event_buffer 360496 sizeof_lp_shadow_stack base]
  by (simp_all add: placed_addrs[OF assms] sizeof_lp_event_buffer_def sizeof_lp_shadow_stack_def)

lemma areas_inside:
  assumes "placed d base"
  shows "range64 (d_config_addr d) 24 \<subseteq> range64 base 633008"
    "range64 (d_event_buffer_addr d) sizeof_lp_event_buffer \<subseteq> range64 base 633008"
    "range64 (d_shadow_stack_addr d) sizeof_lp_shadow_stack \<subseteq> range64 base 633008"
  using range64_sub[of 0 24 633008 base] range64_sub[of 32 sizeof_lp_event_buffer 633008 base]
    range64_sub[of 360496 sizeof_lp_shadow_stack 633008 base]
  by (simp_all add: placed_addrs[OF assms] sizeof_lp_event_buffer_def sizeof_lp_shadow_stack_def)

lemma length_enc_shadow_stack:
  assumes "shadow_at m a ss"
  shows "length (enc_shadow_stack ss) = sizeof_lp_shadow_stack"
proof -
  have "length (concat (map enc_shadow_entry xs)) = length xs * sizeof_lp_shadow_stack_entry"
    if "\<forall>e \<in> set xs. wf_shadow_entry e" for xs
    using that by (induction xs) (simp_all add: length_enc_shadow_entry)
  then show ?thesis
    using assms by (simp add: shadow_at_def enc_shadow_stack_def sizeof_lp_shadow_stack_def
        sizeof_lp_shadow_stack_entry_def lp_sizes)
qed

lemma runtime_at_changed:
  assumes "runtime_at d c b ss m" and "placed d base" and "changed A m m'" and "range64 base 633008 \<inter> A = {}"
  shows "runtime_at d c b ss m'"
proof -
  have "length (enc_config c) = 24" by (simp add: enc_config_def)
  moreover have "length (enc_event_buffer b) = sizeof_lp_event_buffer"
    using assms(1) by (simp add: runtime_at_def buffer_at_def length_enc_event_buffer)
  moreover have "length (enc_shadow_stack ss) = sizeof_lp_shadow_stack"
    using assms(1) by (auto simp: runtime_at_def length_enc_shadow_stack)
  moreover have "bytes_at m' x bs" if "bytes_at m x bs" "length bs = n" "range64 x n \<subseteq> range64 base 633008" for x bs n
    using that assms(4) by (intro bytes_at_changed[OF _ assms(3)]) auto
  ultimately show ?thesis
    using assms(1) areas_inside[OF assms(2)]
    unfolding runtime_at_def buffer_at_def shadow_at_def by blast
qed

lemma event_area:
  assumes "k < LP_EVENT_BUFFER_CAPACITY"
  shows "range64 (event_pos a k) 88 \<subseteq> range64 a sizeof_lp_event_buffer"
  using assms range64_sub[of "offsetof_events + k * sizeof_probe_event" 88 sizeof_lp_event_buffer a]
  by (simp add: event_pos_def sizeof_probe_event_def offsetof_events_def lp_sizes sizeof_lp_event_buffer_def)

lemma runtime_at_event:
  assumes rt: "runtime_at d c b ss m" and d: "placed d base"
  defines "a \<equiv> event_pos (d_event_buffer_addr d) (unat (eb_write_index b) mod LP_EVENT_BUFFER_CAPACITY)"
  assumes ch: "changed (range64 (d_event_buffer_addr d) 8 \<union> range64 a 88 \<union> A) m m'"
    and A: "range64 base 633008 \<inter> A = {}" and e: "event_at m' a e" "wf_event e"
    and w: "load64 m' (d_event_buffer_addr d) = eb_write_index b + 1"
  shows "runtime_at d c (ring_push b e) ss m'"
proof -
  let ?B = "d_event_buffer_addr d" and ?N = sizeof_lp_event_buffer
  let ?k = "unat (eb_write_index b) mod LP_EVENT_BUFFER_CAPACITY"
  have k: "?k < LP_EVENT_BUFFER_CAPACITY" by (simp add: LP_EVENT_BUFFER_CAPACITY_def)
  have cap: "eb_capacity b = of_nat LP_EVENT_BUFFER_CAPACITY" using rt by (simp add: runtime_at_def)
  have index: "unat (eb_write_index b mod eb_capacity b) = ?k"
    by (simp add: cap unat_mod LP_EVENT_BUFFER_CAPACITY_def)
  have slot: "range64 ?B 8 \<union> range64 a 88 \<subseteq> range64 ?B ?N"
    using event_area[OF k, of ?B] range_inside[of 0 8 ?N ?B] by (simp add: a_def sizeof_lp_event_buffer_def)
  have "buffer_at m ?B b" using rt by (simp add: runtime_at_def)
  moreover have "range64 ?B ?N \<inter> A = {}" using areas_inside(2)[OF d] A by blast
  ultimately have buffer: "buffer_at m' ?B (b\<lparr>eb_events := (eb_events b)[?k := e], eb_write_index := eb_write_index b + 1\<rparr>)"
    using buffer_at_push[OF _ k e[unfolded a_def] w ch[unfolded a_def]] by blast
  have out: "changed (range64 ?B ?N \<union> A) m m'"
    using slot by (intro changed_mono[OF ch]) blast
  have keep: "bytes_at m' x bs"
    if "bytes_at m x bs" "length bs = n" "range64 x n \<inter> range64 ?B ?N = {}" "range64 x n \<subseteq> range64 base 633008" for x bs n
    using that A by (intro bytes_at_changed[OF _ out]) blast+
  have "bytes_at m' (d_config_addr d) (enc_config c)"
  proof (rule keep)
    show "bytes_at m (d_config_addr d) (enc_config c)" using rt by (simp add: runtime_at_def)
    show "length (enc_config c) = 24" by (simp add: enc_config_def)
  qed (rule areas_apart(1)[OF d], rule areas_inside(1)[OF d])
  moreover have "shadow_at m' (d_shadow_stack_addr d) ss"
    using rt areas_apart(3)[OF d] areas_inside(3)[OF d] length_enc_shadow_stack[of m "d_shadow_stack_addr d" ss]
      keep[of "d_shadow_stack_addr d" "enc_shadow_stack ss"]
    by (auto simp: runtime_at_def shadow_at_def)
  ultimately show ?thesis
    using rt buffer unfolding runtime_at_def ring_push_def index by simp
qed

text \<open>
  How both stubs write an event: the write index goes up, the fields are stored in the slot, the
  clock stores its two words on the stack in between.
\<close>

lemma event_written:
  assumes rt: "runtime_at d c b ss m" and d: "placed d base"
  defines "a \<equiv> event_pos (d_event_buffer_addr d) (unat (eb_write_index b) mod LP_EVENT_BUFFER_CAPACITY)"
  assumes ch1: "changed (range64 a 88) (store64 m (d_event_buffer_addr d) (eb_write_index b + 1)) m1"
    and x: "range64 x 16 \<inter> range64 base 633008 = {}" and bs: "length bs = 16"
    and ch2: "changed (range64 a 88) (mem_write m1 x bs) m'"
    and e: "event_at m' a e" "wf_event e"
  shows "runtime_at d c (ring_push b e) ss m'"
    "changed (range64 x 16 \<union> range64 (d_event_buffer_addr d) sizeof_lp_event_buffer) m m'"
proof -
  let ?B = "d_event_buffer_addr d" and ?N = sizeof_lp_event_buffer
  let ?k = "unat (eb_write_index b) mod LP_EVENT_BUFFER_CAPACITY"
  let ?A = "range64 ?B 8 \<union> range64 a 88 \<union> range64 x 16"
  have k: "?k < LP_EVENT_BUFFER_CAPACITY" by (simp add: LP_EVENT_BUFFER_CAPACITY_def)
  have slot: "range64 a 88 \<subseteq> range64 ?B ?N" "range64 ?B 8 \<subseteq> range64 ?B ?N"
    using event_area[OF k, of ?B] range_inside[of 0 8 ?N ?B] by (simp_all add: a_def sizeof_lp_event_buffer_def)
  have B: "range64 ?B 8 \<inter> range64 a 88 = {}"
    using k offsets_apart[of 0 8 "offsetof_events + ?k * sizeof_probe_event" 88 ?B]
    by (simp add: a_def event_pos_def sizeof_probe_event_def offsetof_events_def lp_sizes)
  have "range64 ?B 8 \<inter> range64 x 16 = {}" using slot(2) areas_inside(2)[OF d] x by blast
  note apart = B this
  have in_A: "range64 ?B 8 \<subseteq> ?A" "range64 a 88 \<subseteq> ?A" "range64 x (length bs) \<subseteq> ?A" unfolding bs by blast+
  let ?m0 = "store64 m ?B (eb_write_index b + 1)"
  have clock: "changed (range64 x (length bs)) m1 (mem_write m1 x bs)" by (rule changed_write) (simp_all add: bs)
  have "changed ?A m ?m0" by (rule changed_store(1)[OF in_A(1)])
  also have "changed ?A ?m0 m1" by (rule changed_mono[OF ch1 in_A(2)])
  also have "changed ?A m1 (mem_write m1 x bs)" by (rule changed_mono[OF clock in_A(3)])
  also have "changed ?A (mem_write m1 x bs) m'" by (rule changed_mono[OF ch2 in_A(2)])
  finally have ch: "changed ?A m m'" .
  have "load64 m' ?B = load64 (mem_write m1 x bs) ?B" by (rule load_changed(1)[OF ch2 apart(1)])
  also have "\<dots> = load64 m1 ?B" using load_changed(1)[OF clock] apart(2) bs by simp
  also have "\<dots> = load64 ?m0 ?B" by (rule load_changed(1)[OF ch1 apart(1)])
  finally have w: "load64 m' ?B = eb_write_index b + 1" by simp
  have "range64 base 633008 \<inter> range64 x 16 = {}" using x by blast
  then show "runtime_at d c (ring_push b e) ss m'"
    using runtime_at_event[OF rt d, folded a_def, OF ch _ e w] by blast
  show "changed (range64 x 16 \<union> range64 ?B ?N) m m'"
    using slot by (intro changed_mono[OF ch]) blast
qed

lemma config_fields:
  assumes "runtime_at d c b ss m"
  shows "load32 m (d_config_addr d) = cfg_enabled c" "load64 m (d_config_addr d + 8) = d_event_buffer_addr d"
  using assms by (auto simp: runtime_at_def enc_config_def bytes_at_append bytes_at_words add.assoc)

end
