(* ===== verification/Entry_Run.thy ===== *)
theory Entry_Run
  imports Entry_Push Probe_Memory
begin

text \<open>
  The entry stub at run time: one call of the probed function appends one event to the ring and,
  with a return probe, takes over the return address on the shadow stack of the thread; then the
  trampoline runs with every register and flag as the caller left it.
\<close>

section \<open>The event\<close>

definition snapshot :: "'o machine \<Rightarrow> lp_x86_64_regs_snapshot" where
  "snapshot s =
     \<lparr> snap_r15 = m_reg s R15, snap_r14 = m_reg s R14, snap_r13 = m_reg s R13, snap_r12 = m_reg s R12,
       snap_r11 = m_reg s R11, snap_r10 = m_reg s R10, snap_r9 = m_reg s R9, snap_r8 = m_reg s R8,
       snap_rdi = m_reg s RDI, snap_rsi = m_reg s RSI, snap_rbp = m_reg s RBP, snap_rbx = m_reg s RBX,
       snap_rdx = m_reg s RDX, snap_rax = m_reg s RAX, snap_rcx = m_reg s RCX, snap_rsp = m_reg s RSP,
       snap_rflags = m_flags s \<rparr>"

definition entry_event :: "probe_desc \<Rightarrow> 'o machine \<Rightarrow> u32 \<Rightarrow> u64 \<Rightarrow> probe_event" where
  "entry_event d s tid time =
     \<lparr> ev_timestamp_ns = time, ev_pid = d_pid d, ev_tid = tid, ev_probe_id = d_probe_id d,
       ev_event_type = PROBE_EVENT_ENTRY, ev_args = lp_x86_64_collect_args (snapshot s),
       ev_retval = 0, ev_duration_ns = 0 \<rparr>"

text \<open>The effect of a call on the data of the probe; the flag says whether the return address is taken over.\<close>

definition entry_effect :: "probe_desc \<Rightarrow> lp_runtime_config \<Rightarrow> 'o machine \<Rightarrow> u32 \<Rightarrow> u64 \<Rightarrow>
    lp_event_buffer \<Rightarrow> lp_shadow_stack \<Rightarrow> lp_event_buffer \<times> lp_shadow_stack \<times> bool" where
  "entry_effect d c s tid time b ss =
     (if cfg_enabled c = 0 then (b, ss, False)
      else (ring_push b (entry_event d s tid time),
        if d_has_retprobe d = 0 then (ss, False) else shadow_push tid (load64 (m_mem s) (m_reg s RSP)) time ss))"

lemma shadow_at_changed:
  assumes "shadow_at m a ss" and "range64 a sizeof_lp_shadow_stack \<inter> A = {}" and "changed A m m'"
  shows "shadow_at m' a ss"
  using assms(1,2) length_enc_shadow_stack[OF assms(1)] bytes_at_changed[OF _ assms(3)]
  by (simp add: shadow_at_def)

lemma runtime_at_shadow:
  assumes rt: "runtime_at d c b ss m" and d: "placed d base"
    and ch: "changed (range64 (d_shadow_stack_addr d) sizeof_lp_shadow_stack \<union> A) m m'"
    and A: "range64 base 633008 \<inter> A = {}" and ss: "shadow_at m' (d_shadow_stack_addr d) ss'"
  shows "runtime_at d c b ss' m'"
proof -
  have keep: "bytes_at m' x bs"
    if "bytes_at m x bs" "range64 x (length bs) \<inter> range64 (d_shadow_stack_addr d) sizeof_lp_shadow_stack = {}"
      "range64 x (length bs) \<subseteq> range64 base 633008" for x bs
    using that A by (intro bytes_at_changed[OF _ ch]) blast+
  have "length (enc_config c) = 24" by (simp add: enc_config_def)
  then have "bytes_at m' (d_config_addr d) (enc_config c)"
    using rt areas_apart(2)[OF d] areas_inside(1)[OF d] by (intro keep) (simp_all add: runtime_at_def)
  moreover have "length (enc_event_buffer b) = sizeof_lp_event_buffer"
    using rt by (simp add: runtime_at_def buffer_at_def length_enc_event_buffer)
  then have "buffer_at m' (d_event_buffer_addr d) b"
    using rt areas_apart(3)[OF d] areas_inside(2)[OF d] keep[of "d_event_buffer_addr d" "enc_event_buffer b"]
    by (simp add: runtime_at_def buffer_at_def)
  ultimately show ?thesis using rt ss by (simp add: runtime_at_def)
qed

text \<open>The frame of the stub at \<open>sp\<close>: 16 bytes below it for the clock, the return address above it.\<close>

lemma frame_ranges:
  "range64 sp 128 \<subseteq> range64 (sp - 16) 152" "range64 (sp + 128) 8 \<subseteq> range64 (sp - 16) 152"
  "range64 (sp - 16) 16 \<subseteq> range64 (sp - 16) 152" "range64 (sp + 120) 8 \<subseteq> range64 sp 128"
  "range64 sp 128 \<inter> range64 (sp - 16) 16 = {}" "range64 (sp + 128) 8 \<inter> range64 (sp - 16) 16 = {}"
  "range64 sp 128 \<inter> range64 (sp + 128) 8 = {}"
  using range_inside[of 16 128 152 "sp - 16"] range_inside[of 144 8 152 "sp - 16"] range_inside[of 0 16 152 "sp - 16"]
    range_inside[of 120 8 128 sp] offsets_apart[of 16 128 0 16 "sp - 16"] offsets_apart[of 144 8 0 16 "sp - 16"]
    offsets_apart[of 0 128 128 8 sp]
  by (simp_all add: offset_right)

lemma exit_run:
  assumes "entry_frame s sp (m_mem t)" and "m_reg t RSP = sp" and "m_reg s RSP = sp + 128"
  shows "\<exists>m. runs C p (At (restore_part d) t) (Left (d_trampoline_addr d) (s\<lparr>m_mem := m, m_os := m_os t\<rparr>)) \<and>
    changed (range64 (sp + 120) 8) (m_mem t) m"
proof -
  have eq: "t\<lparr>m_reg := m_reg s, m_flags := m_flags s, m_mem := m\<rparr> = s\<lparr>m_mem := m, m_os := m_os t\<rparr>" for m
    by (cases s; cases t) simp
  show ?thesis
    using entry_exit_run[OF assms, of C p "d_trampoline_addr d" "[]"] unfolding eq restore_part_def .
qed

lemma work_part_split:
  "work_part d = map I (event_slot R11 @ entry_ids d @ entry_args @ entry_time @ entry_zero) @
     (if d_has_retprobe d = 0 then L Restore # restore_part d else probe_part d)"
  by (simp add: work_part_def probe_part_def)

context stub_kernel
begin

lemma gettid_run:
  assumes "m_reg t RSP = sp" and "m_reg t R8 = a"
  shows "\<exists>r f. execs C [SUB_RI8 RSP 16, MOV_RI RAX 186, SYSCALL, MOV_ST False (at8 R8 12) RAX] t =
      t\<lparr>m_reg := r, m_flags := f, m_mem := store32 (m_mem t) (a + 12) (tid_of (m_os t))\<rparr> \<and>
    r RSP = sp - 16 \<and> r R8 = a"
proof -
  let ?u = "t\<lparr>m_reg := (m_reg t)(RSP := sp - 16, RAX := 186)\<rparr>"
  obtain f where f: "execs C [SUB_RI8 RSP 16, MOV_RI RAX 186] t = ?u\<lparr>m_flags := f\<rparr>"
    using execs_cores[of "[SUB_RI8 RSP 16, MOV_RI RAX 186]" C t] assms by (auto simp: set_reg_def)
  have "m_reg (?u\<lparr>m_flags := f\<rparr>) RAX = 186" by simp
  from gettid[OF this] obtain c r where sys: "c_syscall C (?u\<lparr>m_flags := f\<rparr>) =
      t\<lparr>m_reg := (m_reg t)(RSP := sp - 16, RAX := ucast (tid_of (m_os t)), RCX := c, R11 := r), m_flags := f\<rparr>"
    by (cases t) (auto simp: fun_eq_iff)
  have split: "[SUB_RI8 RSP 16, MOV_RI RAX 186, SYSCALL, MOV_ST False (at8 R8 12) RAX] =
      [SUB_RI8 RSP 16, MOV_RI RAX 186] @ [SYSCALL] @ [MOV_ST False (at8 R8 12) RAX]"
    by simp
  let ?r = "(m_reg t)(RSP := sp - 16, RAX := ucast (tid_of (m_os t)), RCX := c, R11 := r)"
  have "execs C [SUB_RI8 RSP 16, MOV_RI RAX 186, SYSCALL, MOV_ST False (at8 R8 12) RAX] t =
      exec C (MOV_ST False (at8 R8 12) RAX) (c_syscall C (?u\<lparr>m_flags := f\<rparr>))"
    unfolding split execs_append exec_syscall f by simp
  also have "\<dots> = t\<lparr>m_reg := ?r, m_flags := f, m_mem := store32 (m_mem t) (a + 12) (tid_of (m_os t))\<rparr>"
    unfolding sys using assms(2) by (cases t) (simp add: exec_def set_mem_def at8_def)
  finally have eq: "execs C [SUB_RI8 RSP 16, MOV_RI RAX 186, SYSCALL, MOV_ST False (at8 R8 12) RAX] t =
      t\<lparr>m_reg := ?r, m_flags := f, m_mem := store32 (m_mem t) (a + 12) (tid_of (m_os t))\<rparr>" .
  show ?thesis by (intro exI conjI) (rule eq, simp_all add: assms)
qed

lemma entry_time_run:
  assumes "m_reg t RSP = sp" and "m_reg t R8 = a"
  shows "\<exists>t' bs. execs C (entry_time @ entry_zero) t = t' \<and> length bs = 16 \<and>
    m_mem t' = store64 (store64 (store64 (mem_write (store32 (m_mem t) (a + 12) (tid_of (m_os t))) (sp - 16) bs) a
      (nanoseconds (clock (m_os t)))) (a + 72) 0) (a + 80) 0 \<and>
    m_reg t' RSP = sp \<and> m_reg t' R8 = a \<and> tid_of (m_os t') = tid_of (m_os t)"
proof -
  let ?head = "[SUB_RI8 RSP 16, MOV_RI RAX 186, SYSCALL, MOV_ST False (at8 R8 12) RAX]"
  let ?tail = "[MOV_ST True (at8 R8 0) RAX, ADD_RI8 RSP 16] @ entry_zero"
  obtain r f where t1: "execs C ?head t = t\<lparr>m_reg := r, m_flags := f, m_mem := store32 (m_mem t) (a + 12) (tid_of (m_os t))\<rparr>"
    (is "_ = ?t1") and r: "r RSP = sp - 16" "r R8 = a"
    using gettid_run[OF assms] by blast
  define bs where "bs = le64 (fst (clock (m_os t))) @ le64 (snd (clock (m_os t)))"
  obtain c x os g where os: "tid_of os = tid_of (m_os t)" and
    t2: "execs C clock_time ?t1 = ?t1\<lparr>m_reg := (m_reg ?t1)(RAX := nanoseconds (clock (m_os t)), RDI := 0,
        RSI := sp - 16, RCX := c, R11 := x), m_mem := mem_write (m_mem ?t1) (sp - 16) bs, m_os := os, m_flags := g\<rparr>"
    (is "_ = ?t2")
    using clock_time_run[of ?t1 "sp - 16"] r unfolding bs_def by auto
  obtain h where h: "execs C ?tail ?t2 = (cores C ?tail ?t2)\<lparr>m_flags := h\<rparr>"
    using execs_cores[of ?tail C ?t2] by (auto simp: entry_zero_def)
  have split: "entry_time @ entry_zero = ?head @ clock_time @ ?tail" by (simp add: entry_time_def)
  have "execs C (entry_time @ entry_zero) t = (cores C ?tail ?t2)\<lparr>m_flags := h\<rparr>"
    unfolding split execs_append[of C ?head] execs_append[of C clock_time] t1 t2 h ..
  moreover have "m_mem (cores C ?tail ?t2) = store64 (store64 (store64 (mem_write (store32 (m_mem t) (a + 12)
      (tid_of (m_os t))) (sp - 16) bs) a (nanoseconds (clock (m_os t)))) (a + 72) 0) (a + 80) 0 \<and>
    m_reg (cores C ?tail ?t2) RSP = sp \<and> m_reg (cores C ?tail ?t2) R8 = a \<and> m_os (cores C ?tail ?t2) = os"
    using r by (simp add: entry_zero_def set_reg_def set_mem_def at8_def)
  ultimately show ?thesis using os by (intro exI[of _ "execs C (entry_time @ entry_zero) t"] exI[of _ bs]) (simp add: bs_def)
qed

lemma event_part_run:
  assumes d: "placed d base" and rt: "runtime_at d c b ss (m_mem t)"
    and regs: "m_reg t RSP = sp" "m_reg t R10 = d_config_addr d"
    and frame: "entry_frame s sp (m_mem t)"
    and stack: "range64 (sp - 16) 152 \<inter> range64 base 633008 = {}"
  defines "e \<equiv> entry_event d s (tid_of (m_os t)) (nanoseconds (clock (m_os t)))"
    and "a \<equiv> event_pos (d_event_buffer_addr d) (unat (eb_write_index b) mod LP_EVENT_BUFFER_CAPACITY)"
  shows "\<exists>t'. runs C p (At (map I (event_slot R11 @ entry_ids d @ entry_args @ entry_time @ entry_zero) @ q) t) (At q t') \<and>
    m_reg t' RSP = sp \<and> m_reg t' R8 = a \<and> tid_of (m_os t') = tid_of (m_os t) \<and>
    changed (range64 (sp - 16) 16 \<union> range64 (d_event_buffer_addr d) sizeof_lp_event_buffer) (m_mem t) (m_mem t') \<and>
    event_at (m_mem t') a e \<and> runtime_at d c (ring_push b e) ss (m_mem t')"
proof -
  let ?B = "d_event_buffer_addr d" and ?N = sizeof_lp_event_buffer and ?S = "range64 (sp - 16) 16"
  let ?k = "unat (eb_write_index b) mod LP_EVENT_BUFFER_CAPACITY"
  have buf: "buffer_at (m_mem t) ?B b" "wf_event_buffer b" "eb_capacity b = of_nat LP_EVENT_BUFFER_CAPACITY"
    using rt by (simp_all add: runtime_at_def buffer_at_def)
  have k: "?k < LP_EVENT_BUFFER_CAPACITY" by (simp add: LP_EVENT_BUFFER_CAPACITY_def)
  have slot: "range64 a 88 \<subseteq> range64 ?B ?N" "range64 ?B 8 \<subseteq> range64 ?B ?N"
    using event_area[OF k, of ?B] range_inside[of 0 8 ?N ?B] by (simp_all add: a_def sizeof_lp_event_buffer_def)
  note fr = frame_ranges(1,3)[of sp]
  have apart: "range64 sp 128 \<inter> range64 ?B ?N = {}" "?S \<inter> range64 ?B ?N = {}" "range64 a 88 \<inter> ?S = {}"
    "range64 sp 128 \<inter> range64 a 88 = {}"
    using fr stack areas_inside(2)[OF d] slot by blast+
  have w: "load64 (m_mem t) ?B = eb_write_index b" using buf by (simp add: buffer_at_fields)
  \<comment> \<open>the slot is claimed\<close>
  obtain f x y where t1: "execs C (event_slot R11) t = t\<lparr>m_reg := (m_reg t)(R11 := ?B, RAX := x, R9 := y, R8 := a),
      m_mem := store64 (m_mem t) ?B (eb_write_index b + 1), m_flags := f\<rparr>" (is "_ = ?t1")
    using event_slot_run[OF regs(2) config_fields(2)[OF rt] w, of R11 C] unfolding a_def by auto
  have ch1: "changed (range64 ?B 8) (m_mem t) (m_mem ?t1)" by (simp add: changed_store)
  have "range64 sp 128 \<inter> range64 ?B 8 = {}" using apart(1) slot(2) by blast
  from entry_frame_changed[OF frame ch1 this] have frame1: "entry_frame s sp (m_mem ?t1)" .
  \<comment> \<open>the fields known from the start\<close>
  obtain m f x where t2: "execs C (entry_ids d @ entry_args) ?t1 = ?t1\<lparr>m_reg := (m_reg ?t1)(RAX := x), m_mem := m, m_flags := f\<rparr>"
      (is "_ = ?t2")
    and ch2: "changed (range64 a 88) (m_mem ?t1) m"
    and fields: "load32 m (a + 8) = d_pid d" "load32 m (a + 16) = d_probe_id d" "load32 m (a + 20) = PROBE_EVENT_ENTRY"
      "load64 m (a + 24) = m_reg s RDI" "load64 m (a + 32) = m_reg s RSI" "load64 m (a + 40) = m_reg s RDX"
      "load64 m (a + 48) = m_reg s RCX" "load64 m (a + 56) = m_reg s R8" "load64 m (a + 64) = m_reg s R9"
    using entry_fields_run[OF frame1, of a C d] regs(1) apart(4) by auto
  \<comment> \<open>thread and time\<close>
  have r2: "m_reg ?t2 RSP = sp" "m_reg ?t2 R8 = a" using regs(1) by simp_all
  obtain t3 bs where t3: "execs C (entry_time @ entry_zero) ?t2 = t3" and bs: "length bs = 16"
    and m3: "m_mem t3 = store64 (store64 (store64 (mem_write (store32 m (a + 12) (tid_of (m_os t))) (sp - 16) bs) a
      (nanoseconds (clock (m_os t)))) (a + 72) 0) (a + 80) 0"
    and r3: "m_reg t3 RSP = sp" "m_reg t3 R8 = a" "tid_of (m_os t3) = tid_of (m_os t)"
    using entry_time_run[OF r2] by auto
  have far: "range64 a 88 \<inter> range64 (sp - 16) (length bs) = {}" using apart(3) bs by simp
  have e: "event_at (m_mem t3) a e"
    unfolding m3 e_def
    by (subst event_at_fields[where ?a0.0 = "m_reg s RDI" and ?a1.0 = "m_reg s RSI" and ?a2.0 = "m_reg s RDX"
        and ?a3.0 = "m_reg s RCX" and ?a4.0 = "m_reg s R8" and ?a5.0 = "m_reg s R9"])
       (simp_all add: entry_event_def lp_x86_64_collect_args_def snapshot_def load_store_far fields
         load_write_apart[OF far] bs)
  have wf: "wf_event e" by (simp add: wf_event_def e_def entry_event_def lp_x86_64_collect_args_def)
  have in_a: "range64 (a + x) n \<subseteq> range64 a 88" if "unat x + n \<le> 88" for x n by (rule range_inside[OF that])
  have ch1: "changed (range64 a 88) (store64 (m_mem t) ?B (eb_write_index b + 1)) (store32 m (a + 12) (tid_of (m_os t)))"
    using ch2 by (intro changed_stores in_a) simp_all
  have ch3: "changed (range64 a 88) (mem_write (store32 m (a + 12) (tid_of (m_os t))) (sp - 16) bs) (m_mem t3)"
    unfolding m3 using in_a[of 0 8] by (intro changed_stores in_a changed_refl) simp_all
  have "?S \<inter> range64 base 633008 = {}" using fr(2) stack by blast
  note event_written[OF rt d, folded a_def, OF ch1 this bs ch3 e wf]
  moreover have "runs C p (At (map I (event_slot R11 @ entry_ids d @ entry_args @ entry_time @ entry_zero) @ q) t) (At q t3)"
  proof -
    have split: "event_slot R11 @ entry_ids d @ entry_args @ entry_time @ entry_zero =
        event_slot R11 @ (entry_ids d @ entry_args) @ (entry_time @ entry_zero)" by simp
    have run: "execs C (event_slot R11 @ entry_ids d @ entry_args @ entry_time @ entry_zero) t = t3"
      unfolding split execs_append[of C "event_slot R11"] execs_append[of C "entry_ids d @ entry_args"] t1 t2 t3 ..
    have "list_all (\<lambda>i. \<not> jumps i) (event_slot R11 @ entry_ids d @ entry_args @ entry_time @ entry_zero)"
      by (simp add: piece_defs)
    from runs_code[OF this, of C p q t] show ?thesis unfolding run .
  qed
  ultimately show ?thesis using r3 e by blast
qed

end

text \<open>Behind the event: the return probe, if there is one.\<close>

lemma behind_event_run:
  assumes d: "placed d base" "d_has_retprobe d \<noteq> 0 \<Longrightarrow> d_shadow_stack_addr d \<noteq> 0"
    and rt: "runtime_at d c b ss (m_mem t)" and regs: "m_reg t RSP = sp" "m_reg t R8 = a"
    and slot: "range64 a 88 \<subseteq> range64 (d_event_buffer_addr d) sizeof_lp_event_buffer"
    and tid: "load32 (m_mem t) (a + 12) = tid" and time: "load64 (m_mem t) a = time"
    and frame: "entry_frame s sp (m_mem t)" and ret: "load64 (m_mem t) (sp + 128) = ret"
    and stack: "range64 (sp - 16) 152 \<inter> range64 base 633008 = {}"
    and push: "(if d_has_retprobe d = 0 then (ss, False) else shadow_push tid ret time ss) = (ss', took)"
  shows "\<exists>t'. runs C (entry_prog d) (At (if d_has_retprobe d = 0 then L Restore # restore_part d else probe_part d) t)
      (At (restore_part d) t') \<and> m_reg t' RSP = sp \<and> runtime_at d c b ss' (m_mem t') \<and> entry_frame s sp (m_mem t') \<and>
    load64 (m_mem t') (sp + 128) = (if took then d_ret_stub_addr d else ret) \<and>
    changed (range64 (sp - 16) 152 \<union> stub_data d) (m_mem t) (m_mem t')"
proof (cases "d_has_retprobe d = 0")
  case True
  then show ?thesis using push rt regs(1) frame ret label_run by (intro exI[of _ t]) simp
next
  case False
  let ?S = "d_shadow_stack_addr d" and ?R = "range64 (sp + 128) 8"
  have far: "?R \<inter> shadow_area ?S = {}" using frame_ranges(2) stack areas_inside(3)[OF d(1)] by blast
  moreover have "range64 a 88 \<inter> shadow_area ?S = {}" using slot areas_apart(3)[OF d(1)] by blast
  moreover have "shadow_at (m_mem t) ?S ss" using rt by (simp add: runtime_at_def)
  ultimately obtain t' m where run: "runs C (entry_prog d) (At (probe_part d) t) (At (restore_part d) t')" "m_reg t' RSP = sp"
    and t': "m_mem t' = (if took then store64 m (sp + 128) (d_ret_stub_addr d) else m)"
    and m: "shadow_at m ?S ss'" "changed (shadow_area ?S) (m_mem t) m"
    using probe_part_run[OF False d(2)[OF False] _ regs tid time ret, where C = C and ss = ss] push False by auto
  have ch: "changed (shadow_area ?S \<union> ?R) (m_mem t) (m_mem t')"
    unfolding t' using changed_mono[OF m(2) Un_upper1] by (auto intro: changed_stores)
  have word: "load64 (m_mem t') (sp + 128) = (if took then d_ret_stub_addr d else ret)"
    using load_changed(1)[OF m(2) far] ret unfolding t' by simp
  have "shadow_at (m_mem t') ?S ss'"
    using m(1) far shadow_at_changed[OF m(1), of ?R "m_mem t'"] unfolding t' by (auto simp: changed_store Int_commute)
  then have rt': "runtime_at d c b ss' (m_mem t')"
    using frame_ranges(2) stack by (intro runtime_at_shadow[OF rt d(1) ch]) blast+
  have frame': "entry_frame s sp (m_mem t')"
    using frame_ranges(1,7) stack areas_inside(3)[OF d(1)] by (intro entry_frame_changed[OF frame ch]) blast
  have "changed (range64 (sp - 16) 152 \<union> stub_data d) (m_mem t) (m_mem t')"
    using frame_ranges(2) by (intro changed_mono[OF ch]) (auto simp: stub_data_def)
  then show ?thesis using False run rt' frame' word by (intro exI[of _ t']) simp
qed

text \<open>Before it: the registers are saved, and a probe that is switched off is left at once.\<close>

lemma entry_start_run:
  assumes d: "placed d base" and rt: "runtime_at d c b ss (m_mem s)" and sp: "m_reg s RSP = sp + 128"
    and stack: "range64 (sp - 16) 152 \<inter> range64 base 633008 = {}"
  shows "\<exists>t. runs C (entry_prog d) (At (entry_prog d) s) (At (if cfg_enabled c = 0 then restore_part d else work_part d) t) \<and>
    m_reg t RSP = sp \<and> m_reg t R10 = d_config_addr d \<and> m_os t = m_os s \<and> runtime_at d c b ss (m_mem t) \<and>
    entry_frame s sp (m_mem t) \<and> load64 (m_mem t) (sp + 128) = load64 (m_mem s) (sp + 128) \<and>
    changed (range64 (sp - 16) 152 \<union> stub_data d) (m_mem s) (m_mem t)"
proof -
  let ?run = "runs C (entry_prog d)" and ?head = "entry_head (d_config_addr d) @ test_enabled"
  let ?q = "JCC CC_E Restore # work_part d"
  have sp': "m_reg s RSP - 128 = sp" using sp by simp
  obtain m f where head: "execs C ?head s = s\<lparr>m_reg := (m_reg s)(RSP := sp, R10 := d_config_addr d), m_mem := m, m_flags := f\<rparr>"
      (is "_ = ?t") and zero: "bit f 6 = (load32 m (d_config_addr d) = 0)"
    and frame: "entry_frame s sp m" and ch: "changed (range64 sp 128) (m_mem s) m"
    using entry_head_run[of C "d_config_addr d" s] unfolding sp' by auto
  have "range64 base 633008 \<inter> range64 sp 128 = {}" using frame_ranges(1) stack by blast
  with rt d ch have rt': "runtime_at d c b ss m" by (rule runtime_at_changed)
  have test: "holds CC_E ?t \<longleftrightarrow> cfg_enabled c = 0" using zero config_fields(1)[OF rt'] by (simp add: zero_flag_def)
  have ret: "load64 m (sp + 128) = load64 (m_mem s) (sp + 128)"
    using frame_ranges(7) by (intro load_changed(1)[OF ch]) blast
  have "list_all (\<lambda>i. \<not> jumps i) ?head" by (simp add: piece_defs)
  from runs_code[OF this, of C "entry_prog d" ?q s]
  have "?run (At (entry_prog d) s) (At ?q ?t)" unfolding head entry_prog_parts[symmetric] .
  also have "?run (At ?q ?t) (At (if cfg_enabled c = 0 then restore_part d else work_part d) ?t)"
    by (rule runs_step) (simp add: goto_restore test del: holds.simps)
  finally have run: "?run (At (entry_prog d) s) (At (if cfg_enabled c = 0 then restore_part d else work_part d) ?t)" .
  have "changed (range64 (sp - 16) 152 \<union> stub_data d) (m_mem s) m"
    using frame_ranges(1) by (intro changed_mono[OF ch]) blast
  then show ?thesis using run rt' frame ret by (intro exI[of _ ?t]) simp
qed

context stub_kernel
begin

text \<open>From the saved registers to their restoration.\<close>

lemma work_run:
  assumes d: "placed d base" "d_has_retprobe d \<noteq> 0 \<Longrightarrow> d_shadow_stack_addr d \<noteq> 0"
    and rt: "runtime_at d c b ss (m_mem t)" and on: "cfg_enabled c \<noteq> 0"
    and regs: "m_reg t RSP = sp" "m_reg t R10 = d_config_addr d"
    and frame: "entry_frame s sp (m_mem t)"
    and stack: "range64 (sp - 16) 152 \<inter> range64 base 633008 = {}"
    and s: "m_reg s RSP = sp + 128" "load64 (m_mem t) (sp + 128) = load64 (m_mem s) (sp + 128)"
    and effect: "entry_effect d c s (tid_of (m_os t)) (nanoseconds (clock (m_os t))) b ss = (b', ss', took)"
  shows "\<exists>t'. runs C (entry_prog d) (At (work_part d) t) (At (restore_part d) t') \<and> m_reg t' RSP = sp \<and>
    runtime_at d c b' ss' (m_mem t') \<and> entry_frame s sp (m_mem t') \<and>
    load64 (m_mem t') (sp + 128) = (if took then d_ret_stub_addr d else load64 (m_mem s) (sp + 128)) \<and>
    changed (range64 (sp - 16) 152 \<union> stub_data d) (m_mem t) (m_mem t')"
proof -
  let ?A = "range64 (sp - 16) 152 \<union> stub_data d" and ?B = "range64 (d_event_buffer_addr d) sizeof_lp_event_buffer"
  let ?q = "if d_has_retprobe d = 0 then L Restore # restore_part d else probe_part d"
  define e where "e = entry_event d s (tid_of (m_os t)) (nanoseconds (clock (m_os t)))"
  define a where "a = event_pos (d_event_buffer_addr d) (unat (eb_write_index b) mod LP_EVENT_BUFFER_CAPACITY)"
  obtain t1 where t1: "runs C (entry_prog d) (At (work_part d) t) (At ?q t1)" "m_reg t1 RSP = sp" "m_reg t1 R8 = a"
    "changed (range64 (sp - 16) 16 \<union> ?B) (m_mem t) (m_mem t1)" "event_at (m_mem t1) a e"
    "runtime_at d c (ring_push b e) ss (m_mem t1)"
    using event_part_run[OF d(1) rt regs frame stack, of "entry_prog d" ?q]
    unfolding work_part_split e_def a_def by auto
  have frame1: "entry_frame s sp (m_mem t1)"
    using frame_ranges(1,5) stack areas_inside(2)[OF d(1)] by (intro entry_frame_changed[OF frame t1(4)]) blast
  have "load64 (m_mem t1) (sp + 128) = load64 (m_mem t) (sp + 128)"
    using frame_ranges(2,6) stack areas_inside(2)[OF d(1)] by (intro load_changed(1)[OF t1(4)]) blast
  then have ret1: "load64 (m_mem t1) (sp + 128) = load64 (m_mem s) (sp + 128)" using s(2) by simp
  have slot: "range64 a 88 \<subseteq> ?B" unfolding a_def by (rule event_area) (simp add: LP_EVENT_BUFFER_CAPACITY_def)
  have fields: "load32 (m_mem t1) (a + 12) = ev_tid e" "load64 (m_mem t1) a = ev_timestamp_ns e"
    using t1(5) event_at_fields[of e "m_reg s RDI" "m_reg s RSI" "m_reg s RDX" "m_reg s RCX" "m_reg s R8" "m_reg s R9"]
    by (simp_all add: e_def entry_event_def lp_x86_64_collect_args_def snapshot_def)
  have eff: "b' = ring_push b e" "(if d_has_retprobe d = 0 then (ss, False) else
      shadow_push (ev_tid e) (load64 (m_mem s) (sp + 128)) (ev_timestamp_ns e) ss) = (ss', took)"
    using effect on s(1) by (simp_all add: entry_effect_def e_def entry_event_def split: if_splits)
  obtain t2 where t2: "runs C (entry_prog d) (At ?q t1) (At (restore_part d) t2)" "m_reg t2 RSP = sp"
    "runtime_at d c b' ss' (m_mem t2)" "entry_frame s sp (m_mem t2)"
    "load64 (m_mem t2) (sp + 128) = (if took then d_ret_stub_addr d else load64 (m_mem s) (sp + 128))"
    "changed ?A (m_mem t1) (m_mem t2)"
    using behind_event_run[OF d t1(6,2,3) slot fields frame1 ret1 stack eff(2), of C] unfolding eff(1) by blast
  have "changed ?A (m_mem t) (m_mem t1)"
    using frame_ranges(3) by (intro changed_mono[OF t1(4)]) (auto simp: stub_data_def)
  with t2(6) have "changed ?A (m_mem t) (m_mem t2)" by (blast intro: changed_trans)
  then show ?thesis using runs_trans[OF t1(1) t2(1)] t2(2-5) by blast
qed

lemma entry_run:
  assumes d: "placed d base" "d_has_retprobe d \<noteq> 0 \<Longrightarrow> d_shadow_stack_addr d \<noteq> 0"
    and rt: "runtime_at d c b ss (m_mem s)"
    and stack: "range64 (m_reg s RSP - 144) 152 \<inter> range64 base 633008 = {}"
    and effect: "entry_effect d c s (tid_of (m_os s)) (nanoseconds (clock (m_os s))) b ss = (b', ss', took)"
  shows "\<exists>m os. runs C (entry_prog d) (At (entry_prog d) s) (Left (d_trampoline_addr d) (s\<lparr>m_mem := m, m_os := os\<rparr>)) \<and>
    runtime_at d c b' ss' m \<and>
    load64 m (m_reg s RSP) = (if took then d_ret_stub_addr d else load64 (m_mem s) (m_reg s RSP)) \<and>
    changed (range64 (m_reg s RSP - 144) 152 \<union> stub_data d) (m_mem s) m"
proof -
  let ?run = "runs C (entry_prog d)"
  define sp where "sp = m_reg s RSP - 128"
  have sp: "m_reg s RSP = sp + 128" "m_reg s RSP - 144 = sp - 16" by (simp_all add: sp_def)
  let ?A = "range64 (sp - 16) 152 \<union> stub_data d"
  obtain t0 where start: "?run (At (entry_prog d) s) (At (if cfg_enabled c = 0 then restore_part d else work_part d) t0)"
    and r0: "m_reg t0 RSP = sp" "m_reg t0 R10 = d_config_addr d" "m_os t0 = m_os s" and rt0: "runtime_at d c b ss (m_mem t0)"
    and f0: "entry_frame s sp (m_mem t0)" "load64 (m_mem t0) (sp + 128) = load64 (m_mem s) (sp + 128)"
    and ch0: "changed ?A (m_mem s) (m_mem t0)"
    using entry_start_run[OF d(1) rt sp(1) stack[unfolded sp(2)], of C] by blast
  obtain t where t: "?run (At (if cfg_enabled c = 0 then restore_part d else work_part d) t0) (At (restore_part d) t)"
    "m_reg t RSP = sp" "runtime_at d c b' ss' (m_mem t)" "entry_frame s sp (m_mem t)"
    "load64 (m_mem t) (sp + 128) = (if took then d_ret_stub_addr d else load64 (m_mem s) (sp + 128))"
    "changed ?A (m_mem t0) (m_mem t)"
  proof (cases "cfg_enabled c = 0")
    case True
    then show thesis using that[of t0] r0(1) rt0 f0 effect by (simp add: entry_effect_def)
  next
    case False
    have "entry_effect d c s (tid_of (m_os t0)) (nanoseconds (clock (m_os t0))) b ss = (b', ss', took)" using effect r0(3) by simp
    from work_run[OF d rt0 False r0(1,2) f0(1) stack[unfolded sp(2)] sp(1) f0(2) this]
    show thesis using that False by auto
  qed
  obtain m where m: "?run (At (restore_part d) t) (Left (d_trampoline_addr d) (s\<lparr>m_mem := m, m_os := m_os t\<rparr>))"
    "changed (range64 (sp + 120) 8) (m_mem t) m"
    using exit_run[OF t(4,2) sp(1), of C "entry_prog d" d] by blast
  have "range64 (sp + 128) 8 \<inter> range64 (sp + 120) 8 = {}" "range64 base 633008 \<inter> range64 (sp + 120) 8 = {}"
    "range64 (sp + 120) 8 \<subseteq> ?A"
    using frame_ranges(1,4,7)[of sp] stack unfolding sp(2) by blast+
  then have end': "load64 m (sp + 128) = load64 (m_mem t) (sp + 128)" "runtime_at d c b' ss' m" "changed ?A (m_mem t) m"
    using load_changed(1)[OF m(2)] runtime_at_changed[OF t(3) d(1) m(2)] changed_mono[OF m(2)] by blast+
  have "changed ?A (m_mem s) m" using changed_trans[OF ch0 changed_trans[OF t(6) end'(3)]] .
  then show ?thesis
    using runs_trans[OF start runs_trans[OF t(1) m(1)]] t(5) end'(1,2) unfolding sp
    by (intro exI[of _ m] exI[of _ "m_os t"]) simp
qed

end

end
