(* ===== verification/Ret_Run.thy ===== *)
theory Ret_Run
  imports Ret_Search Entry_Run
begin

text \<open>
  The return stub at run time: it takes the return address and the entry time from the shadow stack
  of the thread, appends one event to the ring and returns to the caller, with every register but
  \<open>r11\<close> as the probed function left it. Without an address to return to it traps.
\<close>

section \<open>The event\<close>

definition return_event :: "probe_desc \<Rightarrow> 'o machine \<Rightarrow> u32 \<Rightarrow> u64 \<Rightarrow> u64 \<Rightarrow> probe_event" where
  "return_event d s tid start time =
     \<lparr> ev_timestamp_ns = time, ev_pid = d_pid d, ev_tid = tid, ev_probe_id = d_probe_id d,
       ev_event_type = PROBE_EVENT_RETURN, ev_args = [0, 0, 0, 0, 0, 0],
       ev_retval = m_reg s RAX, ev_duration_ns = time - start \<rparr>"

definition ret_fields :: "probe_desc \<Rightarrow> instr list" where
  "ret_fields d =
     [MOV_STI False (at8 R8 8) (d_pid d),
      MOV_LD False RDX (at RBX), MOV_ST False (at8 R8 12) RDX,
      MOV_STI False (at8 R8 16) (d_probe_id d), MOV_STI False (at8 R8 20) 2,
      MOV_STI True (at8 R8 24) 0, MOV_STI True (at8 R8 32) 0, MOV_STI True (at8 R8 40) 0,
      MOV_STI True (at8 R8 48) 0, MOV_STI True (at8 R8 56) 0, MOV_STI True (at8 R8 64) 0,
      MOV_LD True RDX (at8 RSP 0x50), MOV_ST True (at8 R8 72) RDX, SUB_RI8 RSP 16]"

definition ret_duration :: "instr list" where
  "ret_duration =
     [ADD_RI8 RSP 16, MOV_ST True (at8 R8 0) RAX,
      MOV_LD True RDX (Mem RBX (Some (R12, 3)) (Disp32 0x208)),
      SUB_RR RAX RDX, MOV_ST True (at8 R8 80) RAX]"

lemma ret_event_split:
  "ret_event d = ([MOVABS R10 (d_config_addr d)] @ event_slot R10) @ ret_fields d @ clock_time @ ret_duration"
  by (simp add: ret_event_def ret_fields_def ret_duration_def)

text \<open>The frame of the stub at \<open>sp\<close>, with 16 bytes below it for the clock.\<close>

lemma ret_ranges:
  "range64 sp 96 \<subseteq> range64 (sp - 16) 112" "range64 (sp - 16) 16 \<subseteq> range64 (sp - 16) 112"
  "range64 (sp + 8) 8 \<subseteq> range64 sp 96" "range64 (sp + 80) 8 \<subseteq> range64 sp 96"
  "range64 sp 96 \<inter> range64 (sp - 16) 16 = {}"
  using range_inside[of 16 96 112 "sp - 16"] range_inside[of 0 16 112 "sp - 16"] range_inside[of 8 8 96 sp]
    range_inside[of 80 8 96 sp] offsets_apart[of 16 96 0 16 "sp - 16"]
  by simp_all

lemma ret_slot_run:
  assumes "load64 (m_mem t) (config + 8) = buffer" and "load64 (m_mem t) buffer = w"
  shows "\<exists>f x y. execs C ([MOVABS R10 config] @ event_slot R10) t = t\<lparr>m_reg := (m_reg t)(R10 := buffer, RAX := x, R9 := y,
      R8 := event_pos buffer (unat w mod LP_EVENT_BUFFER_CAPACITY)),
    m_mem := store64 (m_mem t) buffer (w + 1), m_flags := f\<rparr>"
proof -
  let ?u = "t\<lparr>m_reg := (m_reg t)(R10 := config)\<rparr>"
  have u: "exec C (MOVABS R10 config) t = ?u" by (simp add: exec_def set_reg_def)
  obtain f x y where "execs C (event_slot R10) ?u = ?u\<lparr>m_reg := (m_reg ?u)(R10 := buffer, RAX := x, R9 := y,
      R8 := event_pos buffer (unat w mod LP_EVENT_BUFFER_CAPACITY)), m_mem := store64 (m_mem ?u) buffer (w + 1), m_flags := f\<rparr>"
    using event_slot_run[of ?u config buffer w R10 C] assms by auto
  then have "execs C ([MOVABS R10 config] @ event_slot R10) t = t\<lparr>m_reg := (m_reg t)(R10 := buffer, RAX := x, R9 := y,
      R8 := event_pos buffer (unat w mod LP_EVENT_BUFFER_CAPACITY)), m_mem := store64 (m_mem t) buffer (w + 1), m_flags := f\<rparr>"
    unfolding execs_append by (simp add: u)
  then show ?thesis by blast
qed

lemma ret_fields_run:
  assumes "m_reg t RSP = sp" and "m_reg t R8 = a" and "m_reg t RBX = slot"
    and "load32 (m_mem t) slot = tid" and "load64 (m_mem t) (sp + 80) = ret"
    and "range64 sp 96 \<inter> range64 a 88 = {}" and "range64 slot 4 \<inter> range64 a 88 = {}"
  shows "\<exists>m f. execs C (ret_fields d) t =
      t\<lparr>m_reg := (m_reg t)(RDX := ret, RSP := sp - 16), m_mem := m, m_flags := f\<rparr> \<and>
    changed (range64 a 88) (m_mem t) m \<and> load32 m (a + 8) = d_pid d \<and> load32 m (a + 12) = tid \<and>
    load32 m (a + 16) = d_probe_id d \<and> load32 m (a + 20) = PROBE_EVENT_RETURN \<and>
    (\<forall>x \<in> {24, 32, 40, 48, 56, 64}. load64 m (a + x) = 0) \<and> load64 m (a + 72) = ret"
proof -
  let ?m = "store64 (store64 (store64 (store64 (store64 (store64 (store64 (store32 (store32 (store32 (store32 (m_mem t)
      (a + 8) (d_pid d)) (a + 12) tid) (a + 16) (d_probe_id d)) (a + 20) 2) (a + 24) 0) (a + 32) 0) (a + 40) 0)
      (a + 48) 0) (a + 56) 0) (a + 64) 0) (a + 72) ret"
  have "range64 slot 4 \<inter> range64 (a + 8) 4 = {}" using assms(7) range_inside[of 8 4 88 a] by auto
  from load_changed(2)[OF changed_store(2)[OF subset_refl] this]
  have tid: "load32 (store32 (m_mem t) (a + 8) (d_pid d)) slot = tid" using assms(4) by simp
  have "cores C (ret_fields d) t = t\<lparr>m_reg := (m_reg t)(RDX := ret, RSP := sp - 16), m_mem := ?m\<rparr>"
    using assms(1-3,5) tid
    by (simp add: ret_fields_def set_reg_def set_mem_def offset_right at_defs load_store_apart[OF assms(6)])
  moreover have "list_all (\<lambda>i. \<not> sees_flags i) (ret_fields d)" by (simp add: ret_fields_def)
  ultimately obtain f where "execs C (ret_fields d) t = t\<lparr>m_reg := (m_reg t)(RDX := ret, RSP := sp - 16), m_mem := ?m, m_flags := f\<rparr>"
    using execs_cores[of "ret_fields d" C t] by auto
  moreover have "changed (range64 a 88) (m_mem t) ?m"
    by (intro changed_stores range_inside changed_refl) simp_all
  ultimately show ?thesis
    by (intro exI[of _ ?m] exI[of _ f]) (simp add: load_store_far PROBE_EVENT_RETURN_def)
qed

lemma ret_duration_run:
  assumes "m_reg t RSP = sp - 16" and "m_reg t R8 = a" and "m_reg t RBX = slot" and "m_reg t R12 = ucast (v :: u32)"
    and "m_reg t RAX = time" and "load64 (m_mem t) (time_pos slot (unat v)) = start"
    and "range64 (time_pos slot (unat v)) 8 \<inter> range64 a 8 = {}"
  shows "\<exists>t'. execs C ret_duration t = t' \<and> m_reg t' RSP = sp \<and>
    (\<forall>r \<in> {RBP, R13, R14, R15}. m_reg t' r = m_reg t r) \<and> m_mem t' = store64 (store64 (m_mem t) a time) (a + 80) (time - start)"
proof -
  have pos: "slot + push_bit 3 (ucast v) + 520 = time_pos slot (unat v)"
    by (simp add: slot_index time_pos_def add.commute add.left_commute)
  have start: "load64 (store64 (m_mem t) a time) (time_pos slot (unat v)) = start"
    using load_changed(1)[OF changed_store(1)[OF subset_refl] assms(7)] assms(6) by simp
  let ?u = "cores C ret_duration t"
  have u: "m_reg ?u RSP = sp" "\<forall>r \<in> {RBP, R13, R14, R15}. m_reg ?u r = m_reg t r" "m_mem ?u = store64 (store64 (m_mem t) a time) (a + 80) (time - start)"
    using assms(1-5) start
    by (simp_all add: ret_duration_def at_defs set_reg_def set_mem_def pos)
  have "list_all (\<lambda>i. \<not> sees_flags i) ret_duration" by (simp add: ret_duration_def)
  from execs_cores[OF this] obtain f where "execs C ret_duration t = ?u\<lparr>m_flags := f\<rparr>" by blast
  then show ?thesis using u by simp
qed

lemma ret_restore_run:
  assumes "ret_frame s sp (m_mem t)" and "m_reg t RSP = sp" and "load64 (m_mem t) (sp + 8) = ret"
    and "\<And>r. r \<in> {RBP, R13, R14, R15} \<Longrightarrow> m_reg t r = m_reg s r" and "m_reg s RSP = sp + 96"
  shows "execs C ret_restore t = t\<lparr>m_reg := (m_reg s)(R11 := ret), m_flags := m_flags s\<rparr>"
proof -
  let ?r = "(m_reg s)(R11 := ret, RSP := sp + 88)"
  have pops: "cores C (butlast ret_restore) t = t\<lparr>m_reg := ?r\<rparr>" (is "?l = _")
  proof -
    have "?l = t\<lparr>m_reg := m_reg ?l\<rparr>" by (simp add: ret_restore_def core_simps)
    moreover have "m_reg ?l = ?r"
    proof
      fix y show "m_reg ?l y = ?r y"
        using assms(1-4) by (cases y) (simp_all add: ret_restore_def core_simps ret_frame_def)
    qed
    ultimately show ?thesis by simp
  qed
  have "list_all (\<lambda>i. \<not> sees_flags i) (butlast ret_restore)" by (simp add: ret_restore_def)
  from execs_cores[OF this] obtain f where f: "execs C (butlast ret_restore) t = t\<lparr>m_reg := ?r, m_flags := f\<rparr>"
    using pops by metis
  have split: "ret_restore = butlast ret_restore @ [POPFQ]" by (simp add: ret_restore_def)
  have "execs C ret_restore t = exec C POPFQ (t\<lparr>m_reg := ?r, m_flags := f\<rparr>)"
    by (subst split) (simp only: execs_append f execs_simps)
  also have "\<dots> = t\<lparr>m_reg := (m_reg s)(R11 := ret), m_flags := m_flags s\<rparr>"
    using assms(1,5) by (simp add: exec_def set_reg_def ret_frame_def offset_right fun_eq_iff)
  finally show ?thesis .
qed

section \<open>The pop\<close>

definition popped :: "nat \<Rightarrow> lp_shadow_stack \<Rightarrow> lp_shadow_stack" where
  "popped k ss = ss[k := (ss ! k)\<lparr>ss_depth := ss_depth (ss ! k) - 1\<rparr>]"

lemma shadow_at_popped:
  assumes "shadow_at m S ss" and "k < LP_SHADOW_STACK_THREADS" and "unat (ss_depth (ss ! k) - 1) < LP_SHADOW_STACK_DEPTH"
  defines "a \<equiv> slot_pos S k" and "v \<equiv> ss_depth (ss ! k) - 1"
  shows "shadow_at (store32 m (a + 4) v) S (popped k ss)" "changed (shadow_area S) m (store32 m (a + 4) v)"
    "load64 (store32 m (a + 4) v) (ret_pos a (unat v)) = ss_return_addrs (ss ! k) ! unat v"
    "load64 (store32 m (a + 4) v) (time_pos a (unat v)) = ss_entry_timestamps (ss ! k) ! unat v"
    "load32 (store32 m (a + 4) v) a = ss_tid (ss ! k)"
proof -
  note wf = shadow_at_wf[OF assms(1,2)]
  have wf': "wf_shadow_entry ((ss ! k)\<lparr>ss_depth := v\<rparr>)" using wf by (simp add: wf_shadow_entry_def)
  have entry: "entry_at (store32 m (a + 4) v) a ((ss ! k)\<lparr>ss_depth := v\<rparr>)"
    unfolding a_def by (rule entry_at_depth[OF shadow_at_entry[OF assms(1,2)] wf])
  have ch: "changed (range64 a sizeof_lp_shadow_stack_entry) m (store32 m (a + 4) v)"
    by (intro changed_store slot_word_area) simp
  show "shadow_at (store32 m (a + 4) v) S (popped k ss)"
    using entry ch wf' unfolding a_def popped_def v_def by (intro shadow_at_update[OF assms(1,2)])
  show "changed (shadow_area S) m (store32 m (a + 4) v)"
    using ch slot_area[OF assms(2), of S] unfolding a_def by (rule changed_mono)
  show "load64 (store32 m (a + 4) v) (ret_pos a (unat v)) = ss_return_addrs (ss ! k) ! unat v"
    "load64 (store32 m (a + 4) v) (time_pos a (unat v)) = ss_entry_timestamps (ss ! k) ! unat v"
    "load32 (store32 m (a + 4) v) a = ss_tid (ss ! k)"
    using entry assms(3)[folded v_def] unfolding entry_at_fields[OF wf'] by simp_all
qed

lemma slot_data_area:
  assumes "k < LP_SHADOW_STACK_THREADS" and "j < LP_SHADOW_STACK_DEPTH"
  shows "range64 (slot_pos S k) 4 \<subseteq> shadow_area S" "range64 (time_pos (slot_pos S k) j) 8 \<subseteq> shadow_area S"
  using slot_word_area(1)[of 0 "slot_pos S k"] slot_word_area(3)[OF assms(2), of "slot_pos S k"] slot_area[OF assms(1), of S]
  by auto

lemma pop_depth:
  assumes "wf_shadow ss" and "k < LP_SHADOW_STACK_THREADS" and "ss_depth (ss ! k) \<noteq> 0"
  shows "unat (ss_depth (ss ! k) - 1) < LP_SHADOW_STACK_DEPTH"
proof -
  have "ss ! k \<in> set ss" using assms(1,2) by (simp add: wf_shadow_def)
  then show ?thesis
    using assms(1,3) unat_minus_one[of "ss_depth (ss ! k)"] unat_gt_0[of "ss_depth (ss ! k)"]
    by (auto simp: wf_shadow_def dest: bspec)
qed

lemma pop_run:
  assumes d: "placed d base" and rt: "runtime_at d c b ss (m_mem t)" and wf: "wf_shadow ss"
    and k: "k < LP_SHADOW_STACK_THREADS" "ss_depth (ss ! k) \<noteq> 0"
    and regs: "m_reg t RSP = sp" "m_reg t R11 = slot_pos (d_shadow_stack_addr d) k" "m_reg t RCX = ucast (ss_depth (ss ! k))"
    and frame: "ret_frame s sp (m_mem t)" and stack: "range64 (sp - 16) 112 \<inter> range64 base 633008 = {}"
  defines "v \<equiv> ss_depth (ss ! k) - 1" and "a \<equiv> slot_pos (d_shadow_stack_addr d) k"
  shows "\<exists>m f. execs C pop_body t = t\<lparr>m_reg := (m_reg t)(RCX := ucast v, RDX := ss_return_addrs (ss ! k) ! unat v,
      RBX := a, R12 := ucast v), m_mem := m, m_flags := f\<rparr> \<and>
    runtime_at d c b (popped k ss) m \<and> ret_frame s sp m \<and> load32 m a = ss_tid (ss ! k) \<and>
    load64 m (time_pos a (unat v)) = ss_entry_timestamps (ss ! k) ! unat v \<and>
    load64 m (sp + 8) = ss_return_addrs (ss ! k) ! unat v \<and>
    changed (range64 (sp - 16) 112 \<union> stub_data d) (m_mem t) m"
proof -
  let ?S = "d_shadow_stack_addr d" and ?St = "range64 (sp - 16) 112" and ?T = "range64 (sp + 8) 8"
  let ?ret = "ss_return_addrs (ss ! k) ! unat v"
  define m1 where "m1 = store32 (m_mem t) (a + 4) v"
  define m2 where "m2 = store64 m1 (sp + 8) ?ret"
  have v: "unat v < LP_SHADOW_STACK_DEPTH" unfolding v_def by (rule pop_depth[OF wf k])
  have shadow: "shadow_at (m_mem t) ?S ss" using rt by (simp add: runtime_at_def)
  note pop = shadow_at_popped[OF shadow k(1) v[unfolded v_def], folded v_def a_def, folded m1_def]
  have inside: "?T \<subseteq> ?St" "range64 sp 96 \<subseteq> ?St" using ret_ranges(1,3)[of sp] by blast+
  have far: "?St \<inter> shadow_area ?S = {}" using stack areas_inside(3)[OF d] by blast
  have top: "changed ?T m1 m2" unfolding m2_def by (rule changed_store) simp
  have "changed (shadow_area ?S \<union> ?T) (m_mem t) m1" by (rule changed_mono[OF pop(2)]) blast
  also have "changed (shadow_area ?S \<union> ?T) m1 m2" by (rule changed_mono[OF top]) blast
  finally have ch: "changed (shadow_area ?S \<union> ?T) (m_mem t) m2" .
  have shadow2: "shadow_at m2 ?S (popped k ss)"
    using far inside(1) by (intro shadow_at_changed[OF pop(1) _ top]) blast
  have rt2: "runtime_at d c b (popped k ss) m2"
    using inside(1) stack by (intro runtime_at_shadow[OF rt d ch _ shadow2]) blast
  have frame2: "ret_frame s sp m2" using inside(2) far by (intro ret_frame_changed[OF frame ch]) blast
  have "range64 (time_pos a (unat v)) 8 \<inter> ?T = {}" "range64 a 4 \<inter> ?T = {}"
    using slot_data_area[OF k(1) v, of ?S, folded a_def] far inside(1) by blast+
  note keep = load_changed(1)[OF top this(1)] load_changed(2)[OF top this(2)]
  have "cores C pop_body t = t\<lparr>m_reg := (m_reg t)(RCX := ucast v, RDX := ?ret, RBX := a, R12 := ucast v), m_mem := m2\<rparr>"
    using pop_body_cores[OF regs(2,3,1), of ?ret C] pop(3) unfolding m2_def m1_def v_def a_def by blast
  moreover have "list_all (\<lambda>i. \<not> sees_flags i) pop_body" by (simp add: pop_body_def)
  ultimately obtain f where run: "execs C pop_body t = t\<lparr>m_reg := (m_reg t)(RCX := ucast v, RDX := ?ret, RBX := a,
      R12 := ucast v), m_mem := m2, m_flags := f\<rparr>"
    using execs_cores[of pop_body C t] by metis
  have "changed (?St \<union> stub_data d) (m_mem t) m2"
    using inside(1) by (intro changed_mono[OF ch]) (auto simp: stub_data_def)
  then show ?thesis
    using run rt2 frame2 keep pop(4,5) by (intro exI[of _ m2] exI[of _ f]) (simp add: m2_def)
qed

section \<open>The way out\<close>

lemma leave_run:
  assumes "ret_frame s sp (m_mem t)" and "m_reg t RSP = sp" and "load64 (m_mem t) (sp + 8) = ret"
    and "\<And>r. r \<in> {RBP, R13, R14, R15} \<Longrightarrow> m_reg t r = m_reg s r" and "m_reg s RSP = sp + 96"
  shows "runs C p (At (map I (ret_restore @ jmp_r11) @ q) t)
    (Left ret (s\<lparr>m_reg := (m_reg s)(R11 := ret), m_mem := m_mem t, m_os := m_os t\<rparr>))" (is "runs C p _ (Left ret ?out)")
proof -
  have "execs C ret_restore t = t\<lparr>m_reg := (m_reg s)(R11 := ret), m_flags := m_flags s\<rparr>"
    using assms by (rule ret_restore_run)
  also have "\<dots> = ?out" by (cases s; cases t) simp
  finally have run: "execs C ret_restore t = ?out" .
  have "list_all (\<lambda>i. \<not> jumps i) ret_restore" by (simp add: ret_restore_def)
  from runs_code[OF this, of C p "I (JMP_R R11) # q" t]
  have "runs C p (At (map I (ret_restore @ jmp_r11) @ q) t) (At (I (JMP_R R11) # q) ?out)"
    unfolding run by (simp add: jmp_r11_def)
  also have "runs C p (At (I (JMP_R R11) # q) ?out) (Left ret ?out)" by (rule runs_step) simp
  finally show ?thesis .
qed

lemma ret_known_run:
  assumes d: "placed d base" and rt: "runtime_at d c b ss (m_mem t)"
    and regs: "m_reg t RSP = sp" "m_reg t RBX = slot"
    and shadow: "range64 slot 4 \<subseteq> shadow_area (d_shadow_stack_addr d)"
    and vals: "load32 (m_mem t) slot = tid" "load64 (m_mem t) (sp + 80) = ret"
    and stack: "range64 (sp - 16) 112 \<inter> range64 base 633008 = {}"
  defines "a \<equiv> event_pos (d_event_buffer_addr d) (unat (eb_write_index b) mod LP_EVENT_BUFFER_CAPACITY)"
    and "B \<equiv> d_event_buffer_addr d"
  shows "\<exists>m f x y. execs C (([MOVABS R10 (d_config_addr d)] @ event_slot R10) @ ret_fields d) t =
      t\<lparr>m_reg := (m_reg t)(R10 := B, RAX := x, R9 := y, R8 := a, RDX := ret, RSP := sp - 16), m_mem := m, m_flags := f\<rparr> \<and>
    changed (range64 a 88) (store64 (m_mem t) B (eb_write_index b + 1)) m \<and>
    load32 m (a + 8) = d_pid d \<and> load32 m (a + 12) = tid \<and> load32 m (a + 16) = d_probe_id d \<and>
    load32 m (a + 20) = PROBE_EVENT_RETURN \<and> (\<forall>x \<in> {24, 32, 40, 48, 56, 64}. load64 m (a + x) = 0) \<and>
    load64 m (a + 72) = ret"
proof -
  let ?N = sizeof_lp_event_buffer
  have slot: "range64 a 88 \<subseteq> range64 B ?N" "range64 B 8 \<subseteq> range64 B ?N"
    unfolding a_def B_def using event_area range_inside[of 0 8 ?N "d_event_buffer_addr d"]
    by (simp_all add: LP_EVENT_BUFFER_CAPACITY_def sizeof_lp_event_buffer_def)
  have far: "range64 slot 4 \<inter> range64 B ?N = {}" "range64 sp 96 \<inter> range64 B ?N = {}"
    using shadow areas_apart(3)[OF d] stack areas_inside(2)[OF d] ret_ranges(1)[of sp] unfolding B_def by blast+
  have "buffer_at (m_mem t) B b" "wf_event_buffer b" using rt by (simp_all add: runtime_at_def buffer_at_def B_def)
  then have "load64 (m_mem t) B = eb_write_index b" by (simp add: buffer_at_fields)
  from ret_slot_run[OF config_fields(2)[OF rt] this[unfolded B_def], of C, folded B_def]
  obtain f x y where t1: "execs C ([MOVABS R10 (d_config_addr d)] @ event_slot R10) t =
      t\<lparr>m_reg := (m_reg t)(R10 := B, RAX := x, R9 := y, R8 := a), m_mem := store64 (m_mem t) B (eb_write_index b + 1), m_flags := f\<rparr>"
      (is "_ = ?t1")
    unfolding a_def B_def by blast
  have ch: "changed (range64 B ?N) (m_mem t) (m_mem ?t1)" using slot(2) by (simp add: changed_store)
  have "range64 (sp + 80) 8 \<inter> range64 B ?N = {}" using far(2) ret_ranges(4)[of sp] by blast
  then have "load32 (m_mem ?t1) slot = tid" "load64 (m_mem ?t1) (sp + 80) = ret"
    using load_changed(2)[OF ch far(1)] load_changed(1)[OF ch] vals by simp_all
  moreover have "range64 sp 96 \<inter> range64 a 88 = {}" "range64 slot 4 \<inter> range64 a 88 = {}"
    using slot(1) far by blast+
  moreover have "m_reg ?t1 RSP = sp" "m_reg ?t1 R8 = a" "m_reg ?t1 RBX = slot" using regs by simp_all
  ultimately obtain m g where t2: "execs C (ret_fields d) ?t1 = ?t1\<lparr>m_reg := (m_reg ?t1)(RDX := ret, RSP := sp - 16), m_mem := m, m_flags := g\<rparr>"
    and fields: "changed (range64 a 88) (m_mem ?t1) m" "load32 m (a + 8) = d_pid d" "load32 m (a + 12) = tid"
      "load32 m (a + 16) = d_probe_id d" "load32 m (a + 20) = PROBE_EVENT_RETURN"
      "\<forall>x \<in> {24, 32, 40, 48, 56, 64}. load64 m (a + x) = 0" "load64 m (a + 72) = ret"
    using ret_fields_run[of ?t1 sp a slot tid ret C d] by blast
  have "execs C (([MOVABS R10 (d_config_addr d)] @ event_slot R10) @ ret_fields d) t =
      t\<lparr>m_reg := (m_reg t)(R10 := B, RAX := x, R9 := y, R8 := a, RDX := ret, RSP := sp - 16), m_mem := m, m_flags := g\<rparr>"
    unfolding execs_append[of C "[MOVABS R10 (d_config_addr d)] @ event_slot R10"] t1 t2 by simp
  then show ?thesis using fields by auto
qed

section \<open>The whole stub\<close>

context stub_kernel
begin

lemma ret_event_run:
  assumes d: "placed d base" and rt: "runtime_at d c b ss (m_mem t)"
    and regs: "m_reg t RSP = sp" "m_reg t RBX = slot" "m_reg t R12 = ucast (v :: u32)"
    and shadow: "range64 slot 4 \<subseteq> shadow_area (d_shadow_stack_addr d)"
      "range64 (time_pos slot (unat v)) 8 \<subseteq> shadow_area (d_shadow_stack_addr d)"
    and vals: "load32 (m_mem t) slot = tid" "load64 (m_mem t) (time_pos slot (unat v)) = start"
      "load64 (m_mem t) (sp + 80) = m_reg s RAX"
    and stack: "range64 (sp - 16) 112 \<inter> range64 base 633008 = {}"
  defines "e \<equiv> return_event d s tid start (nanoseconds (clock (m_os t)))"
  shows "\<exists>t'. execs C (ret_event d) t = t' \<and> m_reg t' RSP = sp \<and>
    (\<forall>r \<in> {RBP, R13, R14, R15}. m_reg t' r = m_reg t r) \<and>
    changed (range64 (sp - 16) 16 \<union> range64 (d_event_buffer_addr d) sizeof_lp_event_buffer) (m_mem t) (m_mem t') \<and>
    runtime_at d c (ring_push b e) ss (m_mem t')"
proof -
  let ?B = "d_event_buffer_addr d" and ?N = sizeof_lp_event_buffer and ?S = "range64 (sp - 16) 16"
  let ?now = "nanoseconds (clock (m_os t))" and ?tp = "time_pos slot (unat v)"
  let ?head = "([MOVABS R10 (d_config_addr d)] @ event_slot R10) @ ret_fields d"
  define a where "a = event_pos ?B (unat (eb_write_index b) mod LP_EVENT_BUFFER_CAPACITY)"
  obtain m f x y where t1: "execs C ?head t = t\<lparr>m_reg := (m_reg t)(R10 := ?B, RAX := x, R9 := y, R8 := a,
      RDX := m_reg s RAX, RSP := sp - 16), m_mem := m, m_flags := f\<rparr>" (is "_ = ?t1")
    and ch1: "changed (range64 a 88) (store64 (m_mem t) ?B (eb_write_index b + 1)) m"
    and fields: "load32 m (a + 8) = d_pid d" "load32 m (a + 12) = tid" "load32 m (a + 16) = d_probe_id d"
      "load32 m (a + 20) = PROBE_EVENT_RETURN" "\<forall>x \<in> {24, 32, 40, 48, 56, 64}. load64 m (a + x) = 0"
      "load64 m (a + 72) = m_reg s RAX"
    using ret_known_run[OF d rt regs(1,2) shadow(1) vals(1,3) stack, of C] unfolding a_def by blast
  define bs where "bs = le64 (fst (clock (m_os t))) @ le64 (snd (clock (m_os t)))"
  have bs: "length bs = 16" by (simp add: bs_def)
  obtain cx r os h where t2: "execs C clock_time ?t1 = ?t1\<lparr>m_reg := (m_reg ?t1)(RAX := ?now, RDI := 0,
      RSI := sp - 16, RCX := cx, R11 := r), m_mem := mem_write m (sp - 16) bs, m_os := os, m_flags := h\<rparr>" (is "_ = ?t2")
    using clock_time_run[of ?t1 "sp - 16"] unfolding bs_def by auto
  have slot: "range64 a 88 \<subseteq> range64 ?B ?N" "range64 ?B 8 \<subseteq> range64 ?B ?N" "range64 a 8 \<subseteq> range64 a 88"
    unfolding a_def using event_area range_inside[of 0 8 ?N ?B] range_inside[of 0 8 88]
    by (simp_all add: LP_EVENT_BUFFER_CAPACITY_def sizeof_lp_event_buffer_def)
  have far: "range64 ?tp 8 \<inter> range64 ?B ?N = {}" "range64 ?tp 8 \<inter> ?S = {}" "?S \<inter> range64 ?B ?N = {}"
    using shadow(2) areas_apart(3)[OF d] stack areas_inside(2,3)[OF d] ret_ranges(2)[of sp] by blast+
  have ch2: "changed (range64 ?B ?N \<union> ?S) (m_mem t) (mem_write m (sp - 16) bs)"
  proof -
    let ?A = "range64 ?B ?N \<union> ?S"
    have A: "range64 ?B 8 \<subseteq> ?A" "range64 a 88 \<subseteq> ?A" "range64 (sp - 16) (length bs) \<subseteq> ?A" using slot(1,2) bs by auto
    have "changed ?A (m_mem t) (store64 (m_mem t) ?B (eb_write_index b + 1))" by (rule changed_store(1)[OF A(1)])
    also have "changed ?A (store64 (m_mem t) ?B (eb_write_index b + 1)) m" by (rule changed_mono[OF ch1 A(2)])
    also have "changed ?A m (mem_write m (sp - 16) bs)" using A(3) by (intro changed_write) (simp_all add: bs)
    finally show ?thesis .
  qed
  have "range64 ?tp 8 \<inter> (range64 ?B ?N \<union> ?S) = {}" using far by blast
  from load_changed(1)[OF ch2 this] have "load64 (m_mem ?t2) ?tp = start" using vals(2) by simp
  moreover have "range64 ?tp 8 \<inter> range64 a 8 = {}" using far(1) slot(1,3) by blast
  moreover have "m_reg ?t2 RSP = sp - 16" "m_reg ?t2 R8 = a" "m_reg ?t2 RBX = slot" "m_reg ?t2 R12 = ucast v" "m_reg ?t2 RAX = ?now"
    using regs by simp_all
  ultimately obtain t3 where t3: "execs C ret_duration ?t2 = t3" "m_reg t3 RSP = sp"
    "\<forall>r \<in> {RBP, R13, R14, R15}. m_reg t3 r = m_reg ?t2 r"
    and m3: "m_mem t3 = store64 (store64 (mem_write m (sp - 16) bs) a ?now) (a + 80) (?now - start)"
    using ret_duration_run[of ?t2 sp a slot v ?now start C] by auto
  have run: "execs C (ret_event d) t = t3"
    unfolding ret_event_split append_assoc[symmetric, of _ "ret_fields d"]
    unfolding execs_append[of C ?head] execs_append[of C clock_time] t1 t2 t3(1) ..
  have apart: "range64 a 88 \<inter> range64 (sp - 16) (length bs) = {}" using far(3) slot(1) bs by auto
  have e: "event_at (m_mem t3) a e"
    unfolding m3 e_def
    by (subst event_at_fields[where ?a0.0 = 0 and ?a1.0 = 0 and ?a2.0 = 0 and ?a3.0 = 0 and ?a4.0 = 0 and ?a5.0 = 0])
       (use fields(5) in \<open>simp_all add: return_event_def load_store_far fields(1-4,6) load_write_apart[OF apart] bs\<close>)
  have wf: "wf_event e" by (simp add: wf_event_def e_def return_event_def)
  have ch3: "changed (range64 a 88) (mem_write m (sp - 16) bs) (m_mem t3)"
    unfolding m3 using slot(3) range_inside[of 80 8 88 a] by (intro changed_stores changed_refl) simp_all
  have "?S \<inter> range64 base 633008 = {}" using stack ret_ranges(2) by blast
  note event_written[OF rt d, folded a_def, OF ch1 this bs ch3 e wf]
  moreover have "\<forall>r \<in> {RBP, R13, R14, R15}. m_reg t3 r = m_reg t r" using t3(3) by simp
  ultimately show ?thesis using run t3(2) by blast
qed

text \<open>From the saved registers to the search.\<close>

lemma ret_tid_run:
  assumes "m_reg t RSP = sp" and "m_reg t R10 = a"
  shows "\<exists>t'. execs C ret_tid t = t' \<and> m_mem t' = m_mem t \<and> m_os t' = m_os t \<and> m_reg t' RSP = sp \<and> m_reg t' R10 = a \<and>
    m_reg t' R8 = ucast (tid_of (m_os t)) \<and> m_reg t' RBX = of_nat 0 \<and>
    (\<forall>r \<in> {RBP, R13, R14, R15}. m_reg t' r = m_reg t r)"
proof -
  have "m_reg (exec C (MOV_RI RAX 186) t) RAX = 186" by (simp add: exec_def set_reg_def)
  from gettid[OF this] obtain c r where sys: "c_syscall C (exec C (MOV_RI RAX 186) t) =
      t\<lparr>m_reg := (m_reg t)(RAX := ucast (tid_of (m_os t)), RCX := c, R11 := r)\<rparr>"
    by (cases t) (auto simp: fun_eq_iff exec_def set_reg_def)
  have split: "ret_tid = [MOV_RI RAX 186] @ [SYSCALL] @ [MOV_RR False R8 RAX, XOR_SELF RBX]"
    by (simp add: ret_tid_def)
  have run: "execs C ret_tid t = execs C [MOV_RR False R8 RAX, XOR_SELF RBX]
      (t\<lparr>m_reg := (m_reg t)(RAX := ucast (tid_of (m_os t)), RCX := c, R11 := r)\<rparr>)"
    unfolding split execs_append exec_syscall sys[symmetric] by simp
  show ?thesis unfolding run using assms by (simp add: exec_def set_reg_def)
qed

lemma ret_start_run:
  fixes s :: "'o machine"
  defines "sp \<equiv> m_reg s RSP - 96"
  shows "\<exists>t. runs C (ret_prog d) (At (ret_prog d) s) (At (seek_part d) t) \<and> ret_frame s sp (m_mem t) \<and>
    changed (range64 sp 96) (m_mem s) (m_mem t) \<and> m_os t = m_os s \<and> m_reg t RSP = sp \<and>
    m_reg t R10 = d_shadow_stack_addr d \<and> m_reg t R8 = ucast (tid_of (m_os s)) \<and> m_reg t RBX = of_nat 0 \<and>
    (\<forall>r \<in> {RBP, R13, R14, R15}. m_reg t r = m_reg s r)"
proof -
  let ?head = "ret_head (d_shadow_stack_addr d)"
  obtain m f where head: "execs C ?head s = s\<lparr>m_reg := (m_reg s)(RSP := sp, R10 := d_shadow_stack_addr d), m_mem := m, m_flags := f\<rparr>"
      (is "_ = ?t0")
    and m: "ret_frame s sp m" "changed (range64 sp 96) (m_mem s) m"
    using ret_head_run[of C "d_shadow_stack_addr d" s] unfolding sp_def by blast
  obtain t where t: "execs C ret_tid ?t0 = t" "m_mem t = m" "m_os t = m_os s" "m_reg t RSP = sp"
    "m_reg t R10 = d_shadow_stack_addr d" "m_reg t R8 = ucast (tid_of (m_os s))" "m_reg t RBX = of_nat 0"
    "\<forall>r \<in> {RBP, R13, R14, R15}. m_reg t r = m_reg ?t0 r"
    using ret_tid_run[of ?t0 sp "d_shadow_stack_addr d"] by auto
  have run: "execs C (?head @ ret_tid) s = t" unfolding execs_append head t(1) ..
  have "list_all (\<lambda>i. \<not> jumps i) (?head @ ret_tid)" by (simp add: ret_head_def ret_tid_def)
  from runs_code[OF this, of C "ret_prog d" "L Loop # seek_part d" s]
  have "runs C (ret_prog d) (At (ret_prog d) s) (At (L Loop # seek_part d) t)"
    unfolding run ret_prog_parts[symmetric] .
  also have "runs C (ret_prog d) (At (L Loop # seek_part d) t) (At (seek_part d) t)" by (rule label_run)
  finally show ?thesis using t(3-8) m unfolding t(2)[symmetric] by (intro exI[of _ t]) simp
qed

text \<open>From the pop to the return.\<close>

lemma return_run:
  assumes d: "placed d base" and rt: "runtime_at d c b ss (m_mem t)" and wf: "wf_shadow ss"
    and k: "k < LP_SHADOW_STACK_THREADS" "ss_depth (ss ! k) \<noteq> 0"
    and regs: "m_reg t RSP = sp" "m_reg t R11 = slot_pos (d_shadow_stack_addr d) k" "m_reg t RCX = ucast (ss_depth (ss ! k))"
    and kept: "\<And>r. r \<in> {RBP, R13, R14, R15} \<Longrightarrow> m_reg t r = m_reg s r" and s: "m_reg s RSP = sp + 96"
    and frame: "ret_frame s sp (m_mem t)" and stack: "range64 (sp - 16) 112 \<inter> range64 base 633008 = {}"
  defines "v \<equiv> ss_depth (ss ! k) - 1"
  shows "\<exists>m os. runs C (ret_prog d) (At (return_part d) t)
      (Left (ss_return_addrs (ss ! k) ! unat v)
        (s\<lparr>m_reg := (m_reg s)(R11 := ss_return_addrs (ss ! k) ! unat v), m_mem := m, m_os := os\<rparr>)) \<and>
    runtime_at d c (ring_push b (return_event d s (ss_tid (ss ! k)) (ss_entry_timestamps (ss ! k) ! unat v)
      (nanoseconds (clock (m_os t))))) (popped k ss) m \<and>
    changed (range64 (sp - 16) 112 \<union> stub_data d) (m_mem t) m"
proof -
  let ?S = "d_shadow_stack_addr d" and ?B = "range64 (d_event_buffer_addr d) sizeof_lp_event_buffer"
  let ?ret = "ss_return_addrs (ss ! k) ! unat v" and ?start = "ss_entry_timestamps (ss ! k) ! unat v"
  let ?St = "range64 (sp - 16) 112"
  define a where "a = slot_pos ?S k"
  obtain m1 f where pop: "execs C pop_body t = t\<lparr>m_reg := (m_reg t)(RCX := ucast v, RDX := ?ret, RBX := a, R12 := ucast v),
      m_mem := m1, m_flags := f\<rparr>" (is "_ = ?t1")
    and rt1: "runtime_at d c b (popped k ss) m1" and frame1: "ret_frame s sp m1" and tid: "load32 m1 a = ss_tid (ss ! k)"
    and start: "load64 m1 (time_pos a (unat v)) = ?start" and ret1: "load64 m1 (sp + 8) = ?ret"
    and ch1: "changed (?St \<union> stub_data d) (m_mem t) m1"
    using pop_run[OF d rt wf k regs frame stack, of C] unfolding v_def a_def by blast
  have v: "unat v < LP_SHADOW_STACK_DEPTH" unfolding v_def by (rule pop_depth[OF wf k])
  note area = slot_data_area[OF k(1) v, of ?S, folded a_def]
  \<comment> \<open>the event\<close>
  let ?ev = "return_event d s (ss_tid (ss ! k)) ?start (nanoseconds (clock (m_os t)))"
  have "m_reg ?t1 RSP = sp" "m_reg ?t1 RBX = a" "m_reg ?t1 R12 = ucast v" "runtime_at d c b (popped k ss) (m_mem ?t1)"
    "load32 (m_mem ?t1) a = ss_tid (ss ! k)" "load64 (m_mem ?t1) (time_pos a (unat v)) = ?start"
    "load64 (m_mem ?t1) (sp + 80) = m_reg s RAX"
    using regs rt1 tid start frame1 by (simp_all add: ret_frame_def)
  from ret_event_run[OF d this(4,1,2,3) area this(5,6,7) stack]
  obtain t2 where t2: "execs C (ret_event d) ?t1 = t2" "m_reg t2 RSP = sp" "\<forall>r \<in> {RBP, R13, R14, R15}. m_reg t2 r = m_reg ?t1 r"
    "changed (range64 (sp - 16) 16 \<union> ?B) m1 (m_mem t2)" "runtime_at d c (ring_push b ?ev) (popped k ss) (m_mem t2)"
    by auto
  note inside = ret_ranges(2,1,3)[of sp]
  note ret_ranges(5)[of sp]
  moreover have "?St \<inter> ?B = {}" using stack areas_inside(2)[OF d] by blast
  ultimately have apart: "range64 sp 96 \<inter> (range64 (sp - 16) 16 \<union> ?B) = {}" using inside(2) by blast
  have frame2: "ret_frame s sp (m_mem t2)" using apart by (intro ret_frame_changed[OF frame1 t2(4)]) blast
  have ret2: "load64 (m_mem t2) (sp + 8) = ?ret"
    using load_changed(1)[OF t2(4), of "sp + 8"] apart inside(3) ret1 by auto
  have kept2: "m_reg t2 r = m_reg s r" if "r \<in> {RBP, R13, R14, R15}" for r
  proof -
    have "m_reg t2 r = m_reg ?t1 r" using t2(3) that by blast
    also have "\<dots> = m_reg t r" using that by auto
    finally show ?thesis using kept[OF that] by simp
  qed
  \<comment> \<open>the whole\<close>
  let ?out = "s\<lparr>m_reg := (m_reg s)(R11 := ?ret), m_mem := m_mem t2, m_os := m_os t2\<rparr>"
  have code: "return_part d = map I (pop_body @ ret_event d) @ map I (ret_restore @ jmp_r11) @ L Next # back_part"
    by (simp add: return_part_def)
  have run: "execs C (pop_body @ ret_event d) t = t2" unfolding execs_append pop t2(1) ..
  have "list_all (\<lambda>i. \<not> jumps i) (pop_body @ ret_event d)"
    by (simp add: pop_body_def ret_event_def event_slot_def clock_time_def)
  from runs_code[OF this, of C "ret_prog d" "map I (ret_restore @ jmp_r11) @ L Next # back_part" t]
  have "runs C (ret_prog d) (At (return_part d) t) (At (map I (ret_restore @ jmp_r11) @ L Next # back_part) t2)"
    unfolding run code .
  also have "runs C (ret_prog d) (At (map I (ret_restore @ jmp_r11) @ L Next # back_part) t2) (Left ?ret ?out)"
    by (rule leave_run[OF frame2 t2(2) ret2 kept2 s])
  finally have out: "runs C (ret_prog d) (At (return_part d) t) (Left ?ret ?out)" .
  have "changed (?St \<union> stub_data d) m1 (m_mem t2)"
    using inside(1) by (intro changed_mono[OF t2(4)]) (auto simp: stub_data_def)
  with ch1 have "changed (?St \<union> stub_data d) (m_mem t) (m_mem t2)" by (rule changed_trans)
  then show ?thesis using out t2(5) by blast
qed

lemma pop_part_run:
  assumes d: "placed d base" and rt: "runtime_at d c b ss (m_mem t)" and wf: "wf_shadow ss"
    and k: "first_slot (\<lambda>e. ss_tid e = tid) 0 ss = Some k"
    and regs: "m_reg t RSP = sp" "m_reg t R11 = slot_pos (d_shadow_stack_addr d) k"
    and kept: "\<And>r. r \<in> {RBP, R13, R14, R15} \<Longrightarrow> m_reg t r = m_reg s r" and s: "m_reg s RSP = sp + 96"
    and frame: "ret_frame s sp (m_mem t)" and stack: "range64 (sp - 16) 112 \<inter> range64 base 633008 = {}"
  shows "case shadow_pop tid ss of
      None \<Rightarrow> \<exists>t'. runs C (ret_prog d) (At (pop_part d) t) (Trap t')
    | Some (ret, start, ss') \<Rightarrow>
        \<exists>m os. runs C (ret_prog d) (At (pop_part d) t)
            (Left ret (s\<lparr>m_reg := (m_reg s)(R11 := ret), m_mem := m, m_os := os\<rparr>)) \<and>
          runtime_at d c (ring_push b (return_event d s tid start (nanoseconds (clock (m_os t))))) ss' m \<and>
          changed (range64 (sp - 16) 112 \<union> stub_data d) (m_mem t) m"
proof -
  let ?run = "runs C (ret_prog d)" and ?e = "ss ! k"
  have slot: "k < LP_SHADOW_STACK_THREADS" "ss_tid ?e = tid"
    using first_slot_nth[OF k] wf by (simp_all add: wf_shadow_def)
  have shadow: "shadow_at (m_mem t) (d_shadow_stack_addr d) ss" using rt by (simp add: runtime_at_def)
  have "load32 (m_mem t) (m_reg t R11 + 4) = ss_depth ?e"
    using shadow_at_entry[OF shadow slot(1)] shadow_at_wf[OF shadow slot(1)] regs(2) by (simp add: entry_at_fields)
  from pop_check_run[OF this, of C "ret_prog d" Fallback, where q = "return_part d", folded pop_part_def]
  obtain t1 where t1: "?run (At (pop_part d) t) (if ss_depth ?e = 0 then At fallback_part t1 else At (return_part d) t1)"
    and work: "same_work t t1" and m1: "m_mem t1 = m_mem t" and r1: "m_reg t1 R11 = m_reg t R11" "m_reg t1 RCX = ucast (ss_depth ?e)"
    unfolding goto_ret_parts by blast
  show ?thesis
  proof (cases "ss_depth ?e = 0")
    case True
    have "?run (At (pop_part d) t) (Trap t1)" using runs_trans[OF t1] fallback_run[of C "ret_prog d" t1] True by simp
    then show ?thesis using True k by (auto simp: shadow_pop_def Let_def)
  next
    case False
    have kept1: "m_reg t1 r = m_reg s r" if "r \<in> {RBP, R13, R14, R15}" for r
      using that kept[OF that] work by (auto simp: same_work_def)
    have r: "m_reg t1 RSP = sp" "m_reg t1 R11 = slot_pos (d_shadow_stack_addr d) k" "m_os t1 = m_os t"
      using regs r1(1) work by (simp_all add: same_work_def)
    from return_run[OF d rt[folded m1] wf slot(1) False r(1,2) r1(2) kept1 s frame[folded m1] stack]
    show ?thesis
      using runs_trans[OF t1] False k
      unfolding slot(2) r(3) m1 by (auto simp: shadow_pop_def Let_def popped_def)
  qed
qed

lemma ret_run:
  assumes d: "placed d base" and rt: "runtime_at d c b ss (m_mem s)" and wf: "wf_shadow ss"
    and stack: "range64 (m_reg s RSP - 112) 112 \<inter> range64 base 633008 = {}"
  shows "case shadow_pop (tid_of (m_os s)) ss of
      None \<Rightarrow> \<exists>t. runs C (ret_prog d) (At (ret_prog d) s) (Trap t)
    | Some (ret, start, ss') \<Rightarrow>
        \<exists>m os. runs C (ret_prog d) (At (ret_prog d) s)
            (Left ret (s\<lparr>m_reg := (m_reg s)(R11 := ret), m_mem := m, m_os := os\<rparr>)) \<and>
          runtime_at d c (ring_push b (return_event d s (tid_of (m_os s)) start (nanoseconds (clock (m_os s))))) ss' m \<and>
          changed (range64 (m_reg s RSP - 112) 112 \<union> stub_data d) (m_mem s) m"
proof -
  let ?run = "runs C (ret_prog d)" and ?S = "d_shadow_stack_addr d" and ?tid = "tid_of (m_os s)"
  define sp where "sp = m_reg s RSP - 96"
  have sp: "m_reg s RSP = sp + 96" "m_reg s RSP - 112 = sp - 16" by (simp_all add: sp_def)
  let ?A = "range64 (sp - 16) 112 \<union> stub_data d"
  have clear: "range64 base 633008 \<inter> range64 sp 96 = {}" using ret_ranges(1)[of sp] stack unfolding sp(2) by blast
  obtain t where t: "?run (At (ret_prog d) s) (At (seek_part d) t)" "ret_frame s sp (m_mem t)"
    "changed (range64 sp 96) (m_mem s) (m_mem t)" "m_os t = m_os s" "m_reg t RSP = sp" "m_reg t R10 = ?S"
    "m_reg t R8 = ucast ?tid" "m_reg t RBX = of_nat 0" "\<forall>r \<in> {RBP, R13, R14, R15}. m_reg t r = m_reg s r"
    using ret_start_run[of d s] unfolding sp_def by blast
  have rt1: "runtime_at d c b ss (m_mem t)" using rt d t(3) clear by (rule runtime_at_changed)
  have ch: "changed ?A (m_mem s) (m_mem t)" using ret_ranges(1)[of sp] by (intro changed_mono[OF t(3)]) blast
  have "shadow_at (m_mem t) ?S ss" using rt1 by (simp add: runtime_at_def)
  from seek_run[of t ss ?tid 0 C d, unfolded drop_0 t(6)] this t(7,8)
  obtain t1 where work: "same_work t t1" and m1: "m_mem t1 = m_mem t" and t1:
    "case first_slot (\<lambda>e. ss_tid e = ?tid) 0 ss of
       None \<Rightarrow> ?run (At (seek_part d) t) (Trap t1)
     | Some k \<Rightarrow> ?run (At (seek_part d) t) (At (pop_part d) t1) \<and> m_reg t1 R11 = slot_pos ?S k"
    by blast
  show ?thesis
  proof (cases "first_slot (\<lambda>e. ss_tid e = ?tid) 0 ss")
    case None
    have "?run (At (ret_prog d) s) (Trap t1)" using runs_trans[OF t(1)] t1 None by simp
    then show ?thesis using None by (auto simp: shadow_pop_def)
  next
    case (Some k)
    have found: "?run (At (seek_part d) t) (At (pop_part d) t1)" "m_reg t1 R11 = slot_pos ?S k" using t1 Some by simp_all
    have kept: "m_reg t1 r = m_reg s r" if "r \<in> {RBP, R13, R14, R15}" for r
      using that t(9) work by (auto simp: same_work_def)
    have r1: "m_reg t1 RSP = sp" "m_os t1 = m_os s" using t(4,5) work by (simp_all add: same_work_def)
    from pop_part_run[OF d rt1[folded m1] wf Some r1(1) found(2) kept sp(1) t(2)[folded m1] stack[unfolded sp(2)]]
    show ?thesis
      using runs_trans[OF t(1) runs_trans[OF found(1)]] changed_trans[OF ch]
      unfolding r1(2) m1 sp(2) by (fastforce split: option.splits)
  qed
qed

end

end
