(* ===== verification/Stub_Runs.thy ===== *)
theory Stub_Runs
  imports Frames Ret_Run Probe_Example
begin

text \<open>
  The stubs as the program installs them: the memory of the target behind
  \<open>lp_install_remote_runtime\<close> is one that the runs of the two stubs start from, a call of the probed
  function appends its events and returns to its caller, and the event reader prints them.
\<close>

section \<open>A system that keeps the laws\<close>

text \<open>The operating system's state is a thread id and the time in seconds and nanoseconds.\<close>

definition ref_syscall :: "(u32 \<times> u64 \<times> u64) machine \<Rightarrow> (u32 \<times> u64 \<times> u64) machine" where
  "ref_syscall s =
     (let (tid, sec, nsec) = m_os s; out = (\<lambda>v. (m_reg s)(RAX := v, RCX := 0, R11 := m_flags s)) in
      if m_reg s RAX = 186 then s\<lparr>m_reg := out (ucast tid)\<rparr>
      else if m_reg s RAX = 228 \<and> m_reg s RDI = 0 then
        s\<lparr>m_reg := out 0, m_mem := mem_write (m_mem s) (m_reg s RSI) (le64 sec @ le64 nsec),
          m_os := (tid, sec, nsec + 1)\<rparr>
      else s\<lparr>m_reg := out (- 38)\<rparr>)"

definition ref_cpu :: "(u32 \<times> u64 \<times> u64) cpu" where
  "ref_cpu = \<lparr>c_syscall = ref_syscall, c_flags = (\<lambda>_. m_flags)\<rparr>"

interpretation linux: stub_kernel ref_cpu fst snd
proof
  fix s :: "(u32 \<times> u64 \<times> u64) machine"
  obtain tid sec nsec where os: "m_os s = (tid, sec, nsec)" by (metis prod_cases3)
  show "\<exists>c r. c_syscall ref_cpu s = s\<lparr>m_reg := (m_reg s)(RAX := ucast (fst (m_os s)), RCX := c, R11 := r)\<rparr>"
    if "m_reg s RAX = 186"
    using that os by (intro exI[of _ 0] exI[of _ "m_flags s"]) (simp add: ref_cpu_def ref_syscall_def Let_def)
  show "\<exists>c r os. fst os = fst (m_os s) \<and> c_syscall ref_cpu s = s\<lparr>m_reg := (m_reg s)(RAX := 0, RCX := c, R11 := r),
      m_mem := mem_write (m_mem s) (m_reg s RSI) (le64 (fst (snd (m_os s))) @ le64 (snd (snd (m_os s)))), m_os := os\<rparr>"
    if "m_reg s RAX = 228" "m_reg s RDI = 0"
    using that os
    by (intro exI[of _ 0] exI[of _ "m_flags s"] exI[of _ "(tid, sec, nsec + 1)"])
       (simp add: ref_cpu_def ref_syscall_def Let_def)
qed

section \<open>The generated stubs\<close>

lemma entry_stub_fits:
  "lp_x86_64_build_entry_stub d LP_REMOTE_STUB_SIZE = Inr (entry_code d)"
  by (simp add: entry_stub_bytes length_entry_code LP_REMOTE_STUB_SIZE_def)

lemma ret_stub_fits:
  "d_shadow_stack_addr d \<noteq> 0 \<Longrightarrow> lp_x86_64_build_ret_stub d LP_REMOTE_STUB_SIZE = Inr (ret_code d)"
  by (simp add: ret_stub_bytes length_ret_code LP_REMOTE_STUB_SIZE_def)

section \<open>The installed runtime\<close>

lemma runtime_at_init:
  assumes "bytes_at m (d_config_addr d) (enc_config (lp_runtime_config_init d))"
    and "bytes_at m (d_event_buffer_addr d) (enc_event_buffer lp_event_buffer_init)"
    and "bytes_at m (d_shadow_stack_addr d) (enc_shadow_stack lp_shadow_stack_init)"
  shows "runtime_at d (lp_runtime_config_init d) (ring []) lp_shadow_stack_init m"
proof -
  have "wf_event_buffer (ring [])" by (rule wf_ring) simp
  moreover have "ring [] = lp_event_buffer_init" by (simp add: ring_def)
  ultimately show ?thesis
    using assms ring_fields[of "[]"] shadow_ok_init
    by (simp add: runtime_at_def buffer_at_def shadow_at_def lp_runtime_config_init_def shadow_ok_def wf_shadow_def)
qed

lemma frames_init: "frames tid lp_shadow_stack_init = []"
proof -
  have "slot_frames (lp_shadow_stack_init ! i) = []" if "first_slot P 0 lp_shadow_stack_init = Some i" for P i
    using that by (simp add: first_slot_iff lp_shadow_stack_init_def slot_frames_def)
  then show ?thesis by (simp add: frames_def split: option.split)
qed

lemma install_ready:
  assumes "kernel_exec K mem regs dirty" and "lp_install_remote_runtime K p i s = (Inr u, s')"
    and "i < length (g_probe_table s)"
  defines "d \<equiv> g_probe_table s' ! i" and "m \<equiv> mem (m_world s') p"
  shows "placed d (d_runtime_base_addr d) \<and> runtime_at d (lp_runtime_config_init d) (ring []) lp_shadow_stack_init m \<and>
    d_shadow_stack_addr d \<noteq> 0 \<and> bytes_at m (d_entry_stub_addr d) (entry_code d) \<and> bytes_at m (d_ret_stub_addr d) (ret_code d)"
proof -
  have "range64 (r_rsp (regs (m_world s) p) - 8) 8 \<subseteq> UNIV" by simp
  from kernel_exec.install_ok[OF assms(1-3) this] obtain base l tr es rs where
    l: "lp_remote_runtime_layout_init (Some any_layout) base = Inr l" and
    d: "d = lp_probe_desc_set_runtime_layout (g_probe_table s ! i) l" and
    stubs: "built_stubs d tr es rs" and
    image: "\<forall>v \<in> set (runtime_image d tr es rs). mem_read m (fst v) (length (snd v)) = snd v"
    unfolding d_def m_def by auto
  have base: "d_runtime_base_addr d = base"
    using l by (auto simp: d layout_init_eq lp_probe_desc_set_runtime_layout_def)
  have "placed d base" using l by (simp add: placed_def d lp_probe_desc_set_runtime_layout_def)
  moreover have shadow: "d_shadow_stack_addr d \<noteq> 0"
    using stubs ret_stub_einval[of d LP_REMOTE_STUB_SIZE] by (auto simp: built_stubs_def)
  moreover have code: "es = entry_code d" "rs = ret_code d"
    using stubs entry_stub_fits[of d] ret_stub_fits[OF shadow] by (simp_all add: built_stubs_def)
  moreover have "runtime_at d (lp_runtime_config_init d) (ring []) lp_shadow_stack_init m"
    using image by (intro runtime_at_init) (simp_all add: runtime_image_def bytes_at_def)
  ultimately show ?thesis using image base by (simp add: runtime_image_def bytes_at_def)
qed

section \<open>Runs that end\<close>

lemma runs_ends:
  assumes "runs C p c c'" and "\<And>n. (step C p ^^ n) c' = c'"
  shows "\<exists>n. \<forall>k \<ge> n. (step C p ^^ k) c = c'"
proof -
  obtain n where n: "(step C p ^^ n) c = c'" using assms(1) by (auto simp: runs_def)
  have "(step C p ^^ k) c = c'" if "n \<le> k" for k
  proof -
    have "(step C p ^^ ((k - n) + n)) c = (step C p ^^ (k - n)) ((step C p ^^ n) c)" by (simp add: funpow_add)
    then show ?thesis using that n assms(2) by simp
  qed
  then show ?thesis by blast
qed

end
