(* ===== verification/Traced_Calls.thy ===== *)
theory Traced_Calls
  imports Stub_Runs
begin

text \<open>
  What a probe does to the program that it observes, and what the user sees of it: the properties of
  the two stubs on any processor and any system that keep the laws of \<open>stub_kernel\<close>, from the
  installation of the runtime to the listing of the events.
\<close>

section \<open>Properties\<close>

text \<open>
  C15: the memory of the target after a successful \<open>lp_install_remote_runtime\<close> is one that the stubs
  can run from: at the addresses of the descriptor are the two assembled stubs, a configuration, an
  empty ring, and a shadow stack on which no thread has a call.
\<close>

theorem installed_runtime_ready:
  assumes "kernel_exec K mem regs dirty" and "lp_install_remote_runtime K p i s = (Inr u, s')"
    and "i < length (g_probe_table s)"
  shows "let d = g_probe_table s' ! i; m = mem (m_world s') p in
    (\<exists>es. assemble (entry_prog d) = Some es \<and> bytes_at m (d_entry_stub_addr d) es) \<and>
    (\<exists>rs. assemble (ret_prog d) = Some rs \<and> bytes_at m (d_ret_stub_addr d) rs) \<and>
    runtime_at d (lp_runtime_config_init d) (ring []) lp_shadow_stack_init m \<and>
    placed d (d_runtime_base_addr d) \<and> shadow_ok lp_shadow_stack_init \<and>
    (\<forall>tid. frames tid lp_shadow_stack_init = [])"
  using install_ready[OF assms] by (simp add: Let_def assemble_entry assemble_ret shadow_ok_init frames_init)

text \<open>
  C3: a run of the entry stub, from a memory that holds the probe and with a stack apart from it,
  goes to the trampoline with every register and flag as the caller left it. While the probe is
  enabled, the ring gets exactly one event, with the arguments of the call, the thread and the time,
  and with a return probe the shadow stack takes over the return address unless it is full; a probe that
  is switched off leaves no trace. Nothing else in memory changes but 144 bytes below the return address.
\<close>

theorem entry_stub_records_call:
  assumes "stub_kernel C tid_of clock" and "placed d base" and "runtime_at d c b ss (m_mem s)"
    and "d_has_retprobe d = 0 \<or> d_shadow_stack_addr d \<noteq> 0"
    and "range64 (m_reg s RSP - 144) 152 \<inter> range64 base 633008 = {}"
    and "entry_effect d c s (tid_of (m_os s)) (nanoseconds (clock (m_os s))) b ss = (b', ss', took)"
  shows "\<exists>bs m os. lp_x86_64_build_entry_stub d LP_REMOTE_STUB_SIZE = Inr bs \<and> assemble (entry_prog d) = Some bs \<and>
    runs C (entry_prog d) (At (entry_prog d) s) (Left (d_trampoline_addr d) (s\<lparr>m_mem := m, m_os := os\<rparr>)) \<and>
    runtime_at d c b' ss' m \<and>
    load64 m (m_reg s RSP) = (if took then d_ret_stub_addr d else load64 (m_mem s) (m_reg s RSP)) \<and>
    changed (range64 (m_reg s RSP - 144) 152 \<union> stub_data d) (m_mem s) m"
  using stub_kernel.entry_run[OF assms(1,2) _ assms(3,5,6)] assms(4) entry_stub_fits assemble_entry by blast

text \<open>
  C4: a run of the return stub takes the innermost pending call of its thread off the shadow stack
  and returns to that call's return address, with every register but \<open>r11\<close> and the flags as the
  function left them; the ring gets exactly one event, with the return value, the thread, the time and
  the time since the call. Without a pending call it traps and never returns to a made-up address.
\<close>

theorem ret_stub_returns:
  assumes "stub_kernel C tid_of clock" and "placed d base" and "runtime_at d c b ss (m_mem s)"
    and "wf_shadow ss" and "d_shadow_stack_addr d \<noteq> 0"
    and "range64 (m_reg s RSP - 112) 112 \<inter> range64 base 633008 = {}"
  shows "\<exists>bs. lp_x86_64_build_ret_stub d LP_REMOTE_STUB_SIZE = Inr bs \<and> assemble (ret_prog d) = Some bs \<and>
    (case shadow_pop (tid_of (m_os s)) ss of
       None \<Rightarrow> \<exists>t. runs C (ret_prog d) (At (ret_prog d) s) (Trap t)
     | Some (ret, start, ss') \<Rightarrow>
         \<exists>m os. runs C (ret_prog d) (At (ret_prog d) s)
             (Left ret (s\<lparr>m_reg := (m_reg s)(R11 := ret), m_mem := m, m_os := os\<rparr>)) \<and>
           runtime_at d c (ring_push b (return_event d s (tid_of (m_os s)) start (nanoseconds (clock (m_os s))))) ss' m \<and>
           changed (range64 (m_reg s RSP - 112) 112 \<union> stub_data d) (m_mem s) m)"
  using stub_kernel.ret_run[OF assms(1-4,6)] by (simp add: ret_stub_fits[OF assms(5)] assemble_ret)

text \<open>
  C5: a call of a probed function returns to its caller. The return address that the entry stub
  replaced by the address of the return stub is where the return stub goes, whatever the function and
  calls of other probed functions did in between, as long as the thread's pending calls are again those
  that the entry stub left; the duration of the return event is the time between the two stubs, and the
  pending calls of the thread are then those before the call.
\<close>

theorem call_returns_to_caller:
  fixes s t :: "'o machine"
  assumes "start = nanoseconds (clock (m_os s))"
    and "stub_kernel C tid_of clock" and "placed d base" and "d_has_retprobe d \<noteq> 0" and "d_shadow_stack_addr d \<noteq> 0"
    and "runtime_at d c b ss (m_mem s)" and "shadow_ok ss" and "tid_of (m_os s) = tid" and "tid \<noteq> 0"
    and "range64 (m_reg s RSP - 144) 152 \<inter> range64 base 633008 = {}"
    and "entry_effect d c s tid start b ss = (b', ss', True)"
    and "runtime_at d c2 b2 ss2 (m_mem t)" and "shadow_ok ss2" and "tid_of (m_os t) = tid"
    and "frames tid ss2 = frames tid ss'"
    and "range64 (m_reg t RSP - 112) 112 \<inter> range64 base 633008 = {}"
  shows "let ret = load64 (m_mem s) (m_reg s RSP); now = nanoseconds (clock (m_os t)) in
    \<exists>m os m' os' ss3. runs C (entry_prog d) (At (entry_prog d) s) (Left (d_trampoline_addr d) (s\<lparr>m_mem := m, m_os := os\<rparr>)) \<and>
      load64 m (m_reg s RSP) = d_ret_stub_addr d \<and>
      runs C (ret_prog d) (At (ret_prog d) t) (Left ret (t\<lparr>m_reg := (m_reg t)(R11 := ret), m_mem := m', m_os := os'\<rparr>)) \<and>
      runtime_at d c2 (ring_push b2 (return_event d t tid start now)) ss3 m' \<and>
      shadow_ok ss3 \<and> frames tid ss3 = frames tid ss"
proof -
  let ?ret = "load64 (m_mem s) (m_reg s RSP)"
  have push: "shadow_push tid ?ret start ss = (ss', True)"
    using assms(4,11) by (auto simp: entry_effect_def split: if_splits)
  have frames2: "frames tid ss2 = (?ret, start) # frames tid ss"
    using push_frames(2)[OF assms(7,9) push] assms(15) by simp
  obtain ret time ss3 where pop: "shadow_pop tid ss2 = Some (ret, time, ss3)"
    using pop_frames[OF assms(13,9)] frames2 by (cases "shadow_pop tid ss2") auto
  then have popped: "ret = ?ret" "time = start" "frames tid ss3 = frames tid ss" "shadow_ok ss3"
    using pop_frames[OF assms(13,9)] frames2 by auto
  obtain m os where entry: "runs C (entry_prog d) (At (entry_prog d) s) (Left (d_trampoline_addr d) (s\<lparr>m_mem := m, m_os := os\<rparr>))"
    "load64 m (m_reg s RSP) = d_ret_stub_addr d"
    using stub_kernel.entry_run[OF assms(2,3) _ assms(6,10), of b' ss' True] assms(5,8,11) by (auto simp: assms(1))
  have "wf_shadow ss2" using assms(13) by (simp add: shadow_ok_def)
  from stub_kernel.ret_run[OF assms(2,3,12) this assms(16)] obtain m' os' where
    "runs C (ret_prog d) (At (ret_prog d) t) (Left ?ret (t\<lparr>m_reg := (m_reg t)(R11 := ?ret), m_mem := m', m_os := os'\<rparr>))"
    "runtime_at d c2 (ring_push b2 (return_event d t tid start (nanoseconds (clock (m_os t))))) ss3 m'"
    by (auto simp: assms(14) pop popped(1,2))
  then show ?thesis using entry popped(3,4) unfolding Let_def by blast
qed

text \<open>
  C10: neither stub can hang, whatever the shadow stack holds: after some number of steps the entry
  stub has left for the trampoline, and the return stub has left or trapped, and it stays so.
\<close>

theorem stubs_always_end:
  assumes "stub_kernel C tid_of clock" and "placed d base" and "runtime_at d c b ss (m_mem s)" and "wf_shadow ss"
    and "d_shadow_stack_addr d \<noteq> 0"
    and "range64 (m_reg s RSP - 144) 152 \<inter> range64 base 633008 = {}"
  shows "(\<exists>n t. \<forall>k \<ge> n. (step C (entry_prog d) ^^ k) (At (entry_prog d) s) = Left (d_trampoline_addr d) t) \<and>
    (\<exists>n e. (\<forall>k \<ge> n. (step C (ret_prog d) ^^ k) (At (ret_prog d) s) = e) \<and> (\<forall>q t. e \<noteq> At q t))"
proof -
  obtain b' ss' took where effect: "entry_effect d c s (tid_of (m_os s)) (nanoseconds (clock (m_os s))) b ss = (b', ss', took)"
    by (metis prod_cases3)
  obtain t where "runs C (entry_prog d) (At (entry_prog d) s) (Left (d_trampoline_addr d) t)"
    using stub_kernel.entry_run[OF assms(1,2) _ assms(3,6) effect] assms(5) by blast
  from runs_ends[OF this step_final(1)]
  have entry: "\<exists>n t. \<forall>k \<ge> n. (step C (entry_prog d) ^^ k) (At (entry_prog d) s) = Left (d_trampoline_addr d) t" by blast
  have "range64 (m_reg s RSP - 112) 112 \<subseteq> range64 (m_reg s RSP - 144) 152"
    using range_inside[of 32 112 152 "m_reg s RSP - 144"] by simp
  then have "range64 (m_reg s RSP - 112) 112 \<inter> range64 base 633008 = {}" using assms(6) by blast
  from stub_kernel.ret_run[OF assms(1-4) this]
  have "(\<exists>t. runs C (ret_prog d) (At (ret_prog d) s) (Trap t)) \<or> (\<exists>a t. runs C (ret_prog d) (At (ret_prog d) s) (Left a t))"
    by (auto split: option.splits)
  then have "\<exists>n e. (\<forall>k \<ge> n. (step C (ret_prog d) ^^ k) (At (ret_prog d) s) = e) \<and> (\<forall>q t. e \<noteq> At q t)"
  proof (elim disjE exE)
    fix t assume "runs C (ret_prog d) (At (ret_prog d) s) (Trap t)"
    from runs_ends[OF this step_final(2)] show ?thesis by (metis config.distinct(3))
  next
    fix a t assume "runs C (ret_prog d) (At (ret_prog d) s) (Left a t)"
    from runs_ends[OF this step_final(1)] show ?thesis by (metis config.distinct(1))
  qed
  with entry show ?thesis by (rule conjI)
qed

text \<open>
  C9: what the stubs record is what the user reads. When the ring stands for a history of events
  and a thread calls the probed function, then \<open>lightprobe events\<close>, reading the memory that the stub
  left, lists this call's event as the newest, behind the last events of the history.
\<close>

theorem traced_call_is_printed:
  assumes "stub_kernel C tid_of clock" and "placed d base" and "runtime_at d c (ring history) ss (m_mem s)"
    and "cfg_enabled c \<noteq> 0" and "d_has_retprobe d = 0 \<or> d_shadow_stack_addr d \<noteq> 0"
    and "range64 (m_reg s RSP - 144) 152 \<inter> range64 base 633008 = {}"
    and "\<forall>e \<in> set history. wf_event e" and "Suc (length history) < 2 ^ 64"
    and "runs C (entry_prog d) (At (entry_prog d) s) (Left a s')"
    and "kernel_memory K mem" and "mem (m_world (c_manager x)) (d_pid d) = m_mem s'"
    and "0 < unat (ea_limit args)" and "unat (ea_limit args) \<le> LP_EVENT_BUFFER_CAPACITY"
    and "read_and_print_events K d args x = (Inr u, x')"
  shows "let e = entry_event d s (tid_of (m_os s)) (nanoseconds (clock (m_os s)));
      n = Suc (length history); k = unat (ea_limit args)
    in c_out x' = c_out x @ events_heading d args (of_nat n) (of_nat (min n k)) @
         concat (map (print_event args) (drop (n - k) history)) @ print_event args e"
proof -
  let ?e = "entry_event d s (tid_of (m_os s)) (nanoseconds (clock (m_os s)))"
  obtain b' ss' took where effect: "entry_effect d c s (tid_of (m_os s)) (nanoseconds (clock (m_os s))) (ring history) ss = (b', ss', took)"
    by (metis prod_cases3)
  then have b': "b' = ring (history @ [?e])" using assms(4) by (simp add: entry_effect_def ring_snoc)
  obtain m os where run: "runs C (entry_prog d) (At (entry_prog d) s) (Left (d_trampoline_addr d) (s\<lparr>m_mem := m, m_os := os\<rparr>))"
    and rt: "runtime_at d c b' ss' m"
    using stub_kernel.entry_run[OF assms(1,2) _ assms(3,6) effect] assms(5) by blast
  have "m_mem s' = m" using runs_unique[OF assms(9) run] by simp
  moreover have "bytes_at m (d_event_buffer_addr d) (enc_event_buffer (ring (history @ [?e])))"
    using rt by (simp add: runtime_at_def buffer_at_def b')
  moreover have wf: "\<forall>e \<in> set (history @ [?e]). wf_event e"
    using assms(7) by (auto simp: wf_event_def entry_event_def lp_x86_64_collect_args_def)
  then have "length (enc_event_buffer (ring (history @ [?e]))) = sizeof_lp_event_buffer"
    using length_enc_event_buffer[OF wf_ring] by blast
  ultimately have image: "mem_read (mem (m_world (c_manager x)) (d_pid d)) (d_event_buffer_addr d) sizeof_lp_event_buffer =
      enc_event_buffer (ring (history @ [?e]))"
    using assms(11) by (simp add: bytes_at_def)
  have "length (history @ [?e]) < 2 ^ 64" using assms(8) by simp
  from read_ring[OF assms(10) wf this image assms(13,14)] show ?thesis
    using assms(12) by (simp add: Let_def)
qed

text \<open>
  C16: the jump at the end of the trampoline does not keep the red zone of the probed function. For
  a leaf function that begins, as compilers emit it without optimisation, by storing its first
  argument in the word below its stack pointer (\<^verbatim>\<open>push rbp; mov rbp, rsp; mov [rbp-8], rdi\<close>), the
  trampoline arrives behind these instructions with the resume address in the place of the argument.
\<close>

definition leaf_prologue :: "instr list" where
  "leaf_prologue = [PUSH RBP, MOV_RR True RBP RSP, MOV_ST True (at8 RBP 0xF8) RDI]"

theorem trampoline_overwrites_red_zone:
  assumes "d_original_code d = code leaf_prologue @ rest" and "d_original_len d = 8"
  shows "lp_x86_64_build_trampoline d resume LP_TRAMPOLINE_SIZE = Inr (code (leaf_prologue @ abs_jmp resume)) \<and>
    (\<exists>t. runs C p (At (map I (leaf_prologue @ abs_jmp resume) @ q) s) (Left resume t) \<and>
      m_reg t RBP = m_reg s RSP - 8 \<and> m_reg t RSP = m_reg s RSP - 8 \<and> m_reg t RDI = m_reg s RDI \<and>
      load64 (m_mem t) (m_reg t RBP - 8) = resume)"
proof -
  have "length (code leaf_prologue) = 8" by (simp add: leaf_prologue_def at8_def encode_simps)
  then have build: "lp_x86_64_build_trampoline d resume LP_TRAMPOLINE_SIZE = Inr (code (leaf_prologue @ abs_jmp resume))"
    using assms by (simp add: lp_x86_64_build_trampoline_def cw_new_def emit_abs_jmp emit_at lp_sizes Let_def code_append)
  let ?u = "execs C leaf_prologue s"
  have u: "m_reg ?u RSP = m_reg s RSP - 8" "m_reg ?u RBP = m_reg s RSP - 8" "m_reg ?u RDI = m_reg s RDI"
    by (simp_all add: leaf_prologue_def exec_def push_def set_reg_def set_mem_def Let_def)
  have "runs C p (At (map I leaf_prologue @ map I (abs_jmp resume) @ q) s) (At (map I (abs_jmp resume) @ q) ?u)"
    by (rule runs_code) (simp add: leaf_prologue_def)
  moreover obtain m where "runs C p (At (map I (abs_jmp resume) @ q) ?u) (Left resume (?u\<lparr>m_mem := m\<rparr>))"
    "load64 m (m_reg ?u RSP - 8) = resume"
    using abs_jmp_run[of C p resume q ?u] by blast
  ultimately have "runs C p (At (map I (leaf_prologue @ abs_jmp resume) @ q) s) (Left resume (?u\<lparr>m_mem := m\<rparr>))"
    by (auto intro: runs_trans)
  then show ?thesis
    using build u \<open>load64 m (m_reg ?u RSP - 8) = resume\<close> by (intro conjI exI[of _ "?u\<lparr>m_mem := m\<rparr>"]) simp_all
qed

section \<open>A traced call\<close>

definition installed_manager :: "ref_world manager" where
  "installed_manager = snd (lp_install_remote_runtime ref_kernel 42 0 installing)"

definition installed_memory :: memory where
  "installed_memory = rw_mem (m_world installed_manager)"

text \<open>Thread 43 at the entry of the function, and at the return stub.\<close>

definition example_thread :: "(u32 \<times> u64 \<times> u64) machine" where
  "example_thread =
     \<lparr>m_reg = (\<lambda>_. 5)(RSP := 0x7000, RDI := 11), m_flags = 0x246, m_mem = installed_memory, m_os = (43, 5, 7)\<rparr>"

definition example_call :: probe_event where
  "example_call = entry_event example_attached example_thread 43 5000000007"

lemma installing_run:
  "lp_install_remote_runtime ref_kernel 42 0 installing = (Inr (), installed_manager)"
  "g_probe_table installed_manager ! 0 = example_attached" "0 < length (g_probe_table installing)"
proof -
  have "target_ready (held example_start)" using target_ready_threads[OF example_start(1)] by simp
  then obtain s where run: "lp_install_remote_runtime ref_kernel 42 0 installing = (Inr (), s)"
    and d: "g_probe_table s ! 0 = example_attached"
    using ref_install[of "held example_start" installing] example_start
    by (simp add: installing_def held_def LP_MAX_PROBES_def)
  then show "lp_install_remote_runtime ref_kernel 42 0 installing = (Inr (), installed_manager)"
    "g_probe_table installed_manager ! 0 = example_attached"
    by (simp_all add: installed_manager_def)
  show "0 < length (g_probe_table installing)" by (simp add: installing_def LP_MAX_PROBES_def)
qed

lemma installed_runtime_ready_witness:
  "\<exists>es. assemble (entry_prog example_attached) = Some es \<and> bytes_at installed_memory 0x100988B0 es"
  using installed_runtime_ready[OF ref.kernel_exec_axioms installing_run(1,3)]
  by (simp add: Let_def installing_run(2) example_attached_fields installed_memory_def)

lemma example_ready:
  "placed example_attached 0x10000000"
  "runtime_at example_attached (lp_runtime_config_init example_attached) (ring []) lp_shadow_stack_init (m_mem example_thread)"
  using install_ready[OF ref.kernel_exec_axioms installing_run(1,3)]
  by (simp_all add: installing_run(2) example_attached_fields example_thread_def installed_memory_def)

lemma example_stack:
  "range64 (m_reg example_thread RSP - 144) 152 \<inter> range64 0x10000000 633008 = {}"
  by (rule ranges_apart) (simp_all add: example_thread_def)

lemma example_effect:
  "\<exists>ss'. shadow_push 43 ret time lp_shadow_stack_init = (ss', True) \<and> shadow_ok ss' \<and>
     frames 43 ss' = [(ret, time)]"
proof -
  have "\<exists>ss'. shadow_push 43 ret time lp_shadow_stack_init = (ss', True)"
    by (simp add: shadow_push_def lp_shadow_stack_init_def LP_SHADOW_STACK_THREADS_def numeral_eq_Suc
        claimable_def Let_def LP_SHADOW_STACK_DEPTH_def)
  then show ?thesis using push_frames[OF shadow_ok_init, of 43] frames_init by fastforce
qed

lemma attached_enabled: "d_enabled example_attached \<noteq> 0"
  by (simp add: attached_defs)

lemma example_entry_effect:
  obtains ss' where "entry_effect example_attached (lp_runtime_config_init example_attached) example_thread 43 5000000007
      (ring []) lp_shadow_stack_init = (ring [example_call], ss', True)"
    and "shadow_ok ss'" and "frames 43 ss' = [(load64 installed_memory 0x7000, 5000000007)]"
proof -
  obtain ss' where "shadow_push 43 (load64 installed_memory 0x7000) 5000000007 lp_shadow_stack_init = (ss', True)"
    "shadow_ok ss'" "frames 43 ss' = [(load64 installed_memory 0x7000, 5000000007)]"
    using example_effect by blast
  moreover have "ring [example_call] = ring_push (ring []) example_call" by (simp add: ring_def)
  moreover have "cfg_enabled (lp_runtime_config_init example_attached) \<noteq> 0"
    by (simp add: lp_runtime_config_init_def attached_defs)
  ultimately show thesis
    using that by (simp add: entry_effect_def example_attached_fields example_thread_def example_call_def)
qed

lemma example_os: "fst (m_os example_thread) = 43" "nanoseconds (snd (m_os example_thread)) = 5000000007"
  by (simp_all add: example_thread_def nanoseconds_def)

lemma entry_stub_records_call_witness:
  "\<exists>ss' m os. runs ref_cpu (entry_prog example_attached) (At (entry_prog example_attached) example_thread)
      (Left 0x10098830 (example_thread\<lparr>m_mem := m, m_os := os\<rparr>)) \<and>
    runtime_at example_attached (lp_runtime_config_init example_attached) (ring [example_call]) ss' m \<and>
    load64 m 0x7000 = 0x100998B0 \<and> frames 43 ss' = [(load64 installed_memory 0x7000, 5000000007)]"
proof -
  obtain ss' where ss: "entry_effect example_attached (lp_runtime_config_init example_attached) example_thread 43 5000000007
      (ring []) lp_shadow_stack_init = (ring [example_call], ss', True)"
    "frames 43 ss' = [(load64 installed_memory 0x7000, 5000000007)]"
    using example_entry_effect by blast
  have sp: "m_reg example_thread RSP = 0x7000" by (simp add: example_thread_def)
  have "d_has_retprobe example_attached = 0 \<or> d_shadow_stack_addr example_attached \<noteq> 0"
    by (simp add: example_attached_fields)
  from entry_stub_records_call[OF linux.stub_kernel_axioms example_ready this example_stack,
      unfolded example_os, OF ss(1), unfolded sp] ss(2)
  show ?thesis unfolding example_attached_fields by metis
qed

lemma ret_stub_returns_witness:
  "\<exists>t. runs ref_cpu (ret_prog example_attached) (At (ret_prog example_attached) example_thread) (Trap t)"
proof -
  have "wf_shadow lp_shadow_stack_init" using shadow_ok_init by (simp add: shadow_ok_def)
  moreover have "d_shadow_stack_addr example_attached \<noteq> 0" by (simp add: example_attached_fields)
  moreover have "range64 (m_reg example_thread RSP - 112) 112 \<inter> range64 0x10000000 633008 = {}"
    by (rule ranges_apart) (simp_all add: example_thread_def)
  ultimately have "case shadow_pop 43 lp_shadow_stack_init of
      None \<Rightarrow> \<exists>t. runs ref_cpu (ret_prog example_attached) (At (ret_prog example_attached) example_thread) (Trap t)
    | Some _ \<Rightarrow> True"
    using ret_stub_returns[OF linux.stub_kernel_axioms example_ready, unfolded example_os] by (auto split: option.splits)
  moreover have "shadow_pop 43 lp_shadow_stack_init = None"
    using pop_frames[OF shadow_ok_init, of 43] by (simp add: frames_init split: option.splits)
  ultimately show ?thesis by simp
qed

text \<open>The thread when the function has returned 42, a second later.\<close>

definition returning_thread :: "memory \<Rightarrow> (u32 \<times> u64 \<times> u64) machine" where
  "returning_thread m =
     \<lparr>m_reg = (\<lambda>_. 5)(RSP := 0x7008, RAX := 42), m_flags = 0x202, m_mem = m, m_os = (43, 6, 7)\<rparr>"

lemma call_returns_to_caller_witness:
  "\<exists>m os m' os' b ss. runs ref_cpu (entry_prog example_attached) (At (entry_prog example_attached) example_thread)
      (Left 0x10098830 (example_thread\<lparr>m_mem := m, m_os := os\<rparr>)) \<and> load64 m 0x7000 = 0x100998B0 \<and>
    runs ref_cpu (ret_prog example_attached) (At (ret_prog example_attached) (returning_thread m))
      (Left (load64 installed_memory 0x7000) ((returning_thread m)\<lparr>
        m_reg := (m_reg (returning_thread m))(R11 := load64 installed_memory 0x7000), m_mem := m', m_os := os'\<rparr>)) \<and>
    runtime_at example_attached (lp_runtime_config_init example_attached)
      (ring_push b (return_event example_attached (returning_thread m) 43 5000000007 6000000007)) ss m' \<and> frames 43 ss = []"
proof -
  obtain ss' where ss: "entry_effect example_attached (lp_runtime_config_init example_attached) example_thread 43 5000000007
      (ring []) lp_shadow_stack_init = (ring [example_call], ss', True)"
    "shadow_ok ss'" "frames 43 ss' = [(load64 installed_memory 0x7000, 5000000007)]"
    using example_entry_effect by blast
  have probe: "d_has_retprobe example_attached \<noteq> 0" "d_shadow_stack_addr example_attached \<noteq> 0"
    by (simp_all add: example_attached_fields)
  obtain m where m: "runtime_at example_attached (lp_runtime_config_init example_attached) (ring [example_call]) ss' m"
    "\<exists>os. runs ref_cpu (entry_prog example_attached) (At (entry_prog example_attached) example_thread)
      (Left 0x10098830 (example_thread\<lparr>m_mem := m, m_os := os\<rparr>))" "load64 m 0x7000 = 0x100998B0"
    using linux.entry_run[OF example_ready(1) probe(2) example_ready(2) example_stack, unfolded example_os, OF ss(1)]
    unfolding example_attached_fields by (auto simp: example_thread_def)
  have t: "fst (m_os (returning_thread m)) = 43" "nanoseconds (snd (m_os (returning_thread m))) = 6000000007"
    "m_mem (returning_thread m) = m" "m_reg (returning_thread m) RSP = 0x7008"
    by (simp_all add: returning_thread_def nanoseconds_def)
  have stack: "range64 (m_reg (returning_thread m) RSP - 112) 112 \<inter> range64 0x10000000 633008 = {}"
    unfolding t by (rule ranges_apart) simp_all
  have s: "m_reg example_thread RSP = 0x7000" "m_mem example_thread = installed_memory" by (simp_all add: example_thread_def)
  have tid: "(43 :: u32) \<noteq> 0" by simp
  have rt: "runtime_at example_attached (lp_runtime_config_init example_attached) (ring [example_call]) ss' (m_mem (returning_thread m))"
    using m(1) by (simp add: t)
  from call_returns_to_caller[OF example_os(2)[symmetric] linux.stub_kernel_axioms example_ready(1) probe example_ready(2)
      shadow_ok_init example_os(1) tid example_stack ss(1) rt ss(2) t(1) refl stack]
  obtain m' os' ss3 where "runs ref_cpu (ret_prog example_attached) (At (ret_prog example_attached) (returning_thread m))
      (Left (load64 installed_memory 0x7000) ((returning_thread m)\<lparr>
        m_reg := (m_reg (returning_thread m))(R11 := load64 installed_memory 0x7000), m_mem := m', m_os := os'\<rparr>))"
    "runtime_at example_attached (lp_runtime_config_init example_attached)
      (ring_push (ring [example_call]) (return_event example_attached (returning_thread m) 43 5000000007 6000000007)) ss3 m'"
    "frames 43 ss3 = []"
    unfolding Let_def s t(2) frames_init by blast
  then show ?thesis using m(2,3) by blast
qed

lemma stubs_always_end_witness:
  "\<exists>n t. \<forall>k \<ge> n. (step ref_cpu (entry_prog example_attached) ^^ k) (At (entry_prog example_attached) example_thread) =
     Left 0x10098830 t"
proof -
  have "wf_shadow lp_shadow_stack_init" using shadow_ok_init by (simp add: shadow_ok_def)
  moreover have "d_shadow_stack_addr example_attached \<noteq> 0" by (simp add: example_attached_fields)
  ultimately show ?thesis
    using stubs_always_end[OF linux.stub_kernel_axioms example_ready _ _ example_stack]
    unfolding example_attached_fields by blast
qed

lemma trampoline_overwrites_red_zone_witness:
  "\<exists>t. runs ref_cpu [] (At (map I (leaf_prologue @ abs_jmp 0x1008) @ ([] :: unit asm list)) example_thread) (Left 0x1008 t) \<and>
     m_reg t RDI = 11 \<and> load64 (m_mem t) (m_reg t RBP - 8) = 0x1008"
  using trampoline_overwrites_red_zone[where
      d = "zero_desc\<lparr>d_original_code := code leaf_prologue @ replicate 24 0, d_original_len := 8\<rparr>"
      and rest = "replicate 24 0" and resume = "0x1008" and C = ref_cpu and p = "[] :: unit asm list"
      and q = "[]" and s = example_thread]
  by (auto simp: example_thread_def)

text \<open>The user's view of the call: one line of the listing.\<close>

definition example_listing :: "memory \<Rightarrow> ref_world cli" where
  "example_listing m =
     \<lparr>c_manager = \<lparr>m_world = ref_init\<lparr>rw_mem := m\<rparr>, g_probe_table = []\<rparr>, c_out = [], c_err = []\<rparr>"

lemma traced_call_is_printed_witness:
  "\<exists>s x. runs ref_cpu (entry_prog example_attached) (At (entry_prog example_attached) example_thread) (Left 0x10098830 s) \<and>
    read_and_print_events ref_kernel example_attached example_args (example_listing (m_mem s)) = (Inr (), x) \<and>
    c_out x = csv_header @ print_event_csv example_call"
proof -
  obtain ss' where ss: "entry_effect example_attached (lp_runtime_config_init example_attached) example_thread 43 5000000007
      (ring []) lp_shadow_stack_init = (ring [example_call], ss', True)"
    using example_entry_effect by blast
  have probe: "d_shadow_stack_addr example_attached \<noteq> 0" by (simp add: example_attached_fields)
  obtain s :: "(u32 \<times> u64 \<times> u64) machine" where run: "runs ref_cpu (entry_prog example_attached)
      (At (entry_prog example_attached) example_thread) (Left (d_trampoline_addr example_attached) s)"
    and rt: "runtime_at example_attached (lp_runtime_config_init example_attached) (ring [example_call]) ss' (m_mem s)"
  proof -
    obtain m os where "runs ref_cpu (entry_prog example_attached) (At (entry_prog example_attached) example_thread)
        (Left (d_trampoline_addr example_attached) (example_thread\<lparr>m_mem := m, m_os := os\<rparr>))"
      "runtime_at example_attached (lp_runtime_config_init example_attached) (ring [example_call]) ss' m"
      using linux.entry_run[OF example_ready(1) probe example_ready(2) example_stack, unfolded example_os, OF ss] by blast
    then show thesis using that[of "example_thread\<lparr>m_mem := m, m_os := os\<rparr>"] by simp
  qed
  let ?x = "example_listing (m_mem s)" and ?a = "d_event_buffer_addr example_attached"
  have x: "rw_mem (m_world (c_manager ?x)) = m_mem s" "rw_vm (m_world (c_manager ?x))"
    by (simp_all add: example_listing_def ref_init_def)
  have "bytes_at (m_mem s) ?a (enc_event_buffer (ring [example_call]))" using rt by (simp add: runtime_at_def buffer_at_def)
  then have "bytes_at (m_mem s) ?a (le64 1 @ le64 4096)"
    using ring_fields[of "[example_call]"]
    by (simp add: enc_event_buffer_def LP_EVENT_BUFFER_CAPACITY_def bytes_at_append)
  then have "mem_read (m_mem s) ?a 16 = le64 1 @ le64 4096" by (simp add: bytes_at_def)
  then have fields: "le_word (take 8 (mem_read (m_mem s) ?a 16)) = (1 :: u64)"
    "le_word (take 8 (drop 8 (mem_read (m_mem s) ?a 16))) = (4096 :: u64)" by simp_all
  have "event_addr example_attached 4096 0 \<noteq> 0"
    by (simp add: event_addr_def example_attached_fields offsetof_events_def)
  then have "fst (read_and_print_events ref_kernel example_attached example_args ?x) = Inr ()"
    using fields by (intro ref_reader_ok[OF x(2)]) (simp_all add: x(1) example_attached_fields example_args_def)
  then obtain x' where read: "read_and_print_events ref_kernel example_attached example_args ?x = (Inr (), x')"
    by (metis prod.collapse)
  have "c_out x' = csv_header @ print_event_csv example_call"
    using traced_call_is_printed[OF linux.stub_kernel_axioms example_ready _ _ example_stack _ _ run
        ref.kernel_memory_axioms _ _ _ read]
    by (simp add: x example_args_def LP_EVENT_BUFFER_CAPACITY_def probe example_os events_heading_def print_event_def
        example_call_def lp_runtime_config_init_def attached_enabled) (simp add: example_listing_def)
  then show ?thesis using run read unfolding example_attached_fields by blast
qed

end
