(* ===== verification/Spec2Isabelle.thy ===== *)
theory Spec2Isabelle
  imports Insn_Length Elf_Resolver Two_Runs Traced_Calls
begin

text \<open>
  A model of lightprobe, a command-line program that puts probes on functions of a running Linux
  process (x86-64), and the theorems that make it correct.

  \<^bold>\<open>The program.\<close> \<^verbatim>\<open>lightprobe attach\<close> stops the threads of a process with \<^verbatim>\<open>ptrace\<close>, maps a block of
  memory in it by an injected system call, fills that block with a configuration, an event ring, a
  shadow stack and three pieces of machine code (trampoline, entry stub, return stub), and replaces
  the first instructions of the function by a jump to the entry stub. \<^verbatim>\<open>detach\<close> undoes this,
  \<^verbatim>\<open>enable\<close> and \<^verbatim>\<open>disable\<close> write a flag of the configuration, \<^verbatim>\<open>events\<close> reads the ring, \<^verbatim>\<open>list\<close> prints
  the table of probes, which lives in a state file between runs.

  \<^bold>\<open>Conventions.\<close> A C function is a definition of the same name; loops have a definition of their
  own. Integers are words of their width; a pointer into the table of probes is an index; a pointer
  argument that may be \<^verbatim>\<open>NULL\<close> is an option. A function that can fail returns \<open>errno + 'a\<close>; one with
  effects is a computation \<open>('s, 'a) est\<close> on a state, composed by \<open>bindE\<close> (\<^verbatim>\<open>if (f() < 0) return -1\<close>),
  \<open>on_fail\<close> (clean up and keep \<^verbatim>\<open>errno\<close>) and \<open>ignoreE\<close> (a call cast to void). \<open>UNDEFINED\<close> marks the
  points where the C program has no defined behaviour. System calls and file functions are the
  record \<open>'w kernel\<close> (\<open>Kernel\<close>), a parameter of everything; what the code relies on are locales
  with documented behaviour as laws, and every one is interpreted on the reference kernel of
  \<open>Ref_Kernel\<close>, so that the theorems with such hypotheses have witnesses.

  \<^bold>\<open>Theories and sources.\<close>
  \<^item> \<open>Prelude\<close>: machine types, error numbers, computations with a small Hoare calculus (\<open>triple\<close>,
    \<open>keeps\<close>, \<open>preserves\<close>), little-endian bytes, the locale \<open>byte_codec\<close>. \<open>Memory\<close>: byte memory.
  \<^item> \<open>Runtime\<close>: \<^verbatim>\<open>include/\<close> and \<^verbatim>\<open>runtime/\<close>: the structures with their byte images (\<open>byte_codec\<close>
    interpreted on events and configurations), the layout of the remote block.
  \<^item> \<open>Insn_Length\<close>: \<^verbatim>\<open>injector/instruction_x86_64.c\<close>. The loop ends because an instruction has at
    least one byte.
  \<^item> \<open>Code_Writer\<close>, \<open>Stub_Builder\<close>: \<^verbatim>\<open>injector/trampoline_x86_64.c\<close>, byte by byte. \<open>X86_Asm\<close> is a
    reference assembler, \<open>Stub_Programs\<close> has the stubs as assembly programs and the proof that the
    generators emit their code, every hand-patched jump included.
  \<^item> \<open>X86_Machine\<close>: what the instructions do (registers, zero and carry flag, memory), and runs of
    assembly programs. \<open>Stub_Memory\<close>: the structures of \<^verbatim>\<open>runtime.h\<close> in memory, word by word.
    \<open>Stub_Pieces\<close>: the straight pieces of the stubs; the locale \<open>stub_kernel\<close> has the two system calls
    they make. \<open>Shadow_Stack\<close>, \<open>Slot_Search\<close>, \<open>Entry_Push\<close>: push and pop as the design states them, and
    the part of the entry stub that does the push. \<open>Ret_Search\<close>: search and pop of the return stub.
    \<open>Probe_Memory\<close>: the data of a probe in memory. \<open>Entry_Run\<close>, \<open>Ret_Run\<close>: the whole stubs.
    \<open>Frames\<close>: the shadow stack as a stack of pending calls per thread. \<open>Stub_Runs\<close>: the stubs as
    \<^verbatim>\<open>probe_manager.c\<close> installs them. \<open>Traced_Calls\<close>: the properties of a traced call.
  \<^item> \<open>C_Strings\<close>: the C library's number conversions and string functions. \<open>Kernel\<close>, \<open>Files\<close>,
    \<open>Ref_Kernel\<close>: the system calls, their laws (\<open>kernel_memory\<close>, \<open>kernel_exec\<close>, \<open>kernel_threads\<close>,
    \<open>kernel_fds\<close>, \<open>kernel_contents\<close>, \<open>kernel_store\<close>), the kernel that keeps them.
  \<^item> \<open>Remote_Mem\<close>: the transfers of \<^verbatim>\<open>controller/remote_mem_ptrace.c\<close> with their fallback; the locale
    \<open>remote_memory\<close> is what the other parts see of them. \<open>Remote_Syscall\<close>:
    \<^verbatim>\<open>controller/remote_syscall.c\<close> and the mappings. \<open>Threads\<close>: \<^verbatim>\<open>controller/process_attach.c\<close> and
    \<^verbatim>\<open>thread_control.c\<close>. The wrappers of \<^verbatim>\<open>controller_stub.c\<close> stand with what they wrap.
  \<^item> \<open>Maps_Parser\<close>, \<open>Gadget_Finder\<close>, \<open>Elf_Resolver\<close>: the files of these names in \<^verbatim>\<open>controller/\<close>.
  \<^item> \<open>Patch\<close>: \<^verbatim>\<open>injector/patch_x86_64.c\<close>. \<open>Slots\<close>: tables of slots as maps (locale \<open>slots\<close>).
    \<open>Probe_Table\<close>, \<open>Probe_Manager\<close>: \<^verbatim>\<open>injector/probe_manager.c\<close>: table and state file, then attach,
    detach, enable, disable, and the reachable states of the manager. \<open>Probe_Effects\<close>: what they
    do to the memory of the target; \<open>Probe_Release\<close>: what they do to its threads.
  \<^item> \<open>Events\<close>: the reader of \<^verbatim>\<open>cli/cmd_events.c\<close>; \<open>Cli_Args\<close>: the argument parsers; \<open>Cli\<close>: the commands
    and \<open>main\<close> (locales \<open>command\<close> and \<open>switching\<close>, interpreted on every command).
  \<^item> \<open>Probe_Example\<close>, \<open>Two_Runs\<close>: whole runs on the reference kernel; \<open>Two_Runs\<close> also has the
    theorem on attach and detach in two processes.

  \<^bold>\<open>What the theorems show.\<close> The generators emit the intended programs. The length decoder and the
  patch length respect instruction boundaries as decoded. A transfer changes exactly its range.
  An injected system call leaves the target as it was but for one word below its stack. Threads are
  stopped all or none, and all released on every path. The resolvers return the first match of a
  reference reading of the file, and leak no descriptor. The table implements a map, attach inserts,
  detach deletes, and the invariant holds in every reachable state and after every run of \<open>main\<close>.
  Attach changes nothing but the entry of the function and its own block, and detach gives the code
  back. The event reader prints the newest events of the ring's history.

  \<^bold>\<open>A traced call.\<close> Installation leaves a memory that the stubs can run from. A run of the entry
  stub appends one event with the arguments of the call to the ring, takes over the return address
  when the probe has a return probe, and reaches the trampoline with all registers and flags; a run
  of the return stub pops that address, appends one event and returns to it. With balanced calls in
  between, the call so returns to its caller, and the event reader, on the memory that a stub left,
  prints the stub's event. The stubs always end. The jump out of the trampoline does not keep the word
  below the stack pointer, which a displaced instruction may have written.

  \<^bold>\<open>Termination and bounds.\<close> Every definition is total, without fuel: the loops recurse on their data
  or carry a measure. A run of a stub is a number of machine steps that exists; it is not bounded from
  outside, and the search loop ends by its own bound of 256 slots. Word arithmetic wraps as in C; bounds (capacity 4096, 256 threads, depth 64,
  16 probes, 4096 recorded threads) are the constants of the sources.

  \<^bold>\<open>Not modelled.\<close> The standard output and error output never fail and are two separate texts; \<^verbatim>\<open>argc\<close>
  is at least 1; \<^verbatim>\<open>strerror\<close> is a parameter. The target does not run between the reads of one
  command. A stub runs without other threads in between, so the lost race for a slot of the shadow
  stack (\<open>scan_race\<close>) is in the program but is not taken; the stack of the thread and the runtime do not meet.
  The machine runs assembly programs, not bytes: that the bytes are their code is
  proved in \<open>Stub_Programs\<close>. What the stubs do not use of the processor
  (vector registers, segments, faults) is left out. The files \<^verbatim>\<open>*.S\<close> hold empty placeholders; \<^verbatim>\<open>controller.h\<close> and other headers only declare.
  Tests, build files and documents are no part of the program.
\<close>

end
